(* ===== verification/Prelude.thy ===== *)
theory Prelude
  imports Main "HOL-Library.AList"
begin

text \<open>
  Shared ground of the development: the collections of rewrite rules, the exceptions of
  the Python code as values of a sum type with its sequencing operator, and the facts on
  lists, finite visited sets and stable folds that the component theories use.
\<close>

named_theorems py_simps "rewrite rules on Python strings, dictionaries and JSON nodes"
named_theorems walk_simps "unfolding rules of the recursive AST walks"
named_theorems keep_intros "introduction rules: an operation keeps an invariant"

subsection \<open>Exceptions as values\<close>

text \<open>
  \<open>ValueErr\<close> carries the message of a raised \<open>ValueError\<close>; \<open>IndexErr\<close> is an
  out-of-range subscript; \<open>Diverges\<close> is a loop or a call chain without end (for a call
  chain Python ends it with \<open>RecursionError\<close>): a model with fuel returns it when the fuel
  is spent, and each such model has a theorem that says when that cannot happen;
  \<open>TemplateErr\<close> is an exception of the template engine.
\<close>

datatype exn = ValueErr string | IndexErr | Diverges | TemplateErr

type_synonym 'a outcome = "exn + 'a"

fun ebind :: "'a outcome \<Rightarrow> ('a \<Rightarrow> 'b outcome) \<Rightarrow> 'b outcome" where
  "ebind (Inl e) f = Inl e"
| "ebind (Inr x) f = f x"

lemma ebind_Inr_iff: "ebind m f = Inr y \<longleftrightarrow> (\<exists>x. m = Inr x \<and> f x = Inr y)"
  by (cases m) auto

lemma ebind_Inl_iff: "ebind m f = Inl e \<longleftrightarrow> m = Inl e \<or> (\<exists>x. m = Inr x \<and> f x = Inl e)"
  by (cases m) auto

lemma ebind_cong [fundef_cong]:
  "m = m' \<Longrightarrow> (\<And>x. m' = Inr x \<Longrightarrow> f x = g x) \<Longrightarrow> ebind m f = ebind m' g"
  by (cases m') auto

text \<open>A loop whose body may raise: the first exception ends it.\<close>

fun efold :: "('a \<Rightarrow> 's \<Rightarrow> 's outcome) \<Rightarrow> 'a list \<Rightarrow> 's \<Rightarrow> 's outcome" where
  "efold f [] s = Inr s"
| "efold f (x # xs) s = ebind (f x s) (efold f xs)"

lemma efold_cong [fundef_cong]:
  "xs = ys \<Longrightarrow> s = t \<Longrightarrow> (\<And>x u. x \<in> set ys \<Longrightarrow> f x u = g x u) \<Longrightarrow> efold f xs s = efold g ys t"
  by (induction xs arbitrary: ys s t) (auto intro!: ebind_cong)

lemma efold_invariant:
  assumes "efold f xs s = Inr t" and "P s"
    and "\<And>x u v. x \<in> set xs \<Longrightarrow> P u \<Longrightarrow> f x u = Inr v \<Longrightarrow> P v"
  shows "P t"
  using assms
proof (induction xs arbitrary: s)
  case Nil
  then show ?case by simp
next
  case (Cons x xs)
  from Cons.prems(1) obtain u where u: "f x s = Inr u" and t: "efold f xs u = Inr t"
    by (auto simp: ebind_Inr_iff)
  from Cons.prems(2,3) u have "P u" by (meson list.set_intros(1))
  with t Cons.prems(3) show ?case by (meson Cons.IH list.set_intros(2))
qed

lemma efold_total_iff:
  assumes "\<And>x u. x \<in> set xs \<Longrightarrow> (\<exists>v. f x u = Inr v) \<longleftrightarrow> P x"
  shows "(\<exists>t. efold f xs s = Inr t) \<longleftrightarrow> (\<forall>x \<in> set xs. P x)"
  using assms
proof (induction xs arbitrary: s)
  case (Cons x xs)
  have "(\<exists>t. efold f xs u = Inr t) \<longleftrightarrow> (\<forall>x \<in> set xs. P x)" for u
    using Cons.prems by (intro Cons.IH) auto
  moreover have "(\<exists>v. f x s = Inr v) \<longleftrightarrow> P x" by (rule Cons.prems) simp
  ultimately show ?case by (auto simp: ebind_Inr_iff)
qed simp

lemma efold_Inl: "efold f xs s = Inl e \<Longrightarrow> \<exists>x \<in> set xs. \<exists>u. f x u = Inl e"
  by (induction xs arbitrary: s) (auto simp: ebind_Inl_iff)

subsection \<open>Folds\<close>

lemma fold_invariant_set:
  assumes "P s" and "\<And>x u. x \<in> set xs \<Longrightarrow> P u \<Longrightarrow> P (f x u)"
  shows "P (fold f xs s)"
  using assms by (induction xs arbitrary: s) auto

text \<open>
  Append-if-absent, the idiom \<open>if x not in xs: xs.append(x)\<close> of the source.
\<close>

definition add_new :: "'a \<Rightarrow> 'a list \<Rightarrow> 'a list" where
  "add_new x xs = (if x \<in> set xs then xs else xs @ [x])"

definition add_all_new :: "'a list \<Rightarrow> 'a list \<Rightarrow> 'a list" where
  "add_all_new xs ys = fold add_new xs ys"

lemma set_add_new [simp]: "set (add_new x xs) = insert x (set xs)"
  by (auto simp: add_new_def)

lemma distinct_add_new [simp]: "distinct (add_new x xs) \<longleftrightarrow> distinct xs"
  by (auto simp: add_new_def)

lemma set_add_all_new [simp]: "set (add_all_new xs ys) = set xs \<union> set ys"
  by (induction xs arbitrary: ys) (auto simp: add_all_new_def)

lemma distinct_add_all_new [simp]: "distinct (add_all_new xs ys) \<longleftrightarrow> distinct ys"
  by (induction xs arbitrary: ys) (auto simp: add_all_new_def)

lemma add_all_new_Nil [simp]: "add_all_new [] ys = ys"
  by (simp add: add_all_new_def)

lemma add_all_new_Cons: "add_all_new (x # xs) ys = add_all_new xs (add_new x ys)"
  by (simp add: add_all_new_def)

lemma add_all_new_subset [simp]: "set xs \<subseteq> set ys \<Longrightarrow> add_all_new xs ys = ys"
  by (induction xs) (auto simp: add_all_new_Cons add_new_def)

lemma add_all_new_prefix: "\<exists>zs. add_all_new xs ys = ys @ zs"
proof (induction xs arbitrary: ys)
  case Nil
  then show ?case by simp
next
  case (Cons x xs)
  obtain zs where "add_all_new xs (add_new x ys) = add_new x ys @ zs"
    using Cons.IH by blast
  then show ?case by (auto simp: add_all_new_Cons add_new_def)
qed

text \<open>\<open>list(dict.fromkeys(xs))\<close>: the first occurrence of every element, in order.\<close>

definition uniq :: "'a list \<Rightarrow> 'a list" where
  "uniq xs = add_all_new xs []"

lemma set_uniq [simp]: "set (uniq xs) = set xs"
  by (simp add: uniq_def)

lemma distinct_uniq [simp]: "distinct (uniq xs)"
  by (simp add: uniq_def)

lemma add_all_new_disjoint:
  "distinct xs \<Longrightarrow> set xs \<inter> set ys = {} \<Longrightarrow> add_all_new xs ys = ys @ xs"
proof (induction xs arbitrary: ys)
  case Nil
  then show ?case by simp
next
  case (Cons x xs)
  then have "add_all_new xs (ys @ [x]) = (ys @ [x]) @ xs" by (intro Cons.IH) auto
  with Cons.prems show ?case by (auto simp: add_all_new_Cons add_new_def)
qed

lemma uniq_distinct [simp]: "distinct xs \<Longrightarrow> uniq xs = xs"
  by (simp add: uniq_def add_all_new_disjoint)

subsection \<open>Visited sets\<close>

text \<open>
  Every loop of the source that follows a reference until it meets a node for the second
  time terminates because the unvisited part of a finite set shrinks.
\<close>

lemma card_unvisited_less:
  "finite D \<Longrightarrow> x \<in> D \<Longrightarrow> x \<notin> V \<Longrightarrow> card (D - insert x V) < card (D - V)"
  by (rule psubset_card_mono) auto

lemma card_unvisited_less_list [termination_simp]:
  "x \<in> set xs \<Longrightarrow> x \<notin> set vs \<Longrightarrow> card (set xs - insert x (set vs)) < card (set xs - set vs)"
  by (rule card_unvisited_less) auto

lemma map_of_Some_fst: "map_of al k = Some v \<Longrightarrow> k \<in> fst ` set al"
  by (metis map_of_SomeD fst_conv imageI)

end
