(* ===== verification/Py_String.thy ===== *)
theory Py_String
  imports Prelude "HOL-Library.Char_ord" "HOL-Library.List_Lexorder"
begin

text \<open>
  The \<open>str\<close> methods the transpiler uses, on \<open>string\<close> (a list of bytes; text is UTF-8,
  and every character the code tests for is ASCII). \<open>is_space\<close> is the ASCII part of
  \<open>str.isspace\<close>, which is also what \<open>\s\<close> matches in the code's regular expressions.
  With \<open>List_Lexorder\<close> and \<open>Char_ord\<close>, \<open>sort\<close> is Python's \<open>sorted\<close> on strings.
\<close>

subsection \<open>Characters and quoting\<close>

definition is_space :: "char \<Rightarrow> bool" where
  "is_space c \<longleftrightarrow> c \<in> {CHR '' '', CHR 0x09, CHR 0x0A, CHR 0x0B, CHR 0x0C, CHR 0x0D,
                      CHR 0x1C, CHR 0x1D, CHR 0x1E, CHR 0x1F}"

definition is_upper :: "char \<Rightarrow> bool" where
  "is_upper c \<longleftrightarrow> 65 \<le> (of_char c :: nat) \<and> (of_char c :: nat) \<le> 90"

definition is_lower :: "char \<Rightarrow> bool" where
  "is_lower c \<longleftrightarrow> 97 \<le> (of_char c :: nat) \<and> (of_char c :: nat) \<le> 122"

definition is_digit :: "char \<Rightarrow> bool" where
  "is_digit c \<longleftrightarrow> 48 \<le> (of_char c :: nat) \<and> (of_char c :: nat) \<le> 57"

text \<open>\<open>[A-Za-z_]\<close> and \<open>\w\<close>.\<close>

definition is_ident_start :: "char \<Rightarrow> bool" where
  "is_ident_start c \<longleftrightarrow> is_upper c \<or> is_lower c \<or> c = CHR ''_''"

definition is_word_char :: "char \<Rightarrow> bool" where
  "is_word_char c \<longleftrightarrow> is_ident_start c \<or> is_digit c"

definition upper_char :: "char \<Rightarrow> char" where
  "upper_char c = (if is_lower c then char_of ((of_char c :: nat) - 32) else c)"

definition lower_char :: "char \<Rightarrow> char" where
  "lower_char c = (if is_upper c then char_of ((of_char c :: nat) + 32) else c)"

definition str_lower :: "string \<Rightarrow> string" where
  "str_lower s = map lower_char s"

abbreviation nl :: char where "nl \<equiv> CHR 0x0A"
abbreviation tab :: char where "tab \<equiv> CHR 0x09"
abbreviation squote :: char where "squote \<equiv> CHR 0x27"
abbreviation dquote :: char where "dquote \<equiv> CHR 0x22"
abbreviation backslash :: char where "backslash \<equiv> CHR 0x5C"

definition quoted :: "string \<Rightarrow> string" where
  "quoted s = squote # s @ [squote]"

definition dquoted :: "string \<Rightarrow> string" where
  "dquoted s = dquote # s @ [dquote]"

text \<open>The em dash of the code's messages, in UTF-8.\<close>

definition em_dash :: string where
  "em_dash = [CHR 0xE2, CHR 0x80, CHR 0x94]"

definition tabs :: "nat \<Rightarrow> string" where
  "tabs n = replicate n tab"

subsection \<open>Prefixes, suffixes, search\<close>

definition startswith :: "string \<Rightarrow> string \<Rightarrow> bool" where
  "startswith s p \<longleftrightarrow> take (length p) s = p"

definition endswith :: "string \<Rightarrow> string \<Rightarrow> bool" where
  "endswith s p \<longleftrightarrow> startswith (rev s) (rev p)"

fun contains :: "string \<Rightarrow> string \<Rightarrow> bool" where
  "contains sub [] = (sub = [])"
| "contains sub (c # cs) = (startswith (c # cs) sub \<or> contains sub cs)"

text \<open>\<open>s.find(sub)\<close>: the position of the first occurrence.\<close>

fun str_find :: "string \<Rightarrow> string \<Rightarrow> nat option" where
  "str_find sub [] = (if sub = [] then Some 0 else None)"
| "str_find sub (c # cs) =
     (if startswith (c # cs) sub then Some 0 else map_option Suc (str_find sub cs))"

lemma startswith_append [simp]: "startswith (p @ s) p"
  by (simp add: startswith_def)

lemma startswith_Nil [simp]: "startswith s []"
  by (simp add: startswith_def)

lemma startswith_iff: "startswith s p \<longleftrightarrow> (\<exists>t. s = p @ t)"
  by (auto simp: startswith_def) (metis append_take_drop_id)

lemma endswith_iff: "endswith s p \<longleftrightarrow> (\<exists>t. s = t @ p)"
proof -
  have "(\<exists>t. rev s = rev p @ t) \<longleftrightarrow> (\<exists>t. s = t @ p)"
    by (metis rev_append rev_rev_ident)
  then show ?thesis by (simp add: endswith_def startswith_iff)
qed

lemma contains_iff: "contains sub s \<longleftrightarrow> (\<exists>p q. s = p @ sub @ q)"
proof (induction s)
  case Nil
  then show ?case by simp
next
  case (Cons c s)
  have "contains sub (c # s) \<longleftrightarrow> (\<exists>q. c # s = sub @ q) \<or> (\<exists>p q. s = p @ sub @ q)"
    using Cons.IH by (simp add: startswith_iff)
  also have "\<dots> \<longleftrightarrow> (\<exists>p q. c # s = p @ sub @ q)"
    by (metis append_Cons append_Nil list.inject neq_Nil_conv)
  finally show ?case .
qed

lemma str_find_contains: "str_find sub s = None \<longleftrightarrow> \<not> contains sub s"
  by (induction s) auto

lemma str_find_Some:
  "str_find sub s = Some i \<Longrightarrow> i + length sub \<le> length s \<and> s = take i s @ sub @ drop (i + length sub) s"
proof (induction s arbitrary: i)
  case Nil
  then show ?case by (simp split: if_splits)
next
  case (Cons c s)
  show ?case
  proof (cases "startswith (c # s) sub")
    case True
    with Cons.prems have "i = 0" by simp
    from True obtain t where "c # s = sub @ t" by (auto simp: startswith_iff)
    then have "length sub + length t = length (c # s)" by (metis length_append)
    with True \<open>i = 0\<close> \<open>c # s = sub @ t\<close> show ?thesis by simp
  next
    case False
    with Cons.prems obtain j where "str_find sub s = Some j" "i = Suc j" by auto
    with Cons.IH [of j] show ?thesis by simp
  qed
qed

subsection \<open>Stripping\<close>

definition rstrip_of :: "(char \<Rightarrow> bool) \<Rightarrow> string \<Rightarrow> string" where
  "rstrip_of p s = rev (dropWhile p (rev s))"

definition rstrip :: "string \<Rightarrow> string" where
  "rstrip s = rstrip_of is_space s"

definition lstrip :: "string \<Rightarrow> string" where
  "lstrip s = dropWhile is_space s"

definition strip :: "string \<Rightarrow> string" where
  "strip s = rstrip (lstrip s)"

text \<open>\<open>s.rstrip(" *")\<close>.\<close>

definition rstrip_ptr :: "string \<Rightarrow> string" where
  "rstrip_ptr s = rstrip_of (\<lambda>c. c = CHR '' '' \<or> c = CHR ''*'') s"

lemma length_dropWhile: "length (dropWhile p xs) \<le> length xs"
  by (induction xs) auto

lemma length_rstrip_of [simp]: "length (rstrip_of p s) \<le> length s"
  using length_dropWhile [of p "rev s"] by (simp add: rstrip_of_def)

lemma length_strip [simp]: "length (strip s) \<le> length s"
proof -
  have "length (rstrip (lstrip s)) \<le> length (lstrip s)" by (simp add: rstrip_def)
  also have "\<dots> \<le> length s" by (simp add: lstrip_def length_dropWhile)
  finally show ?thesis by (simp add: strip_def)
qed

lemma dropWhile_idem: "dropWhile p (dropWhile p xs) = dropWhile p xs"
  by (induction xs) auto

lemma rstrip_of_idem: "rstrip_of p (rstrip_of p s) = rstrip_of p s"
  by (simp add: rstrip_of_def dropWhile_idem)

lemma rstrip_of_snoc: "rstrip_of p (s @ [c]) = (if p c then rstrip_of p s else s @ [c])"
  by (simp add: rstrip_of_def)

lemma dropWhile_rstrip: "dropWhile p s = s \<Longrightarrow> dropWhile p (rstrip_of p s) = rstrip_of p s"
proof (cases s)
  case (Cons c cs)
  assume "dropWhile p s = s"
  with Cons have "\<not> p c"
    by (metis dropWhile.simps(2) length_dropWhile impossible_Cons)
  then have "dropWhile p (rev cs @ [c]) = dropWhile p (rev cs) @ [c]"
    by (induction cs rule: rev_induct) auto
  with Cons \<open>\<not> p c\<close> show ?thesis by (simp add: rstrip_of_def)
qed (simp add: rstrip_of_def)

lemma strip_idem [simp]: "strip (strip s) = strip s"
proof -
  have "lstrip (strip s) = strip s"
    unfolding strip_def lstrip_def rstrip_def by (rule dropWhile_rstrip) (rule dropWhile_idem)
  then show ?thesis by (simp add: strip_def rstrip_def rstrip_of_idem)
qed

subsection \<open>Replacement, splitting, joining\<close>

text \<open>\<open>s.replace(old, new)\<close> for a non-empty \<open>old\<close>: leftmost, non-overlapping.\<close>

function str_replace :: "string \<Rightarrow> string \<Rightarrow> string \<Rightarrow> string" where
  "str_replace old new [] = []"
| "str_replace old new (c # cs) =
     (if old \<noteq> [] \<and> startswith (c # cs) old
      then new @ str_replace old new (drop (length old) (c # cs))
      else c # str_replace old new cs)"
  by pat_completeness auto
termination
  by (relation "measure (\<lambda>(old, new, s). length s)") auto

text \<open>\<open>s.replace(old, new, 1)\<close>.\<close>

fun str_replace1 :: "string \<Rightarrow> string \<Rightarrow> string \<Rightarrow> string" where
  "str_replace1 old new [] = []"
| "str_replace1 old new (c # cs) =
     (if old \<noteq> [] \<and> startswith (c # cs) old then new @ drop (length old) (c # cs)
      else c # str_replace1 old new cs)"

lemma str_replace_char: "str_replace [a] [b] s = map (\<lambda>c. if c = a then b else c) s"
  by (induction s) (auto simp: startswith_def)

lemma length_str_replace_Nil: "length (str_replace old [] s) \<le> length s"
proof (induction "length s" arbitrary: s rule: less_induct)
  case less
  show ?case
  proof (cases s)
    case (Cons c cs)
    show ?thesis
    proof (cases "old \<noteq> [] \<and> startswith (c # cs) old")
      case True
      then have "length (drop (length old) s) < length s" using Cons by auto
      with less have "length (str_replace old [] (drop (length old) s)) \<le> length s"
        by (meson le_trans less_imp_le)
      with True Cons show ?thesis by simp
    next
      case False
      with less [of cs] Cons show ?thesis by (auto simp del: length_greater_0_conv)
    qed
  qed simp
qed

text \<open>\<open>s.split(c)\<close> for a one-character separator, and \<open>sep.join(parts)\<close>.\<close>

fun str_split :: "char \<Rightarrow> string \<Rightarrow> string list" where
  "str_split c [] = [[]]"
| "str_split c (d # ds) =
     (if d = c then [] # str_split c ds
      else (case str_split c ds of [] \<Rightarrow> [[d]] | p # ps \<Rightarrow> (d # p) # ps))"

fun str_join :: "string \<Rightarrow> string list \<Rightarrow> string" where
  "str_join sep [] = []"
| "str_join sep [p] = p"
| "str_join sep (p # q # ps) = p @ sep @ str_join sep (q # ps)"

lemma str_split_not_Nil [simp]: "str_split c s \<noteq> []"
  by (cases s) (auto split: list.splits)

lemma str_join_Cons: "ps \<noteq> [] \<Longrightarrow> str_join sep (p # ps) = p @ sep @ str_join sep ps"
  by (cases ps) auto

lemma str_join_cons_head: "str_join sep ((d # p) # ps) = d # str_join sep (p # ps)"
  by (cases ps) auto

lemma str_join_split: "str_join [c] (str_split c s) = s"
proof (induction s)
  case Nil
  then show ?case by simp
next
  case (Cons d s)
  then show ?case
    by (auto simp: str_join_Cons str_join_cons_head split: list.splits)
qed

lemma str_split_no_sep: "p \<in> set (str_split c s) \<Longrightarrow> c \<notin> set p"
  by (induction s arbitrary: p) (auto split: if_splits list.splits)

lemma str_split_length: "p \<in> set (str_split c s) \<Longrightarrow> length p \<le> length s"
proof (induction s arbitrary: p)
  case Nil
  then show ?case by simp
next
  case (Cons d s)
  show ?case
  proof (cases "str_split c s")
    case Nil
    then show ?thesis by simp
  next
    case (Cons q qs)
    have IH: "length r \<le> length s" if "r \<in> set (str_split c s)" for r
      using that by (rule Cons.IH)
    show ?thesis
      using Cons.prems Cons IH [of p] IH [of q] by (auto split: if_splits)
  qed
qed

lemma str_split_id: "c \<notin> set s \<Longrightarrow> str_split c s = [s]"
  by (induction s) auto

lemma str_split_append_sep: "c \<notin> set p \<Longrightarrow> str_split c (p @ c # s) = p # str_split c s"
  by (induction p) auto

lemma str_split_join:
  "ps \<noteq> [] \<Longrightarrow> (\<And>p. p \<in> set ps \<Longrightarrow> c \<notin> set p) \<Longrightarrow> str_split c (str_join [c] ps) = ps"
proof (induction "[c]" ps rule: str_join.induct)
  case 1
  then show ?case by simp
next
  case (2 p)
  then show ?case by (simp add: str_split_id)
next
  case (3 p q ps)
  then show ?case by (simp add: str_split_append_sep)
qed

subsection \<open>Numbers in f-strings\<close>

function str_of_nat :: "nat \<Rightarrow> string" where
  "str_of_nat n =
     (if n < 10 then [char_of (n + 48)] else str_of_nat (n div 10) @ [char_of (n mod 10 + 48)])"
  by pat_completeness auto
termination
  by (relation "measure id") auto

declare str_of_nat.simps [simp del]

definition str_of_int :: "int \<Rightarrow> string" where
  "str_of_int i = (if i < 0 then ''-'' @ str_of_nat (nat (- i)) else str_of_nat (nat i))"

lemma str_of_nat_small: "n < 10 \<Longrightarrow> str_of_nat n = [char_of (n + 48)]"
  by (simp add: str_of_nat.simps)

definition digits_value :: "string \<Rightarrow> nat" where
  "digits_value s = foldl (\<lambda>a c. 10 * a + (of_char c - 48)) 0 s"

lemma of_char_digit: "n < 10 \<Longrightarrow> (of_char (char_of (n + 48 :: nat)) :: nat) = n + 48"
  by simp

lemma digits_value_str_of_nat [simp]: "digits_value (str_of_nat n) = n"
proof (induction n rule: str_of_nat.induct)
  case (1 n)
  show ?case
  proof (cases "n < 10")
    case True
    then show ?thesis
      by (simp add: str_of_nat_small digits_value_def del: of_char_of) (simp add: of_char_digit)
  next
    case False
    then have "str_of_nat n = str_of_nat (n div 10) @ [char_of (n mod 10 + 48)]"
      by (simp add: str_of_nat.simps [of n])
    moreover have "digits_value (str_of_nat (n div 10)) = n div 10"
      using 1 False by simp
    ultimately have "digits_value (str_of_nat n)
        = 10 * (n div 10) + ((of_char (char_of (n mod 10 + 48 :: nat)) :: nat) - 48)"
      by (simp add: digits_value_def del: of_char_of)
    also have "\<dots> = 10 * (n div 10) + n mod 10"
      using of_char_digit [of "n mod 10"] by (simp del: of_char_of)
    finally show ?thesis by simp
  qed
qed

lemma str_of_nat_inject [simp]: "str_of_nat m = str_of_nat n \<longleftrightarrow> m = n"
  by (metis digits_value_str_of_nat)

end
