(* ===== verification/Oz_Type.thy ===== *)
theory Oz_Type
  imports Py_String
begin

text \<open>
  \<open>OZType\<close> of \<open>tools/oz_transpile/model.py\<close>: a Clang \<open>qualType\<close> string and the questions
  the transpiler asks of it (object, block, generic parameters, C spelling). The regular
  expressions of the source are written out as list functions; the qualType strings have
  no line breaks at their ends once stripped, so \<open>$\<close> is the end of the string.
\<close>

record oz_type =
  raw_qual_type :: string

definition OZType :: "string \<Rightarrow> oz_type" where
  "OZType s = \<lparr>raw_qual_type = s\<rparr>"

lemma raw_OZType [simp]: "raw_qual_type (OZType s) = s"
  by (simp add: OZType_def)

subsection \<open>Stripping qualifiers and generics\<close>

definition arc_qualifiers :: "string list" where
  "arc_qualifiers = [''__strong'', ''__weak'', ''__unsafe_unretained'', ''__autoreleasing'',
                     ''_Nonnull'', ''_Nullable'', ''__kindof'']"

definition drop_qualifiers :: "string \<Rightarrow> string" where
  "drop_qualifiers qt = fold (\<lambda>qual s. str_replace qual [] s) arc_qualifiers qt"

text \<open>One pass of \<open>re.sub(r"<[^<>]+>", "", qt)\<close>.\<close>

function strip_angles_once :: "string \<Rightarrow> string" where
  "strip_angles_once [] = []"
| "strip_angles_once (c # cs) =
     (if c = CHR ''<''
      then let body = takeWhile (\<lambda>x. x \<noteq> CHR ''<'' \<and> x \<noteq> CHR ''>'') cs;
               rest = dropWhile (\<lambda>x. x \<noteq> CHR ''<'' \<and> x \<noteq> CHR ''>'') cs
           in if body \<noteq> [] \<and> startswith rest ''>'' then strip_angles_once (tl rest)
              else c # strip_angles_once cs
      else c # strip_angles_once cs)"
  by pat_completeness auto
termination
proof (relation "measure length", goal_cases)
  case (2 c cs x xa)
  have "length (tl xa) \<le> length xa" by simp
  also have "\<dots> \<le> length cs" by (simp add: 2 length_dropWhile)
  finally show ?case by simp
qed auto

lemma length_strip_angles_once: "length (strip_angles_once s) \<le> length s"
proof (induction s rule: strip_angles_once.induct)
  case 1
  then show ?case by simp
next
  case (2 c cs)
  let ?ang = "\<lambda>x. x \<noteq> CHR ''<'' \<and> x \<noteq> CHR ''>''"
  let ?rest = "dropWhile ?ang cs"
  have tl_le: "length (tl ?rest) \<le> length cs"
    using length_dropWhile [of ?ang cs] by simp
  show ?case
  proof (cases "c = CHR ''<'' \<and> takeWhile ?ang cs \<noteq> [] \<and> startswith ?rest ''>''")
    case True
    then have "length (strip_angles_once (tl ?rest)) \<le> length (tl ?rest)"
      by (intro "2.IH"(1)) auto
    with tl_le True show ?thesis by (simp add: Let_def)
  next
    case False
    then have "strip_angles_once (c # cs) = c # strip_angles_once cs"
      by (auto simp: Let_def)
    moreover have "length (strip_angles_once cs) \<le> length cs"
      using "2.IH" False by (cases "c = CHR ''<''") auto
    ultimately show ?thesis by simp
  qed
qed

lemma strip_angles_once_shrinks:
  "strip_angles_once s \<noteq> s \<Longrightarrow> length (strip_angles_once s) < length s"
proof (induction s rule: strip_angles_once.induct)
  case 1
  then show ?case by simp
next
  case (2 c cs)
  let ?ang = "\<lambda>x. x \<noteq> CHR ''<'' \<and> x \<noteq> CHR ''>''"
  let ?rest = "dropWhile ?ang cs"
  show ?case
  proof (cases "c = CHR ''<'' \<and> takeWhile ?ang cs \<noteq> [] \<and> startswith ?rest ''>''")
    case True
    have "length (strip_angles_once (tl ?rest)) \<le> length (tl ?rest)"
      by (rule length_strip_angles_once)
    also have "\<dots> \<le> length cs" using length_dropWhile [of ?ang cs] by simp
    finally show ?thesis using True by (simp add: Let_def)
  next
    case False
    then have eq: "strip_angles_once (c # cs) = c # strip_angles_once cs"
      by (auto simp: Let_def)
    with "2.prems" have "strip_angles_once cs \<noteq> cs" by simp
    then have "length (strip_angles_once cs) < length cs"
      using "2.IH" False by (cases "c = CHR ''<''") auto
    with eq show ?thesis by simp
  qed
qed

text \<open>The loop \<open>while prev != qt\<close> of \<open>_strip_qualifiers\<close>.\<close>

function strip_angles :: "string \<Rightarrow> string" where
  "strip_angles qt =
     (let qt' = strip_angles_once qt in if qt' = qt then qt else strip_angles qt')"
  by pat_completeness auto
termination
  by (relation "measure length") (auto simp: strip_angles_once_shrinks)

declare strip_angles.simps [simp del]

definition strip_qualifiers :: "oz_type \<Rightarrow> string" where
  "strip_qualifiers t = strip (strip_angles (drop_qualifiers (raw_qual_type t)))"

lemma strip_angles_fixpoint: "strip_angles_once (strip_angles qt) = strip_angles qt"
proof (induction qt rule: strip_angles.induct)
  case (1 qt)
  then show ?case by (subst (1 2) strip_angles.simps) (auto simp: Let_def)
qed

lemma length_strip_angles: "length (strip_angles qt) \<le> length qt"
proof (induction qt rule: strip_angles.induct)
  case (1 qt)
  show ?case
  proof (cases "strip_angles_once qt = qt")
    case True
    then show ?thesis by (simp add: strip_angles.simps [of qt] Let_def)
  next
    case False
    with 1 have "length (strip_angles (strip_angles_once qt)) \<le> length (strip_angles_once qt)"
      by simp
    also have "\<dots> \<le> length qt" by (rule length_strip_angles_once)
    finally show ?thesis by (simp add: strip_angles.simps [of qt] Let_def)
  qed
qed

lemma length_drop_qualifiers: "length (drop_qualifiers qt) \<le> length qt"
proof -
  have "length (fold (\<lambda>qual s. str_replace qual [] s) qs s) \<le> length s" for qs s
    by (induction qs arbitrary: s) (auto intro: order_trans [OF _ length_str_replace_Nil])
  then show ?thesis by (simp add: drop_qualifiers_def)
qed

lemma length_strip_qualifiers: "length (strip_qualifiers t) \<le> length (raw_qual_type t)"
proof -
  have "length (strip_qualifiers t) \<le> length (strip_angles (drop_qualifiers (raw_qual_type t)))"
    by (simp add: strip_qualifiers_def)
  also have "\<dots> \<le> length (drop_qualifiers (raw_qual_type t))" by (rule length_strip_angles)
  also have "\<dots> \<le> length (raw_qual_type t)" by (rule length_drop_qualifiers)
  finally show ?thesis .
qed

text \<open>A fixpoint of the pass has no innermost \<open><...>\<close> group left.\<close>

lemma strip_angles_once_group:
  assumes "body \<noteq> []" and "\<forall>x \<in> set body. x \<noteq> CHR ''<'' \<and> x \<noteq> CHR ''>''"
  shows "strip_angles_once (a @ ''<'' @ body @ ''>'' @ b) \<noteq> a @ ''<'' @ body @ ''>'' @ b"
proof -
  have "length (strip_angles_once (a @ ''<'' @ body @ ''>'' @ b)) < length (a @ ''<'' @ body @ ''>'' @ b)"
  proof (induction a)
    case Nil
    let ?ang = "\<lambda>x. x \<noteq> CHR ''<'' \<and> x \<noteq> CHR ''>''"
    have t: "takeWhile ?ang (body @ CHR ''>'' # b) = body"
      using assms(2) by (subst takeWhile_append2) auto
    have d: "dropWhile ?ang (body @ CHR ''>'' # b) = CHR ''>'' # b"
      using assms(2) by (subst dropWhile_append2) auto
    have "strip_angles_once (''<'' @ body @ ''>'' @ b) = strip_angles_once b"
      using assms(1) by (simp add: t d Let_def startswith_def)
    with length_strip_angles_once [of b] show ?case by simp
  next
    case (Cons c cs)
    let ?s = "cs @ ''<'' @ body @ ''>'' @ b"
    let ?ang = "\<lambda>x. x \<noteq> CHR ''<'' \<and> x \<noteq> CHR ''>''"
    let ?rest = "dropWhile ?ang ?s"
    show ?case
    proof (cases "c = CHR ''<'' \<and> takeWhile ?ang ?s \<noteq> [] \<and> startswith ?rest ''>''")
      case True
      have "length (strip_angles_once (tl ?rest)) \<le> length (tl ?rest)"
        by (rule length_strip_angles_once)
      also have "\<dots> \<le> length ?s" using length_dropWhile [of ?ang ?s] by simp
      finally show ?thesis using True by (simp add: Let_def)
    next
      case False
      then have eq: "strip_angles_once (c # ?s) = c # strip_angles_once ?s"
        by (auto simp: Let_def)
      have "length (strip_angles_once ?s) < length ?s"
        using Cons.IH by simp
      with eq show ?thesis by simp
    qed
  qed
  then show ?thesis by (metis nat_neq_iff)
qed

subsection \<open>Questions\<close>

definition is_block :: "oz_type \<Rightarrow> bool" where
  "is_block t = contains ''(^)'' (strip_qualifiers t)"

definition non_object_types :: "string list" where
  "non_object_types = [''BOOL'']"

definition ptr_qualifiers :: "string list" where
  "ptr_qualifiers = [''const'', ''volatile'', ''restrict'']"

definition bare_pointer :: "string \<Rightarrow> string" where
  "bare_pointer qt =
     fold (\<lambda>q bare. if endswith bare q then rstrip (take (length bare - length q) bare) else bare)
       ptr_qualifiers qt"

definition is_object :: "oz_type \<Rightarrow> bool" where
  "is_object t =
     (let qt = strip_qualifiers t in
      if is_block t then False
      else if qt = ''id'' \<or> qt = ''instancetype'' then True
      else let bare = bare_pointer qt in
           if endswith bare ''*'' \<and> is_upper (hd bare)
           then rstrip_ptr bare \<notin> set non_object_types
           else False)"

definition is_unretained :: "oz_type \<Rightarrow> bool" where
  "is_unretained t = contains ''__unsafe_unretained'' (raw_qual_type t)"

definition is_void :: "oz_type \<Rightarrow> bool" where
  "is_void t = (strip_qualifiers t = ''void'')"

lemma block_not_object: "is_block t \<Longrightarrow> \<not> is_object t"
  by (simp add: is_object_def Let_def)

subsection \<open>C spelling\<close>

definition object_c_type :: "string \<Rightarrow> string" where
  "object_c_type qt =
     (let star = (case str_find ''*'' qt of Some i \<Rightarrow> i | None \<Rightarrow> 0);
          name = rstrip (take star qt);
          suffix = strip (drop (star + 1) qt)
      in ''struct '' @ name @ '' *'' @ suffix)"

function (sequential) c_type :: "oz_type \<Rightarrow> string"
  and block_to_fptr :: "string \<Rightarrow> string" where
  "c_type t =
     (let qt = strip_qualifiers t in
      if is_block t then block_to_fptr qt
      else if qt = ''id'' \<or> qt = ''instancetype'' then ''struct OZObject *''
      else if qt = ''id *'' then ''struct OZObject **''
      else if is_object t then object_c_type qt
      else qt)"
| "block_to_fptr qt =
     (case str_find ''(^)'' qt of
        None \<Rightarrow> [] \<comment> \<open>\<open>qt.index\<close> raises; callers pass block types only\<close>
      | Some caret \<Rightarrow>
          let ret_part = strip (take caret qt);
              ret_c = (if ret_part \<noteq> [] then c_type (OZType ret_part) else ''void'');
              rest = strip (drop (caret + 3) qt);
              params_c =
                (if startswith rest ''('' \<and> endswith rest '')''
                 then let param_str = butlast (tl rest) in
                      if strip param_str \<noteq> []
                      then str_join '', ''
                             (map (\<lambda>p. c_type (OZType (strip p))) (str_split (CHR '','') param_str))
                      else ''void''
                 else ''void'')
          in ret_c @ '' (*)('' @ params_c @ '')'')"
  by pat_completeness auto
termination
proof (relation "measure (\<lambda>x. case x of Inl t \<Rightarrow> 2 * length (raw_qual_type t) + 1
                                       | Inr qt \<Rightarrow> 2 * length qt)", goal_cases)
  case (2 t qt)
  then show ?case using length_strip_qualifiers [of t] by simp
next
  case (3 qt caret ret_part)
  then have "caret + 3 \<le> length qt" by (auto dest: str_find_Some)
  moreover have "length ret_part \<le> caret" using 3 length_strip [of "take caret qt"] by simp
  ultimately show ?case by simp
next
  case (4 qt caret ret_part ret_c rest param_str p)
  then have "caret + 3 \<le> length qt" by (auto dest: str_find_Some)
  moreover have "length (strip p) \<le> length param_str"
    using 4(8) by (intro order_trans [OF length_strip] str_split_length) simp
  moreover have "length param_str \<le> length rest" using 4 by simp
  moreover have "length rest \<le> length qt - (caret + 3)"
    using 4 length_strip [of "drop (caret + 3) qt"] by simp
  ultimately show ?case by simp
qed auto

declare c_type.simps [simp del] block_to_fptr.simps [simp del]

text \<open>\<open>re.match(r'^(.*?)(\[.+)$', ct)\<close>.\<close>

definition array_match :: "string \<Rightarrow> (string \<times> string) option" where
  "array_match ct =
     (let g1 = takeWhile (\<lambda>c. c \<noteq> CHR ''['') ct;
          g2 = dropWhile (\<lambda>c. c \<noteq> CHR ''['') ct
      in if nl \<in> set ct \<or> length g2 < 2 then None else Some (g1, g2))"

definition c_param_decl :: "oz_type \<Rightarrow> string \<Rightarrow> string" where
  "c_param_decl t name =
     (let ct = c_type t in
      if is_block t \<and> contains ''(*)'' ct
      then str_replace1 ''(*)'' (''(*'' @ name @ '')'') ct
      else case array_match ct of
             Some (g1, g2) \<Rightarrow> rstrip g1 @ '' '' @ name @ g2
           | None \<Rightarrow> ct @ '' '' @ name)"

subsection \<open>Generic parameters\<close>

text \<open>\<open>re.match(r"[A-Za-z_]\w*\s*<(.+)>\s*\*?$", qt)\<close>, group 1: the text between the first
  \<open><\<close> after the name and the last \<open>>\<close>.\<close>

definition generic_match :: "string \<Rightarrow> string option" where
  "generic_match qt =
     (case qt of
        [] \<Rightarrow> None
      | c # cs \<Rightarrow>
          if \<not> is_ident_start c then None
          else (case dropWhile is_space (dropWhile is_word_char cs) of
                  [] \<Rightarrow> None
                | d # body \<Rightarrow>
                    let suffix = rev (takeWhile (\<lambda>x. x \<noteq> CHR ''>'') (rev body));
                        inner = take (length body - length suffix - 1) body
                    in if d \<noteq> CHR ''<'' \<or> CHR ''>'' \<notin> set body \<or> inner = [] \<or> nl \<in> set inner
                          \<or> lstrip suffix \<notin> {[], ''*''}
                       then None else Some inner))"

text \<open>Splitting on the commas outside nested \<open>< >\<close>; \<open>cur\<close> is \<open>inner[start:i]\<close>.\<close>

fun split_top :: "int \<Rightarrow> string \<Rightarrow> string \<Rightarrow> string list" where
  "split_top depth cur [] = [strip cur]"
| "split_top depth cur (ch # cs) =
     (if ch = CHR ''<'' then split_top (depth + 1) (cur @ [ch]) cs
      else if ch = CHR ''>'' then split_top (depth - 1) (cur @ [ch]) cs
      else if ch = CHR '','' \<and> depth = 0 then strip cur # split_top depth [] cs
      else split_top depth (cur @ [ch]) cs)"

definition generic_params :: "oz_type \<Rightarrow> string list" where
  "generic_params t =
     (let qt = strip (drop_qualifiers (raw_qual_type t)) in
      case generic_match qt of
        None \<Rightarrow> []
      | Some g \<Rightarrow> split_top 0 [] (strip g))"

end
