(* ===== verification/Py_Dict.thy ===== *)
theory Py_Dict
  imports Prelude
begin

text \<open>
  Python dictionaries. A \<open>dict\<close> iterates in insertion order and the code relies on it
  (the first class with a body is the primary class, the first matching method decides
  the dispatch kind), so the model is an association list: \<open>d[k] = v\<close> replaces in place
  or appends. The locale states what a client of a dictionary relies on; the association
  list is its implementation.
\<close>

type_synonym ('k, 'v) dict = "('k \<times> 'v) list"

abbreviation dget :: "('k, 'v) dict \<Rightarrow> 'k \<Rightarrow> 'v option" where
  "dget d k \<equiv> map_of d k"

abbreviation dput :: "'k \<Rightarrow> 'v \<Rightarrow> ('k, 'v) dict \<Rightarrow> ('k, 'v) dict" where
  "dput \<equiv> AList.update"

abbreviation dkeys :: "('k, 'v) dict \<Rightarrow> 'k list" where
  "dkeys d \<equiv> map fst d"

abbreviation dvals :: "('k, 'v) dict \<Rightarrow> 'v list" where
  "dvals d \<equiv> map snd d"

definition dget_or :: "('k, 'v) dict \<Rightarrow> 'k \<Rightarrow> 'v \<Rightarrow> 'v" where
  "dget_or d k v = (case dget d k of None \<Rightarrow> v | Some x \<Rightarrow> x)"

text \<open>\<open>d.update(e)\<close> and \<open>d.pop(k, None)\<close>.\<close>

definition dict_update :: "('k, 'v) dict \<Rightarrow> ('k, 'v) dict \<Rightarrow> ('k, 'v) dict" where
  "dict_update d e = fold (\<lambda>(k, v). dput k v) e d"

definition dict_pop :: "'k \<Rightarrow> ('k, 'v) dict \<Rightarrow> ('k, 'v) dict" where
  "dict_pop k d = filter (\<lambda>(k', v). k' \<noteq> k) d"

text \<open>Mutation of the object stored under a key, and of every stored object.\<close>

definition dict_modify :: "'k \<Rightarrow> ('v \<Rightarrow> 'v) \<Rightarrow> ('k, 'v) dict \<Rightarrow> ('k, 'v) dict" where
  "dict_modify k f d = map (\<lambda>(k', v). (k', if k' = k then f v else v)) d"

definition map_vals :: "('v \<Rightarrow> 'w) \<Rightarrow> ('k, 'v) dict \<Rightarrow> ('k, 'w) dict" where
  "map_vals f d = map (\<lambda>(k, v). (k, f v)) d"

locale py_dict =
  fixes get :: "'d \<Rightarrow> 'k \<Rightarrow> 'v option"
    and put :: "'k \<Rightarrow> 'v \<Rightarrow> 'd \<Rightarrow> 'd"
    and keys :: "'d \<Rightarrow> 'k list"
    and invar :: "'d \<Rightarrow> bool"
  assumes get_put: "get (put k v d) = (get d)(k \<mapsto> v)"
    and dom_get: "dom (get d) = set (keys d)"
    and keys_put: "keys (put k v d) = add_new k (keys d)"
    and distinct_keys: "invar d \<longleftrightarrow> distinct (keys d)"
begin

lemma get_put_same [simp]: "get (put k v d) k = Some v"
  by (simp add: get_put)

lemma get_put_other [simp]: "k' \<noteq> k \<Longrightarrow> get (put k v d) k' = get d k'"
  by (simp add: get_put)

lemma invar_put [simp]: "invar (put k v d) \<longleftrightarrow> invar d"
  by (simp add: distinct_keys keys_put)

lemma keys_put_present: "get d k \<noteq> None \<Longrightarrow> keys (put k v d) = keys d"
  using dom_get [of d] by (auto simp: keys_put add_new_def)

lemma keys_put_fresh: "get d k = None \<Longrightarrow> keys (put k v d) = keys d @ [k]"
  using dom_get [of d] by (auto simp: keys_put add_new_def)

lemma get_put_all:
  "get (fold (\<lambda>(k, v). put k v) kvs d) = get d ++ map_of (rev kvs)"
  by (induction kvs arbitrary: d) (auto simp: get_put map_add_def split: option.splits)

lemma keys_put_all:
  "keys (fold (\<lambda>(k, v). put k v) kvs d) = add_all_new (map fst kvs) (keys d)"
  by (induction kvs arbitrary: d) (auto simp: keys_put add_all_new_Cons)

lemma invar_put_all [simp]: "invar (fold (\<lambda>(k, v). put k v) kvs d) \<longleftrightarrow> invar d"
  by (simp add: distinct_keys keys_put_all)

end

interpretation alist: py_dict map_of AList.update "map fst" "\<lambda>d. distinct (map fst d)"
  by unfold_locales
     (auto simp: update_conv' dom_map_of_conv_image_fst update_keys add_new_def)

lemma dget_dput [simp]: "dget (dput k v d) k' = (if k' = k then Some v else dget d k')"
  by (simp add: alist.get_put)

lemma dkeys_dput [simp]: "dkeys (dput k v d) = add_new k (dkeys d)"
  by (rule alist.keys_put)

lemma dget_or_dput [simp]: "dget_or (dput k v d) k' e = (if k' = k then v else dget_or d k' e)"
  by (simp add: dget_or_def)

lemma dget_or_Nil [simp]: "dget_or [] k e = e"
  by (simp add: dget_or_def)

lemma dget_or_map_vals:
  "dget_or (map_vals f d) k e = (case dget d k of None \<Rightarrow> e | Some v \<Rightarrow> f v)"
  by (induction d) (auto simp: dget_or_def map_vals_def)

lemma dget_dict_update:
  "dget (dict_update d e) k = (case dget (rev e) k of None \<Rightarrow> dget d k | Some v \<Rightarrow> Some v)"
  unfolding dict_update_def by (simp add: alist.get_put_all map_add_def)

lemma dkeys_dict_update [simp]: "dkeys (dict_update d e) = add_all_new (dkeys e) (dkeys d)"
  unfolding dict_update_def by (rule alist.keys_put_all)

lemma dict_update_Nil [simp]: "dict_update d [] = d"
  by (simp add: dict_update_def)

lemma dget_dict_pop [simp]: "dget (dict_pop k d) k' = (if k' = k then None else dget d k')"
  by (induction d) (auto simp: dict_pop_def)

lemma distinct_dict_pop [simp]: "distinct (dkeys d) \<Longrightarrow> distinct (dkeys (dict_pop k d))"
  by (simp add: dict_pop_def distinct_map_filter)

lemma dkeys_dict_modify [simp]: "dkeys (dict_modify k f d) = dkeys d"
  by (induction d) (auto simp: dict_modify_def)

lemma dget_dict_modify [simp]:
  "dget (dict_modify k f d) k' = (if k' = k then map_option f (dget d k) else dget d k')"
  by (induction d) (auto simp: dict_modify_def)

lemma dkeys_map_vals [simp]: "dkeys (map_vals f d) = dkeys d"
  by (induction d) (auto simp: map_vals_def)

lemma dget_map_vals [simp]: "dget (map_vals f d) k = map_option f (dget d k)"
  by (induction d) (auto simp: map_vals_def)

lemma dvals_map_vals [simp]: "dvals (map_vals f d) = map f (dvals d)"
  by (induction d) (auto simp: map_vals_def)

lemma in_dkeys_iff: "k \<in> set (dkeys d) \<longleftrightarrow> dget d k \<noteq> None"
  by (metis map_of_eq_None_iff list.set_map)

lemma dget_Some_vals: "dget d k = Some v \<Longrightarrow> v \<in> set (dvals d)"
  by (metis map_of_SomeD list.set_map snd_conv imageI)

end
