(* ===== verification/Clang_Json.thy ===== *)
theory Clang_Json
  imports Py_Dict Py_String
begin

text \<open>
  The Clang AST as \<open>json.load\<close> returns it. The code reads nodes with
  \<open>node.get(key, default)\<close>; the accessors below are those reads at the type the code
  expects of the value. Clang's dump gives every field the type its schema says, and on
  such dumps the accessors return what the Python expression returns; a value of another
  type reads as the default.
\<close>

datatype json =
    JNull
  | JBool bool
  | JInt int
  | JStr string
  | JArr "json list"
  | JObj "(string \<times> json) list"

fun jget :: "json \<Rightarrow> string \<Rightarrow> json option" where
  "jget (JObj kvs) k = map_of kvs k"
| "jget _ k = None"

text \<open>\<open>node.get(k, d)\<close> for a string, an object, a list; \<open>k in node\<close>.\<close>

definition jstr :: "json \<Rightarrow> string \<Rightarrow> string \<Rightarrow> string" where
  "jstr j k d = (case jget j k of Some (JStr s) \<Rightarrow> s | _ \<Rightarrow> d)"

definition jstr_opt :: "json \<Rightarrow> string \<Rightarrow> string option" where
  "jstr_opt j k = (case jget j k of Some (JStr s) \<Rightarrow> Some s | _ \<Rightarrow> None)"

definition jobj :: "json \<Rightarrow> string \<Rightarrow> json" where
  "jobj j k = (case jget j k of Some (JObj kvs) \<Rightarrow> JObj kvs | _ \<Rightarrow> JObj [])"

definition jarr :: "json \<Rightarrow> string \<Rightarrow> json list" where
  "jarr j k = (case jget j k of Some (JArr xs) \<Rightarrow> xs | _ \<Rightarrow> [])"

definition jhas :: "json \<Rightarrow> string \<Rightarrow> bool" where
  "jhas j k \<longleftrightarrow> jget j k \<noteq> None"

text \<open>Truth value of a JSON value, of \<open>node.get(k)\<close>.\<close>

fun jtrue :: "json \<Rightarrow> bool" where
  "jtrue JNull = False"
| "jtrue (JBool b) = b"
| "jtrue (JInt i) = (i \<noteq> 0)"
| "jtrue (JStr s) = (s \<noteq> [])"
| "jtrue (JArr xs) = (xs \<noteq> [])"
| "jtrue (JObj kvs) = (kvs \<noteq> [])"

definition jflag :: "json \<Rightarrow> string \<Rightarrow> bool" where
  "jflag j k = (case jget j k of None \<Rightarrow> False | Some v \<Rightarrow> jtrue v)"

text \<open>A number or string as an f-string prints it (\<open>line\<close> and \<open>col\<close> are integers).\<close>

definition jshow :: "json \<Rightarrow> string \<Rightarrow> string \<Rightarrow> string" where
  "jshow j k d = (case jget j k of Some (JInt i) \<Rightarrow> str_of_int i | Some (JStr s) \<Rightarrow> s | _ \<Rightarrow> d)"

definition jint_opt :: "json \<Rightarrow> string \<Rightarrow> int option" where
  "jint_opt j k = (case jget j k of Some (JInt i) \<Rightarrow> Some i | _ \<Rightarrow> None)"

definition jshow_opt :: "json \<Rightarrow> string \<Rightarrow> string option" where
  "jshow_opt j k =
     (case jget j k of Some (JInt i) \<Rightarrow> Some (str_of_int i) | Some (JStr s) \<Rightarrow> Some s | _ \<Rightarrow> None)"

text \<open>The same read where the code next tests the value's truth: \<open>[]\<close> when it is false.\<close>

definition jshow_true :: "json \<Rightarrow> string \<Rightarrow> string" where
  "jshow_true j k = (if jflag j k then jshow j k [] else [])"

abbreviation jkind :: "json \<Rightarrow> string" where
  "jkind j \<equiv> jstr j ''kind'' []"

abbreviation jname :: "json \<Rightarrow> string" where
  "jname j \<equiv> jstr j ''name'' []"

abbreviation jinner :: "json \<Rightarrow> json list" where
  "jinner j \<equiv> jarr j ''inner''"

text \<open>\<open>node.get("type", {}).get("qualType", d)\<close>.\<close>

definition qual_type :: "json \<Rightarrow> string \<Rightarrow> string" where
  "qual_type j d = jstr (jobj j ''type'') ''qualType'' d"

lemmas jget_defs = jstr_def jstr_opt_def jobj_def jarr_def jhas_def jflag_def jshow_def
  jshow_opt_def jshow_true_def jint_opt_def qual_type_def

subsection \<open>Children are smaller\<close>

lemma size_map_of_json: "map_of kvs k = Some v \<Longrightarrow> size v < size (JObj kvs)"
proof (induction kvs)
  case Nil
  then show ?case by simp
next
  case (Cons kv kvs)
  show ?case
  proof (cases "fst kv = k")
    case True
    with Cons.prems show ?thesis by (cases kv) simp
  next
    case False
    with Cons show ?thesis by (cases kv) simp
  qed
qed

lemma size_jget: "jget j k = Some v \<Longrightarrow> size v < size j"
  using size_map_of_json by (cases j) auto

lemma size_jarr: "x \<in> set (jarr j k) \<Longrightarrow> size x < size j"
proof -
  assume x: "x \<in> set (jarr j k)"
  then obtain xs where j: "jget j k = Some (JArr xs)" and "x \<in> set xs"
    by (cases "jget j k") (auto simp: jarr_def split: json.splits)
  then have "size x \<le> size_list size xs" by (simp add: size_list_estimation')
  also have "\<dots> < size (JArr xs)" by simp
  also have "\<dots> < size j" using j by (rule size_jget)
  finally show ?thesis .
qed

lemma size_jinner [termination_simp]: "x \<in> set (jinner j) \<Longrightarrow> size x < size j"
  by (rule size_jarr)

lemma size_jinner_Cons [termination_simp]:
  "jinner j = x # xs \<Longrightarrow> size x < size j"
  by (rule size_jinner) simp

lemma size_jinner_hd [termination_simp]: "jinner j \<noteq> [] \<Longrightarrow> size (hd (jinner j)) < size j"
  by (rule size_jinner) simp

subsection \<open>Loops over children that may return\<close>

text \<open>\<open>for child in xs: ... return r ...\<close>: the first \<open>Some r\<close> ends the loop.\<close>

fun first_return :: "('a \<Rightarrow> 'b option) \<Rightarrow> 'a list \<Rightarrow> 'b option" where
  "first_return f [] = None"
| "first_return f (x # xs) = (case f x of Some r \<Rightarrow> Some r | None \<Rightarrow> first_return f xs)"

lemma first_return_cong [fundef_cong]:
  "xs = ys \<Longrightarrow> (\<And>x. x \<in> set ys \<Longrightarrow> f x = g x) \<Longrightarrow> first_return f xs = first_return g ys"
  by (induction xs arbitrary: ys) (auto split: option.splits)

lemma first_return_None_iff: "first_return f xs = None \<longleftrightarrow> (\<forall>x \<in> set xs. f x = None)"
  by (induction xs) (auto split: option.splits)

lemma first_return_Some: "first_return f xs = Some r \<Longrightarrow> \<exists>x \<in> set xs. f x = Some r"
  by (induction xs) (auto split: option.splits)

subsection \<open>The nodes of a tree\<close>

text \<open>A node and everything below it through \<open>inner\<close>, in the order of the code's walks.\<close>

fun nodes :: "json \<Rightarrow> json list" where
  "nodes j = j # concat (map nodes (jinner j))"

declare nodes.simps [simp del]

lemma nodes_unfold [walk_simps]: "nodes j = j # concat (map nodes (jinner j))"
  by (rule nodes.simps)

lemma self_in_nodes [simp]: "j \<in> set (nodes j)"
  by (subst nodes.simps) simp

lemma set_nodes: "set (nodes j) = insert j (\<Union>c \<in> set (jinner j). set (nodes c))"
  by (subst nodes.simps) simp

lemma nodes_trans: "x \<in> set (nodes y) \<Longrightarrow> y \<in> set (nodes z) \<Longrightarrow> x \<in> set (nodes z)"
proof (induction z rule: nodes.induct)
  case (1 z)
  show ?case
  proof (cases "y = z")
    case True
    with "1.prems" show ?thesis by simp
  next
    case False
    with "1.prems"(2) obtain c where c: "c \<in> set (jinner z)" "y \<in> set (nodes c)"
      by (auto simp: set_nodes [of z])
    with "1.IH" "1.prems"(1) have "x \<in> set (nodes c)" by blast
    with c(1) show ?thesis by (auto simp: set_nodes [of z])
  qed
qed

lemma size_nodes: "x \<in> set (nodes j) \<Longrightarrow> size x \<le> size j"
proof (induction j rule: nodes.induct)
  case (1 j)
  then show ?case using size_jinner by (fastforce simp: set_nodes [of j])
qed

text \<open>
  A walk that asks a question of every node and stops at the first yes is a search over
  \<open>nodes\<close>; a walk that adds something at every node is a fold over \<open>nodes\<close>.
\<close>

lemma ex_walk_nodes:
  assumes "\<And>j. f j \<longleftrightarrow> P j \<or> (\<exists>c \<in> set (jinner j). f c)"
  shows "f j \<longleftrightarrow> (\<exists>n \<in> set (nodes j). P n)"
proof (induction j rule: nodes.induct)
  case (1 j)
  then show ?case by (subst assms) (auto simp: set_nodes [of j])
qed

lemma sum_walk_nodes:
  fixes f :: "json \<Rightarrow> nat"
  assumes "\<And>j. f j = w j + sum_list (map f (jinner j))"
  shows "f j = sum_list (map w (nodes j))"
proof (induction j rule: nodes.induct)
  case (1 j)
  have "sum_list (map f cs) = sum_list (map w (concat (map nodes cs)))"
    if "set cs \<subseteq> set (jinner j)" for cs
    using that 1 by (induction cs) auto
  from this [of "jinner j"] show ?case
    by (subst assms, subst nodes.simps) simp
qed

lemma fold_walk_nodes:
  assumes "\<And>j s. f j s = fold f (jinner j) (g j s)"
  shows "f j s = fold g (nodes j) s"
proof (induction j arbitrary: s rule: nodes.induct)
  case (1 j)
  have "fold f cs u = fold g (concat (map nodes cs)) u"
    if "set cs \<subseteq> set (jinner j)" for cs u
    using that 1 by (induction cs arbitrary: u) auto
  then show ?case by (subst assms, subst nodes.simps) simp
qed

end
