(* ===== verification/Model.thy ===== *)
theory Model
  imports Oz_Type Clang_Json
begin

text \<open>
  The data model of \<open>tools/oz_transpile/model.py\<close>: each dataclass is a record with the
  fields and defaults of the source (field names carry a two-letter prefix, as record
  fields are global names here). Bodies are the JSON subtrees Clang dumped. A path of the
  file system is its text.

  One reference needs care: a synthesized accessor method keeps the \<^emph>\<open>object\<close> of its
  property and shares the property's \<open>OZType\<close> object. \<open>me_synth\<close> is that reference: the
  position of the property in its class.
\<close>

datatype dispatch_kind = STATIC | PROTOCOL

instantiation dispatch_kind :: linorder
begin

definition less_eq_dispatch_kind :: "dispatch_kind \<Rightarrow> dispatch_kind \<Rightarrow> bool" where
  "less_eq_dispatch_kind a b \<longleftrightarrow> a = STATIC \<or> b = PROTOCOL"

definition less_dispatch_kind :: "dispatch_kind \<Rightarrow> dispatch_kind \<Rightarrow> bool" where
  "less_dispatch_kind a b \<longleftrightarrow> a = STATIC \<and> b = PROTOCOL"

instance
proof
  fix x y z :: dispatch_kind
  show "(x < y) = (x \<le> y \<and> \<not> y \<le> x)"
    by (cases x; cases y) (auto simp: less_eq_dispatch_kind_def less_dispatch_kind_def)
  show "x \<le> x" by (cases x) (auto simp: less_eq_dispatch_kind_def)
  show "x \<le> z" if "x \<le> y" "y \<le> z"
    using that by (cases x; cases y) (auto simp: less_eq_dispatch_kind_def)
  show "x = y" if "x \<le> y" "y \<le> x"
    using that by (cases x; cases y) (auto simp: less_eq_dispatch_kind_def)
  show "x \<le> y \<or> y \<le> x"
    by (cases x; cases y) (auto simp: less_eq_dispatch_kind_def)
qed

end

record inline_accessor =
  ac_class_name :: string
  ac_selector :: string
  ac_return_c_type :: string
  ac_params :: "(string \<times> string) list"
  ac_body_lines :: "string list"
  ac_func_suffix :: string

record oz_param =
  pa_name :: string
  pa_type :: oz_type

record oz_property =
  pr_name :: string
  pr_type :: oz_type
  pr_ivar_name :: "string option"
  pr_is_readonly :: bool
  pr_is_nonatomic :: bool
  pr_ownership :: string
  pr_getter_sel :: "string option"
  pr_setter_sel :: "string option"

record oz_ivar =
  iv_name :: string
  iv_type :: oz_type
  iv_access :: string

record oz_method =
  me_selector :: string
  me_return_type :: oz_type
  me_params :: "oz_param list"
  me_is_class_method :: bool
  me_body_ast :: "json option"
  me_dispatch :: dispatch_kind
  me_synth :: "nat option"

record oz_protocol =
  pc_name :: string
  pc_methods :: "oz_method list"

record oz_function =
  fn_name :: string
  fn_return_type :: oz_type
  fn_params :: "oz_param list"
  fn_body_ast :: "json option"
  fn_has_objc :: bool
  fn_is_static :: bool

record oz_static_var =
  sv_name :: string
  sv_type :: oz_type
  sv_init_value :: "string option"

record oz_class =
  cl_name :: string
  cl_superclass :: "string option"
  cl_ivars :: "oz_ivar list"
  cl_methods :: "oz_method list"
  cl_protocols :: "string list"
  cl_properties :: "oz_property list"
  cl_class_id :: int
  cl_base_depth :: nat
  cl_verbatim_lines :: "string list"
  cl_header_verbatim_lines :: "string list"
  cl_user_includes :: "string list"
  cl_functions :: "oz_function list"
  cl_statics :: "oz_static_var list"
  cl_source_stem :: string
  cl_is_foundation :: bool

record orphan_source =
  os_stem :: string
  os_functions :: "oz_function list"
  os_statics :: "oz_static_var list"
  os_verbatim_lines :: "string list"
  os_user_includes :: "string list"
  os_source_path :: "string option"

record oz_module =
  mo_classes :: "(string, oz_class) dict"
  mo_protocols :: "(string, oz_protocol) dict"
  mo_functions :: "oz_function list"
  mo_statics :: "oz_static_var list"
  mo_verbatim_lines :: "string list"
  mo_header_verbatim_lines :: "string list"
  mo_user_includes :: "string list"
  mo_type_defs :: "(string, string) dict"
  mo_diagnostics :: "string list"
  mo_errors :: "string list"
  mo_initialize_classes :: "string list"
  mo_generic_types :: "(string, string) dict"
  mo_source_stem :: string
  mo_source_path :: "string option"
  mo_source_paths :: "(string, string) dict"
  mo_orphan_sources :: "orphan_source list"
  mo_main_impl_classes :: "string list"

subsection \<open>Constructors with the defaults of the dataclasses\<close>

definition OZClass :: "string \<Rightarrow> string option \<Rightarrow> oz_class" where
  "OZClass name superclass =
     \<lparr>cl_name = name, cl_superclass = superclass, cl_ivars = [], cl_methods = [],
      cl_protocols = [], cl_properties = [], cl_class_id = -1, cl_base_depth = 0,
      cl_verbatim_lines = [], cl_header_verbatim_lines = [], cl_user_includes = [],
      cl_functions = [], cl_statics = [], cl_source_stem = [], cl_is_foundation = False\<rparr>"

definition OZMethod :: "string \<Rightarrow> oz_type \<Rightarrow> oz_method" where
  "OZMethod sel ret =
     \<lparr>me_selector = sel, me_return_type = ret, me_params = [], me_is_class_method = False,
      me_body_ast = None, me_dispatch = STATIC, me_synth = None\<rparr>"

definition OZModule :: oz_module where
  "OZModule =
     \<lparr>mo_classes = [], mo_protocols = [], mo_functions = [], mo_statics = [],
      mo_verbatim_lines = [], mo_header_verbatim_lines = [], mo_user_includes = [],
      mo_type_defs = [], mo_diagnostics = [], mo_errors = [], mo_initialize_classes = [],
      mo_generic_types = [], mo_source_stem = [], mo_source_path = None,
      mo_source_paths = [], mo_orphan_sources = [], mo_main_impl_classes = []\<rparr>"

text \<open>Truth of \<open>m.body_ast\<close>, \<open>cls.superclass\<close>; a message appended to a log.\<close>

definition body_truthy :: "json option \<Rightarrow> bool" where
  "body_truthy b = (case b of None \<Rightarrow> False | Some j \<Rightarrow> jtrue j)"

definition str_truthy :: "string option \<Rightarrow> bool" where
  "str_truthy s \<longleftrightarrow> s \<noteq> None \<and> s \<noteq> Some []"

definition add_error :: "string \<Rightarrow> oz_module \<Rightarrow> oz_module" where
  "add_error msg m = m\<lparr>mo_errors := mo_errors m @ [msg]\<rparr>"

definition add_diag :: "string \<Rightarrow> oz_module \<Rightarrow> oz_module" where
  "add_diag msg m = m\<lparr>mo_diagnostics := mo_diagnostics m @ [msg]\<rparr>"

abbreviation cls_of :: "oz_module \<Rightarrow> string \<Rightarrow> oz_class option" where
  "cls_of m n \<equiv> dget (mo_classes m) n"

abbreviation modify_class :: "string \<Rightarrow> (oz_class \<Rightarrow> oz_class) \<Rightarrow> oz_module \<Rightarrow> oz_module" where
  "modify_class n f m \<equiv> m\<lparr>mo_classes := dict_modify n f (mo_classes m)\<rparr>"

text \<open>
  \<open>cls.superclass and cls.superclass in module.classes\<close>: the superclass a walk up the
  hierarchy goes to next, if any.
\<close>

definition super_in :: "oz_module \<Rightarrow> oz_class \<Rightarrow> string option" where
  "super_in m c =
     (case cl_superclass c of
        None \<Rightarrow> None
      | Some s \<Rightarrow> if s \<noteq> [] \<and> cls_of m s \<noteq> None then Some s else None)"

lemma super_in_known: "super_in m c = Some s \<Longrightarrow> s \<in> set (dkeys (mo_classes m))"
  by (auto simp: super_in_def split: option.splits if_splits dest: map_of_Some_fst)

text \<open>
  The invariant of a module's tables: keys are unique, and every class is stored under
  its own name.
\<close>

definition module_ok :: "oz_module \<Rightarrow> bool" where
  "module_ok m \<longleftrightarrow>
     distinct (dkeys (mo_classes m)) \<and> distinct (dkeys (mo_protocols m)) \<and>
     (\<forall>(k, c) \<in> set (mo_classes m). cl_name c = k)"

lemma module_ok_name: "module_ok m \<Longrightarrow> cls_of m n = Some c \<Longrightarrow> cl_name c = n"
  by (auto simp: module_ok_def dest: map_of_SomeD)

lemma module_ok_OZModule [simp]: "module_ok OZModule"
  by (simp add: module_ok_def OZModule_def)

subsection \<open>The table of inline accessors\<close>

definition INLINE_ACCESSORS :: "inline_accessor list" where
  "INLINE_ACCESSORS =
     [\<lparr>ac_class_name = ''OZArray'', ac_selector = ''objectAtIndex:'',
       ac_return_c_type = ''struct OZObject *'',
       ac_params = [(''unsigned int'', ''index'')],
       ac_body_lines =
         [''if (index >= self->_count) {'', tab # ''return (struct OZObject *)0;'', ''}'',
          ''return self->_items[index];''],
       ac_func_suffix = ''fast_''\<rparr>,
      \<lparr>ac_class_name = ''OZArray'', ac_selector = ''count'',
       ac_return_c_type = ''unsigned int'', ac_params = [],
       ac_body_lines = [''return self->_count;''], ac_func_suffix = ''fast_''\<rparr>,
      \<lparr>ac_class_name = ''OZString'', ac_selector = ''cString'',
       ac_return_c_type = ''const char *'', ac_params = [],
       ac_body_lines = [''return self->_data;''], ac_func_suffix = ''fast_''\<rparr>,
      \<lparr>ac_class_name = ''OZString'', ac_selector = ''length'',
       ac_return_c_type = ''unsigned int'', ac_params = [],
       ac_body_lines = [''return self->_length;''], ac_func_suffix = ''fast_''\<rparr>,
      \<lparr>ac_class_name = ''OZDictionary'', ac_selector = ''count'',
       ac_return_c_type = ''unsigned int'', ac_params = [],
       ac_body_lines = [''return self->_count;''], ac_func_suffix = ''fast_''\<rparr>]"

text \<open>\<open>INLINE_ACCESSORS.get((class_name, selector))\<close>: the keys are the two fields.\<close>

definition inline_accessor_for :: "string \<Rightarrow> string \<Rightarrow> inline_accessor option" where
  "inline_accessor_for cls sel =
     find (\<lambda>a. ac_class_name a = cls \<and> ac_selector a = sel) INLINE_ACCESSORS"

end
