(* ===== verification/World.thy ===== *)
theory World
  imports Py_String
begin

text \<open>
  What the program gets from outside the repository: the file system and tree-sitter.
  A concrete syntax tree is data the code walks, so its nodes are a datatype: node type,
  byte range, start point (row, column), field name in the parent, text, children. The
  parser, its query engine and the files are functions the definitions take as an
  argument (\<open>world\<close>).
\<close>

datatype ts_node =
  TsNode (ts_type: string) (ts_start_byte: nat) (ts_end_byte: nat) (ts_start_point: "nat \<times> nat")
    (ts_field: string) (ts_text: string) (ts_children: "ts_node list")

record world =
  w_cwd :: string
  w_is_file :: "string \<Rightarrow> bool"
  w_read :: "string \<Rightarrow> string"
  w_ts_parse :: "string \<Rightarrow> ts_node"
  w_captures :: "string \<Rightarrow> ts_node \<Rightarrow> ts_node list"

lemma size_ts_child [termination_simp]:
  "c \<in> set (ts_children n) \<Longrightarrow> size c < size n"
  by (cases n) (auto dest: size_list_estimation' [where f = size, OF _ order.refl])

text \<open>\<open>source[node.start_byte:node.end_byte].decode()\<close>.\<close>

definition slice :: "string \<Rightarrow> nat \<Rightarrow> nat \<Rightarrow> string" where
  "slice s i j = take (j - i) (drop i s)"

definition node_src :: "string \<Rightarrow> ts_node \<Rightarrow> string" where
  "node_src source n = slice source (ts_start_byte n) (ts_end_byte n)"

text \<open>The text of the first child of a type, \<open>None\<close> without one.\<close>

definition child_text :: "string \<Rightarrow> ts_node \<Rightarrow> string option" where
  "child_text ty n = map_option ts_text (find (\<lambda>c. ts_type c = ty) (ts_children n))"

subsection \<open>Paths\<close>

text \<open>\<open>os.path.basename\<close> / \<open>Path.name\<close>, \<open>splitext\<close> / \<open>Path.stem\<close>, \<open>Path.parent\<close>.\<close>

definition path_name :: "string \<Rightarrow> string" where
  "path_name p = rev (takeWhile (\<lambda>c. c \<noteq> CHR ''/'') (rev p))"

definition path_parent :: "string \<Rightarrow> string" where
  "path_parent p =
     (let d = rev (dropWhile (\<lambda>c. c \<noteq> CHR ''/'') (rev p)) in
      if d = [] then ''.'' else if length d = 1 then d else butlast d)"

text \<open>
  \<open>splitext\<close>: the suffix from the last dot, unless only dots stand before it in the
  last component.
\<close>

definition split_ext :: "string \<Rightarrow> string \<times> string" where
  "split_ext base =
     (let ext = rev (takeWhile (\<lambda>c. c \<noteq> CHR ''.'') (rev base));
          stem = take (length base - length ext - 1) base
      in if CHR ''.'' \<notin> set base \<or> set stem \<subseteq> {CHR ''.''} then (base, [])
         else (stem, CHR ''.'' # ext))"

definition path_join :: "string \<Rightarrow> string \<Rightarrow> string" where
  "path_join d p = (if startswith p ''/'' then p else if d = [] \<or> endswith d ''/'' then d @ p else d @ ''/'' @ p)"

text \<open>\<open>os.path.normpath\<close> and \<open>os.path.abspath\<close>.\<close>

definition norm_component :: "bool \<Rightarrow> string \<Rightarrow> string list \<Rightarrow> string list" where
  "norm_component rooted part acc =
     (if part = [] \<or> part = ''.'' then acc
      else if part \<noteq> ''..'' \<or> (\<not> rooted \<and> acc = []) \<or> (acc \<noteq> [] \<and> last acc = ''..'')
      then acc @ [part]
      else butlast acc)"

definition norm_path :: "string \<Rightarrow> string" where
  "norm_path p =
     (let slashes = (if startswith p ''//'' \<and> \<not> startswith p ''///'' then ''//''
                     else if startswith p ''/'' then ''/'' else []);
          body = slashes @ str_join ''/'' (fold (norm_component (slashes \<noteq> [])) (str_split CHR ''/'' p) [])
      in if body = [] then ''.'' else body)"

definition abs_path :: "world \<Rightarrow> string \<Rightarrow> string" where
  "abs_path w p = norm_path (path_join (w_cwd w) p)"

definition dir_name :: "string \<Rightarrow> string" where
  "dir_name p =
     (let head = rev (dropWhile (\<lambda>c. c \<noteq> CHR ''/'') (rev p)) in
      if set head \<subseteq> {CHR ''/''} then head else rstrip_of (\<lambda>c. c = CHR ''/'') head)"

lemma path_name_no_slash: "CHR ''/'' \<notin> set (path_name p)"
  by (auto simp: path_name_def dest: set_takeWhileD)

end
