(* ===== verification/Collect.thy ===== *)
theory Collect
  imports Model World
begin

text \<open>
  Pass 1, \<open>tools/oz_transpile/collect.py\<close>: the walk over the Clang AST that fills a module
  (interfaces, implementations, protocols, categories, functions, statics, type
  definitions) and the scan for unsupported features. One definition per function of the
  source; \<open>module\<close> is passed and returned. Functions whose Python names start with an
  underscore drop it.
\<close>

subsection \<open>Constants\<close>

definition SKIP_CLASSES :: "string list" where
  "SKIP_CLASSES = [''Protocol'']"

definition UNSUPPORTED_METHOD_SELECTORS :: "string list" where
  "UNSUPPORTED_METHOD_SELECTORS =
     [''forwardInvocation:'', ''addObserver:forKeyPath:options:context:'',
      ''removeObserver:forKeyPath:'', ''removeObserver:forKeyPath:context:'',
      ''observeValueForKeyPath:ofObject:change:context:'', ''willChangeValueForKey:'',
      ''didChangeValueForKey:'']"

definition UNSUPPORTED_AST_KINDS :: "string list" where
  "UNSUPPORTED_AST_KINDS = [''ObjCAtTryStmt'']"

definition OBJC_AST_KINDS :: "string list" where
  "OBJC_AST_KINDS =
     [''ObjCMessageExpr'', ''ObjCIvarRefExpr'', ''ObjCSelectorExpr'', ''ObjCProtocolExpr'',
      ''ObjCBoolLiteralExpr'', ''ObjCStringLiteral'', ''ObjCBoxedExpr'', ''ObjCArrayLiteral'',
      ''ObjCDictionaryLiteral'', ''BlockExpr'', ''PseudoObjectExpr'']"

definition SYSTEM_PATH_SEGMENTS :: "string list" where
  "SYSTEM_PATH_SEGMENTS =
     [''/zephyr/'', ''/sdk/'', ''/clang/'', ''/picolibc/'', ''/cmsis/'', ''/CMSIS/'',
      ''/sys-include/'', ''/SDKs/'', ''/usr/include/'', ''zephyr-sdk'']"

subsection \<open>Questions about a node\<close>

fun has_objc_nodes :: "json \<Rightarrow> bool" where
  "has_objc_nodes node =
     (if jkind node \<in> set OBJC_AST_KINDS then True
      else list_ex has_objc_nodes (jinner node))"

declare has_objc_nodes.simps [simp del]

definition is_from_main_file :: "json \<Rightarrow> bool" where
  "is_from_main_file node =
     (let loc = jobj node ''loc'' in
      if jhas loc ''includedFrom'' then False
      else if jhas loc ''expansionLoc'' then \<not> jhas (jobj loc ''expansionLoc'') ''includedFrom''
      else True)"

definition is_macro_expanded :: "json \<Rightarrow> bool" where
  "is_macro_expanded node =
     (jstr (jobj (jobj node ''loc'') ''spellingLoc'') ''file'' [] = ''<scratch space>'')"

definition is_stub_source :: "string \<Rightarrow> bool" where
  "is_stub_source path = (contains ''oz_transpile'' path \<or> contains ''/oz_sdk/'' path)"

text \<open>\<open>loc.get("file", "") or last_file\<close>, then the \<open>includedFrom\<close> path.\<close>

definition node_file :: "json \<Rightarrow> string \<Rightarrow> string" where
  "node_file node last_file =
     (let loc = jobj node ''loc''; f = jstr loc ''file'' [] in
      if f \<noteq> [] then f
      else if last_file \<noteq> [] then last_file
      else jstr (jobj loc ''includedFrom'') ''file'' [])"

definition user_path :: "string \<Rightarrow> bool" where
  "user_path file_path =
     (if file_path = [] then False
      else if list_ex (\<lambda>p. contains p file_path) SYSTEM_PATH_SEGMENTS then False
      else \<not> is_stub_source file_path)"

definition is_user_struct :: "json \<Rightarrow> string \<Rightarrow> bool" where
  "is_user_struct node last_file =
     (if \<not> jflag node ''completeDefinition'' then False
      else if jname node = [] then False
      else user_path (node_file node last_file))"

definition is_user_enum :: "json \<Rightarrow> string \<Rightarrow> bool" where
  "is_user_enum node last_file =
     (if jname node = [] then False
      else if jinner node = [] then False
      else user_path (node_file node last_file))"

definition is_oz_transpile_type :: "json \<Rightarrow> string \<Rightarrow> bool" where
  "is_oz_transpile_type node last_file =
     (if jname node = [] then False
      else let loc = jobj node ''loc'';
               f = jstr loc ''file'' [];
               file_path = (if f \<noteq> [] then f else last_file);
               included_from = jstr (jobj loc ''includedFrom'') ''file'' []
           in is_stub_source file_path \<or> is_stub_source included_from)"

subsection \<open>Type definitions\<close>

definition enum_const_line :: "nat \<Rightarrow> json \<Rightarrow> string list" where
  "enum_const_line i child =
     (if jkind child = ''EnumConstantDecl''
      then let cname = jname child;
               val = (case jinner child of
                        [] \<Rightarrow> None
                      | c # _ \<Rightarrow> if jkind c \<in> {''IntegerLiteral'', ''ConstantExpr''}
                                 then jshow_opt c ''value'' else None)
           in case val of
                Some v \<Rightarrow> [tab # cname @ '' = '' @ v @ '','']
              | None \<Rightarrow> if i = 0 then [tab # cname @ '' = 0,''] else [tab # cname @ '','']
      else [])"

definition collect_enum_def :: "json \<Rightarrow> oz_module \<Rightarrow> oz_module" where
  "collect_enum_def node m =
     (let name = jname node;
          consts = concat (map (\<lambda>(i, child). enum_const_line i child) (enumerate 0 (jinner node)));
          def = ''enum '' @ name @ '' {'' @ [nl] @ str_join [nl] consts @ [nl] @ ''};''
      in if consts = [] then m
         else m\<lparr>mo_type_defs := dput (''enum '' @ name) def (mo_type_defs m)\<rparr>)"

definition field_lines :: "json \<Rightarrow> string list" where
  "field_lines node =
     map (\<lambda>child. tab # qual_type child [] @ '' '' @ jname child @ '';'')
       (filter (\<lambda>child. jkind child = ''FieldDecl'') (jinner node))"

definition record_def_text :: "string \<Rightarrow> string \<Rightarrow> string list \<Rightarrow> string" where
  "record_def_text tag name flds =
     tag @ '' '' @ name @ '' {'' @ [nl] @ str_join [nl] flds @ [nl] @ ''};''"

definition collect_union_def :: "json \<Rightarrow> oz_module \<Rightarrow> oz_module" where
  "collect_union_def node m =
     (let name = jname node; tag = jstr node ''tagUsed'' ''union''; flds = field_lines node in
      if flds = [] then m
      else m\<lparr>mo_type_defs :=
               dput (tag @ '' '' @ name) (record_def_text tag name flds) (mo_type_defs m)\<rparr>)"

definition collect_struct_def :: "json \<Rightarrow> oz_module \<Rightarrow> oz_module" where
  "collect_struct_def node m =
     (let name = jname node; tag = jstr node ''tagUsed'' ''struct''; flds = field_lines node;
          key = tag @ '' '' @ name in
      if flds = [] then m
      else if dget (mo_type_defs m) key = None
      then m\<lparr>mo_type_defs := dput key (record_def_text tag name flds) (mo_type_defs m)\<rparr>
      else m)"

subsection \<open>Properties\<close>

definition collect_property :: "json \<Rightarrow> oz_module \<Rightarrow> oz_property option \<times> oz_module" where
  "collect_property node m =
     (let name = jname node in
      if jflag node ''weak''
      then (None, add_error (quoted ''weak'' @ '' property '' @ quoted name @
              '' is not supported; use '' @ quoted ''unsafe_unretained'' @ '' instead'') m)
      else
        (Some \<lparr>pr_name = name, pr_type = OZType (qual_type node []), pr_ivar_name = None,
               pr_is_readonly = jflag node ''readonly'',
               pr_is_nonatomic = jflag node ''nonatomic'',
               pr_ownership =
                 (if jflag node ''unsafe_unretained'' then ''unsafe_unretained''
                  else if jflag node ''assign'' \<and> \<not> jflag node ''strong'' then ''assign''
                  else ''strong''),
               pr_getter_sel = jstr_opt (jobj node ''getter'') ''name'',
               pr_setter_sel = jstr_opt (jobj node ''setter'') ''name''\<rparr>, m))"

fun set_first_property :: "string \<Rightarrow> string \<Rightarrow> oz_property list \<Rightarrow> oz_property list" where
  "set_first_property n iv [] = []"
| "set_first_property n iv (p # ps) =
     (if pr_name p = n
      then (if iv \<noteq> [] then p\<lparr>pr_ivar_name := Some iv\<rparr> else p) # ps
      else p # set_first_property n iv ps)"

definition link_property_impl :: "json \<Rightarrow> oz_class \<Rightarrow> oz_class" where
  "link_property_impl node cls =
     (let prop_name = jname (jobj node ''propertyDecl'');
          ivar_name = jname (jobj node ''ivarDecl'') in
      if prop_name = [] then cls
      else cls\<lparr>cl_properties := set_first_property prop_name ivar_name (cl_properties cls)\<rparr>)"

subsection \<open>Methods, functions, statics\<close>

definition collect_param :: "json \<Rightarrow> oz_param" where
  "collect_param child = \<lparr>pa_name = jname child, pa_type = OZType (qual_type child [])\<rparr>"

text \<open>The parameters and the last body among the children of a declaration.\<close>

definition collect_params :: "json \<Rightarrow> oz_param list" where
  "collect_params node =
     map collect_param (filter (\<lambda>c. jkind c = ''ParmVarDecl'') (jinner node))"

definition collect_body :: "json \<Rightarrow> json option" where
  "collect_body node =
     fold (\<lambda>child body. if jkind child = ''CompoundStmt'' then Some child else body)
       (jinner node) None"

definition collect_method :: "json \<Rightarrow> oz_method option" where
  "collect_method node =
     (let selector = jname node in
      if selector = [] then None
      else Some \<lparr>me_selector = selector,
                 me_return_type = OZType (jstr (jobj node ''returnType'') ''qualType'' ''void''),
                 me_params = collect_params node,
                 me_is_class_method = (jget node ''instance'' = Some (JBool False)),
                 me_body_ast = collect_body node,
                 me_dispatch = STATIC, me_synth = None\<rparr>)"

definition has_blocks_attr :: "json \<Rightarrow> bool" where
  "has_blocks_attr node = list_ex (\<lambda>c. jkind c = ''BlocksAttr'') (jinner node)"

definition has_initializer :: "json \<Rightarrow> bool" where
  "has_initializer node =
     list_ex (\<lambda>c. endswith (jkind c) ''Expr'' \<or> jkind c = ''InitListExpr'') (jinner node)"

text \<open>\<open>None\<close> is the Python \<open>None\<close>; the loop returns at the first child that decides.\<close>

fun extract_init_value :: "json \<Rightarrow> string option" where
  "extract_init_value node =
     (case first_return (\<lambda>child.
             let kind = jkind child in
             if kind = ''IntegerLiteral'' \<or> kind = ''FloatingLiteral''
             then Some (jshow_opt child ''value'')
             else if kind = ''ImplicitCastExpr''
             then (if jstr child ''castKind'' [] = ''NullToPointer'' then Some (Some ''NULL'')
                   else Some (extract_init_value child))
             else if kind = ''UnaryOperator'' \<and> jstr child ''opcode'' [] = ''-''
             then (case extract_init_value child of
                     Some v \<Rightarrow> Some (Some (''-'' @ v)) | None \<Rightarrow> None)
             else if kind = ''ParenExpr'' then Some (extract_init_value child)
             else if kind = ''GNUNullExpr'' then Some (Some ''NULL'')
             else if kind = ''CStyleCastExpr''
             then (if jstr child ''castKind'' [] = ''NullToPointer'' then Some (Some ''NULL'')
                   else Some (extract_init_value child))
             else None) (jinner node) of
        Some r \<Rightarrow> r
      | None \<Rightarrow> None)"

declare extract_init_value.simps [simp del]

definition collect_static_var :: "json \<Rightarrow> oz_module \<Rightarrow> oz_module" where
  "collect_static_var node m =
     (let name = jname node; qt = qual_type node [] in
      if name = [] then m
      else if qt = [] then m
      else let oz_type = OZType qt; init_value = extract_init_value node in
        if init_value = None \<and> has_initializer node
        then (if is_object oz_type
              then add_diag (''warning: static variable '' @ quoted name @ '' with ObjC type '' @
                     quoted qt @ '' has unsupported initializer; '' @
                     ''declare without initializer and assign in +initialize'') m
              else m)
        else m\<lparr>mo_statics := mo_statics m @
                 [\<lparr>sv_name = name, sv_type = oz_type, sv_init_value = init_value\<rparr>]\<rparr>)"

definition block_var :: "json \<Rightarrow> oz_module \<Rightarrow> oz_module" where
  "block_var node m =
     (if jkind node = ''VarDecl'' \<and> has_blocks_attr node
      then let name = jname node; qt = qual_type node [] in
           if name \<noteq> [] \<and> qt \<noteq> []
           then m\<lparr>mo_statics := mo_statics m @
                   [\<lparr>sv_name = name, sv_type = OZType qt,
                     sv_init_value = extract_init_value node\<rparr>]\<rparr>
           else m
      else m)"

fun collect_block_vars :: "json \<Rightarrow> oz_module \<Rightarrow> oz_module" where
  "collect_block_vars node m = fold collect_block_vars (jinner node) (block_var node m)"

declare collect_block_vars.simps [simp del]

definition collect_function :: "json \<Rightarrow> oz_module \<Rightarrow> oz_module" where
  "collect_function node m =
     (let name = jname node in
      if name = [] then m
      else if jstr node ''storageClass'' [] = ''static'' \<and> jflag node ''inline'' then m
      else case collect_body node of
        None \<Rightarrow> m
      | Some body \<Rightarrow>
          let params = collect_params node;
              m1 = collect_block_vars body m;
              ret_type = OZType (strip (hd (str_split (CHR ''('') (qual_type node ''int ()''))));
              has_objc = (has_objc_nodes body \<or> is_object ret_type
                          \<or> list_ex (\<lambda>p. is_object (pa_type p)) params)
          in m1\<lparr>mo_functions := mo_functions m1 @
                 [\<lparr>fn_name = name, fn_return_type = ret_type, fn_params = params,
                   fn_body_ast = Some body, fn_has_objc = has_objc,
                   fn_is_static = (jstr node ''storageClass'' [] = ''static'')\<rparr>]\<rparr>)"

subsection \<open>Interfaces, implementations, protocols, categories\<close>

definition collect_ivar :: "json \<Rightarrow> oz_ivar" where
  "collect_ivar child =
     (let type_info = jobj child ''type'' in
      \<lparr>iv_name = jname child,
       iv_type = OZType (jstr type_info ''desugaredQualType'' (jstr type_info ''qualType'' [])),
       iv_access = jstr child ''access'' ''protected''\<rparr>)"

text \<open>The loop over the children of an interface: ivars, protocols, properties, module.\<close>

definition interface_child ::
  "json \<Rightarrow> oz_ivar list \<times> string list \<times> oz_property list \<times> oz_module
        \<Rightarrow> oz_ivar list \<times> string list \<times> oz_property list \<times> oz_module" where
  "interface_child child = (\<lambda>(ivars, protocols, properties, m).
     if jkind child = ''ObjCIvarDecl'' then (ivars @ [collect_ivar child], protocols, properties, m)
     else if jkind child = ''ObjCProtocol''
     then (ivars, if jname child \<noteq> [] then add_new (jname child) protocols else protocols,
           properties, m)
     else if jkind child = ''ObjCPropertyDecl''
     then (case collect_property child m of
             (Some p, m') \<Rightarrow> (ivars, protocols, properties @ [p], m')
           | (None, m') \<Rightarrow> (ivars, protocols, properties, m'))
     else (ivars, protocols, properties, m))"

definition collect_interface :: "json \<Rightarrow> oz_module \<Rightarrow> oz_module" where
  "collect_interface node m =
     (let name = jname node in
      if name = [] then m
      else
        let superclass = jstr_opt (jobj node ''super'') ''name'';
            protocols0 = filter (\<lambda>n. n \<noteq> []) (map jname (jarr node ''protocols''));
            (ivars, protocols, properties, m1) =
              fold interface_child (jinner node) ([], protocols0, [], m)
        in case cls_of m1 name of
             Some cls \<Rightarrow>
               let c1 = (if str_truthy superclass \<and> \<not> str_truthy (cl_superclass cls)
                         then cls\<lparr>cl_superclass := superclass\<rparr> else cls);
                   c2 = (if ivars \<noteq> [] then c1\<lparr>cl_ivars := ivars\<rparr> else c1);
                   c3 = (if protocols \<noteq> [] then c2\<lparr>cl_protocols := protocols\<rparr> else c2);
                   c4 = (if properties \<noteq> [] then c3\<lparr>cl_properties := properties\<rparr> else c3)
               in m1\<lparr>mo_classes := dput name c4 (mo_classes m1)\<rparr>
           | None \<Rightarrow>
               m1\<lparr>mo_classes := dput name
                    ((OZClass name superclass)\<lparr>cl_ivars := ivars, cl_protocols := protocols,
                                               cl_properties := properties\<rparr>) (mo_classes m1)\<rparr>)"

definition implementation_child ::
  "string \<Rightarrow> json \<Rightarrow> oz_class \<times> oz_module \<Rightarrow> oz_class \<times> oz_module" where
  "implementation_child name child = (\<lambda>(cls, m).
     if jkind child = ''ObjCIvarDecl''
     then (cls\<lparr>cl_ivars := cl_ivars cls @ [collect_ivar child]\<rparr>, m)
     else if jkind child = ''ObjCMethodDecl''
     then (if jflag child ''isImplicit'' then (cls, m)
           else case collect_method child of
                  None \<Rightarrow> (cls, m)
                | Some meth \<Rightarrow>
                    if me_selector meth \<in> set UNSUPPORTED_METHOD_SELECTORS
                    then (cls, add_error (quoted (me_selector meth) @ '' is not supported '' @
                                 ''(class '' @ quoted name @ '')'') m)
                    else (cls\<lparr>cl_methods := cl_methods cls @ [meth]\<rparr>,
                          (case me_body_ast meth of
                             Some b \<Rightarrow> if jtrue b then collect_block_vars b m else m
                           | None \<Rightarrow> m)))
     else if jkind child = ''ObjCPropertyImplDecl'' then (link_property_impl child cls, m)
     else (cls, m))"

definition collect_implementation :: "json \<Rightarrow> oz_module \<Rightarrow> oz_module" where
  "collect_implementation node m =
     (let name = jname node in
      if name = [] then m
      else
        let superclass = jstr_opt (jobj node ''super'') ''name'';
            cls0 = (case cls_of m name of Some c \<Rightarrow> c | None \<Rightarrow> OZClass name superclass);
            cls1 = (if str_truthy superclass \<and> \<not> str_truthy (cl_superclass cls0)
                    then cls0\<lparr>cl_superclass := superclass\<rparr> else cls0);
            (cls2, m2) = fold (implementation_child name) (jinner node) (cls1, m)
        in m2\<lparr>mo_classes := dput name cls2 (mo_classes m2)\<rparr>)"

definition collect_protocol :: "json \<Rightarrow> oz_module \<Rightarrow> oz_module" where
  "collect_protocol node m =
     (let name = jname node in
      if name = [] then m
      else m\<lparr>mo_protocols := dput name
               \<lparr>pc_name = name,
                pc_methods = List.map_filter collect_method
                  (filter (\<lambda>c. jkind c = ''ObjCMethodDecl'') (jinner node))\<rparr> (mo_protocols m)\<rparr>)"

text \<open>Replace the method of the same selector if the new one has a body (or the old one
  has none), append when there is none.\<close>

fun merge_method :: "oz_method \<Rightarrow> oz_method list \<Rightarrow> oz_method list" where
  "merge_method meth [] = [meth]"
| "merge_method meth (ex # exs) =
     (if me_selector ex = me_selector meth
      then (if body_truthy (me_body_ast meth) \<or> \<not> body_truthy (me_body_ast ex) then meth else ex) # exs
      else ex # merge_method meth exs)"

definition collect_category :: "json \<Rightarrow> oz_module \<Rightarrow> oz_module" where
  "collect_category node m =
     (let class_name = jname (jobj node ''interface'') in
      if class_name = [] then m
      else
        let cls = (case cls_of m class_name of Some c \<Rightarrow> c | None \<Rightarrow> OZClass class_name None);
            meths = List.map_filter collect_method
                      (filter (\<lambda>c. jkind c = ''ObjCMethodDecl'') (jinner node))
        in m\<lparr>mo_classes :=
              dput class_name (cls\<lparr>cl_methods := fold merge_method meths (cl_methods cls)\<rparr>)
                (mo_classes m)\<rparr>)"

end
