(* ===== verification/Source_Scan.thy ===== *)
theory Source_Scan
  imports Model World
begin

text \<open>
  The part of \<open>tools/oz_transpile/collect.py\<close> that reads the original source through
  tree-sitter: user includes, verbatim top-level text of the source and its companion
  header, and the generic type annotations that Clang erases (\<open>extract_source_generics\<close>).
  A node's \<open>parent\<close> is the head of the list of ancestors the walk carries.
\<close>

subsection \<open>Includes\<close>

definition OZ_INCLUDE_PREFIXES :: "string list" where
  "OZ_INCLUDE_PREFIXES =
     [''OZObject'', ''OZLog'', ''OZString'', ''OZArray'', ''OZDictionary'', ''OZQ31'',
      ''OZDefer'', ''Foundation/'', ''objc/'']"

text \<open>\<open>re.search(r'"([^"]+)"', s)\<close>, group 1.\<close>

fun quoted_group :: "string \<Rightarrow> string option" where
  "quoted_group [] = None"
| "quoted_group (c # cs) =
     (let body = takeWhile (\<lambda>x. x \<noteq> dquote) cs in
      if c = dquote \<and> body \<noteq> [] \<and> length body < length cs then Some body
      else quoted_group cs)"

definition has_objc_syntax :: "string \<Rightarrow> bool" where
  "has_objc_syntax content = (contains ''@interface'' content \<or> contains ''@implementation'' content)"

text \<open>The first existing candidate: beside the source, or in the sibling \<open>include\<close>.\<close>

definition find_header :: "world \<Rightarrow> string \<Rightarrow> string \<Rightarrow> string option" where
  "find_header w name source_dir =
     find (w_is_file w)
       [path_join source_dir name,
        path_join (path_join (path_parent source_dir) ''include'') name]"

definition is_user_include :: "world \<Rightarrow> string \<Rightarrow> string \<Rightarrow> bool" where
  "is_user_include w line source_dir =
     (let stripped = strip line in
      if startswith stripped ''#import'' then False
      else if list_ex (\<lambda>p. contains p line) OZ_INCLUDE_PREFIXES then False
      else case quoted_group stripped of
             None \<Rightarrow> True
           | Some name \<Rightarrow>
               (case find_header w name source_dir of
                  None \<Rightarrow> True
                | Some header \<Rightarrow> \<not> has_objc_syntax (w_read w header)))"

definition add_user_include :: "world \<Rightarrow> string \<Rightarrow> string \<Rightarrow> oz_module \<Rightarrow> oz_module" where
  "add_user_include w dir line m =
     (if is_user_include w line dir
      then m\<lparr>mo_user_includes := add_new line (mo_user_includes m)\<rparr> else m)"

definition scan_includes :: "world \<Rightarrow> string \<Rightarrow> oz_module \<Rightarrow> oz_module" where
  "scan_includes w path m =
     (if \<not> w_is_file w path then m
      else let source = w_read w path; tree = w_ts_parse w source in
        fold (\<lambda>child m. if ts_type child = ''preproc_include''
                        then add_user_include w (path_parent path) (node_src source child) m
                        else m) (ts_children tree) m)"

subsection \<open>Verbatim text of the companion header\<close>

definition OBJC_TS_NODE_TYPES :: "string list" where
  "OBJC_TS_NODE_TYPES =
     [''class_interface'', ''class_implementation'', ''protocol_declaration'',
      ''category_interface'', ''category_implementation'', ''class_forward_declaration'',
      ''protocol_forward_declaration'']"

definition NEEDS_SEMI :: "string list" where
  "NEEDS_SEMI = [''struct_specifier'', ''union_specifier'', ''enum_specifier'']"

text \<open>The text a child of the header contributes, given its next sibling; \<open>None\<close> for the
  children the loop skips.\<close>

definition header_verbatim_text :: "string \<Rightarrow> ts_node \<Rightarrow> ts_node list \<Rightarrow> string option" where
  "header_verbatim_text source child rest =
     (let ty = ts_type child; text = node_src source child; stripped = strip text in
      if ty \<in> set OBJC_TS_NODE_TYPES then None
      else if ty \<in> {''preproc_include'', ''preproc_import''} then None
      else if ty \<in> {''comment'', ''identifier'', ''#endif''} then None
      else if ty = '';'' then None
      else if startswith stripped ''#import'' \<or> startswith stripped ''#include'' then None
      else if stripped = ''#pragma once'' then None
      else if ty = ''preproc_def'' \<and> \<not> list_ex (\<lambda>c. ts_type c = ''preproc_arg'') (ts_children child)
      then None
      else if stripped = [] then None
      else if ty \<in> {''preproc_ifdef'', ''preproc_ifndef'', ''#ifndef'', ''#ifdef'', ''#endif''} then None
      else if ty \<in> set NEEDS_SEMI
      then Some (slice source (ts_start_byte child)
                  (case rest of
                     nxt # _ \<Rightarrow> if ts_type nxt = '';'' then ts_end_byte nxt else ts_end_byte child
                   | [] \<Rightarrow> ts_end_byte child))
      else Some text)"

fun header_verbatim_loop :: "string \<Rightarrow> ts_node list \<Rightarrow> oz_module \<Rightarrow> oz_module" where
  "header_verbatim_loop source [] m = m"
| "header_verbatim_loop source (child # rest) m =
     header_verbatim_loop source rest
       (case header_verbatim_text source child rest of
          None \<Rightarrow> m
        | Some text \<Rightarrow>
            m\<lparr>mo_header_verbatim_lines := add_new text (mo_header_verbatim_lines m)\<rparr>)"

definition scan_header_verbatim :: "world \<Rightarrow> string \<Rightarrow> oz_module \<Rightarrow> oz_module" where
  "scan_header_verbatim w path m =
     (if \<not> w_is_file w path then m
      else
        let source = w_read w path;
            children0 = ts_children (w_ts_parse w source);
            children = (case children0 of
                          [only] \<Rightarrow> if ts_type only \<in> {''preproc_ifdef'', ''preproc_ifndef''}
                                    then ts_children only else children0
                        | _ \<Rightarrow> children0)
        in header_verbatim_loop source children m)"

subsection \<open>Verbatim text of the source\<close>

definition has_field_list :: "ts_node \<Rightarrow> bool" where
  "has_field_list n = list_ex (\<lambda>c. ts_type c = ''field_declaration_list'') (ts_children n)"

definition has_struct_definition :: "ts_node \<Rightarrow> bool" where
  "has_struct_definition n =
     list_ex (\<lambda>c. ts_type c = ''struct_specifier'' \<and> has_field_list c) (ts_children n)"

fun source_verbatim_loop :: "world \<Rightarrow> string \<Rightarrow> string \<Rightarrow> ts_node list \<Rightarrow> oz_module \<Rightarrow> oz_module" where
  "source_verbatim_loop w dir source [] m = m"
| "source_verbatim_loop w dir source (child # rest) m =
     source_verbatim_loop w dir source rest
       (if ts_type child = ''expression_statement''
        then m\<lparr>mo_verbatim_lines := mo_verbatim_lines m @ [node_src source child]\<rparr>
        else if ts_type child = ''declaration'' \<and> has_struct_definition child
        then m\<lparr>mo_verbatim_lines := mo_verbatim_lines m @ [node_src source child]\<rparr>
        else if ts_type child = ''struct_specifier'' \<and> has_field_list child
        then m\<lparr>mo_verbatim_lines := mo_verbatim_lines m @
                [slice source (ts_start_byte child)
                  (case rest of
                     nxt # _ \<Rightarrow> if ts_type nxt = '';'' then ts_end_byte nxt else ts_end_byte child
                   | [] \<Rightarrow> ts_end_byte child)]\<rparr>
        else if ts_type child = ''preproc_include''
        then add_user_include w dir (node_src source child) m
        else m)"

text \<open>The first top-level declaration with a file of its own names the main file.\<close>

definition find_main_file :: "json \<Rightarrow> string option" where
  "find_main_file ast_root =
     first_return (\<lambda>child.
         let loc = jobj child ''loc''; f = jstr loc ''file'' [] in
         if f \<noteq> [] \<and> \<not> jhas loc ''includedFrom'' then Some f else None) (jinner ast_root)"

definition header_candidates :: "string \<Rightarrow> string list" where
  "header_candidates path =
     (let parent = path_parent path; h = fst (split_ext (path_name path)) @ ''.h'' in
      [path_join parent h, path_join (path_join parent ''include'') h,
       path_join (path_join (path_parent parent) ''include'') h])"

definition collect_verbatim_lines :: "world \<Rightarrow> json \<Rightarrow> oz_module \<Rightarrow> oz_module" where
  "collect_verbatim_lines w ast_root m =
     (case find_main_file ast_root of
        None \<Rightarrow> m
      | Some path \<Rightarrow>
          if \<not> w_is_file w path then m
          else
            let m1 = fold (\<lambda>header m. scan_header_verbatim w header (scan_includes w header m))
                       (header_candidates path) m;
                source = w_read w path
            in source_verbatim_loop w (path_parent path) source
                 (ts_children (w_ts_parse w source)) m1)"

subsection \<open>Generic annotations of the source\<close>

fun ts_find_identifier :: "ts_node \<Rightarrow> string option" where
  "ts_find_identifier n =
     first_return (\<lambda>child.
         if ts_type child = ''identifier'' then Some (ts_text child)
         else if ts_type child \<in> {''init_declarator'', ''pointer_declarator'', ''struct_declarator''}
         then (let found = ts_find_identifier child in if str_truthy found then found else None)
         else None) (ts_children n)"

declare ts_find_identifier.simps [simp del]

definition ts_find_func_name :: "ts_node \<Rightarrow> string option" where
  "ts_find_func_name n =
     (case first_return (\<lambda>child.
             if ts_type child = ''pointer_declarator''
             then map_option ts_find_identifier
                    (find (\<lambda>gc. ts_type gc = ''function_declarator'') (ts_children child))
             else if ts_type child = ''function_declarator'' then Some (ts_find_identifier child)
             else None) (ts_children n) of
        Some r \<Rightarrow> r
      | None \<Rightarrow> None)"

definition keyword_parts :: "ts_node \<Rightarrow> string list" where
  "keyword_parts n =
     concat (map (\<lambda>kw. map (\<lambda>k. ts_text k @ '':'')
                          (filter (\<lambda>k. ts_type k = ''keyword'') (ts_children kw)))
              (filter (\<lambda>kw. ts_type kw = ''keyword_declarator'') (ts_children n)))"

definition ts_extract_selector :: "ts_node \<Rightarrow> string option" where
  "ts_extract_selector n =
     (case first_return (\<lambda>child.
             if ts_type child = ''selector'' then Some (Some (ts_text child))
             else if ts_type child = ''keyword_selector''
             then Some (if keyword_parts child \<noteq> [] then Some (concat (keyword_parts child)) else None)
             else None) (ts_children n) of
        Some r \<Rightarrow> r
      | None \<Rightarrow>
          let sel_name = child_text ''identifier'' n;
              has_param = list_ex (\<lambda>c. ts_type c = ''method_parameter'') (ts_children n)
          in if str_truthy sel_name \<and> has_param then map_option (\<lambda>s. s @ '':'') sel_name
             else if str_truthy sel_name then sel_name
             else None)"

definition bind_generic ::
  "string option \<Rightarrow> string \<Rightarrow> string \<Rightarrow> (string, string) dict \<Rightarrow> (string, string) dict" where
  "bind_generic name prefix generic_text result =
     (case name of
        Some n \<Rightarrow> if n \<noteq> [] then dput (prefix @ n) (generic_text @ '' *'') result else result
      | None \<Rightarrow> result)"

definition extract_generic_decl ::
  "ts_node \<Rightarrow> ts_node list \<Rightarrow> string \<Rightarrow> (string, string) dict \<Rightarrow> (string, string) dict" where
  "extract_generic_decl gs_node ancestors source result =
     (let generic_text = node_src source gs_node in
      case ancestors of
        [] \<Rightarrow> result
      | parent # up \<Rightarrow>
          if ts_type parent = ''declaration''
          then bind_generic (ts_find_identifier parent) [] generic_text result
          else if ts_type parent = ''struct_declaration''
          then (case up of
                  gp # _ \<Rightarrow> if ts_type gp \<in> {''property_declaration'', ''instance_variable''}
                           then bind_generic (ts_find_identifier parent) [] generic_text result
                           else result
                | [] \<Rightarrow> result)
          else if ts_type parent = ''type_name''
          then (case up of
                  gp # ggp # _ \<Rightarrow>
                    if ts_type ggp = ''method_parameter''
                    then bind_generic (ts_find_identifier ggp) [] generic_text result
                    else if ts_type ggp \<in> {''method_declaration'', ''method_definition''}
                    then bind_generic (ts_extract_selector ggp) ''__return:'' generic_text result
                    else result
                | _ \<Rightarrow> result)
          else if ts_type parent = ''function_definition''
          then bind_generic (ts_find_func_name parent) ''__return:'' generic_text result
          else if ts_type parent = ''parameter_declaration''
          then bind_generic (ts_find_identifier parent) [] generic_text result
          else result)"

fun walk_source_generics ::
  "ts_node list \<Rightarrow> string \<Rightarrow> ts_node \<Rightarrow> (string, string) dict \<Rightarrow> (string, string) dict" where
  "walk_source_generics ancestors source n result =
     (if ts_type n = ''generic_specifier'' then extract_generic_decl n ancestors source result
      else fold (walk_source_generics (n # ancestors) source) (ts_children n) result)"

declare walk_source_generics.simps [simp del]

definition extract_source_generics :: "world \<Rightarrow> string \<Rightarrow> (string, string) dict" where
  "extract_source_generics w source_path =
     (if \<not> w_is_file w source_path then []
      else let source = w_read w source_path in
           walk_source_generics [] source (w_ts_parse w source) [])"

end
