(* ===== verification/Collect_Walk.thy ===== *)
theory Collect_Walk
  imports Collect Source_Scan
begin

text \<open>
  The walk of \<open>tools/oz_transpile/collect.py\<close> over the translation unit, the scan for
  unsupported features, the distribution of the verbatim text to the classes, and
  \<open>collect\<close>, which runs them in order.
\<close>

definition collect_leaf :: "json \<Rightarrow> string \<Rightarrow> oz_module \<Rightarrow> oz_module" where
  "collect_leaf node last_file m =
     (let kind = jkind node in
      if kind = ''ObjCImplementationDecl''
      then (let m1 = collect_implementation node m; name = jname node in
            if name \<noteq> [] \<and> is_from_main_file node
            then m1\<lparr>mo_main_impl_classes := add_new name (mo_main_impl_classes m1)\<rparr> else m1)
      else if kind = ''ObjCProtocolDecl'' then collect_protocol node m
      else if kind = ''ObjCCategoryDecl'' then collect_category node m
      else if kind = ''ObjCCategoryImplDecl'' then collect_category node m
      else if kind = ''FunctionDecl''
      then (if is_from_main_file node then collect_function node m else m)
      else if kind = ''EnumDecl''
      then (if is_oz_transpile_type node last_file then collect_enum_def node m
            else if is_user_enum node last_file then collect_enum_def node m
            else m)
      else if kind = ''RecordDecl''
      then (if is_oz_transpile_type node last_file
            then (if jstr node ''tagUsed'' ''struct'' = ''union'' then collect_union_def node m else m)
            else if is_user_struct node last_file then collect_struct_def node m
            else m)
      else if kind = ''VarDecl''
      then (if is_from_main_file node \<and> jstr node ''storageClass'' [] = ''static''
               \<and> \<not> is_macro_expanded node
            then collect_static_var node m else m)
      else m)"

text \<open>The kinds whose children the walk does not visit.\<close>

definition walk_stops :: "string \<Rightarrow> bool" where
  "walk_stops kind \<longleftrightarrow> kind \<in>
     {''ObjCImplementationDecl'', ''ObjCProtocolDecl'', ''ObjCCategoryDecl'',
      ''ObjCCategoryImplDecl'', ''FunctionDecl'', ''EnumDecl'', ''RecordDecl'', ''VarDecl''}"

definition file_after :: "json \<Rightarrow> string \<Rightarrow> string" where
  "file_after node last_file =
     (let loc = jobj node ''loc'' in
      if jhas loc ''file'' then jstr loc ''file'' [] else last_file)"

fun walk :: "json \<Rightarrow> string \<Rightarrow> oz_module \<Rightarrow> oz_module" where
  "walk node last_file m =
     (let lf = file_after node last_file in
      if walk_stops (jkind node) then collect_leaf node lf m
      else
        let m1 = (if jkind node = ''ObjCInterfaceDecl'' then collect_interface node m else m)
        in snd (fold (\<lambda>child (lf, m). let lf' = file_after child lf in (lf', walk child lf' m))
                  (jinner node) (lf, m1)))"

declare walk.simps [simp del]

subsection \<open>Unsupported features\<close>

definition unsupported_prefix :: "oz_module \<Rightarrow> string \<Rightarrow> string \<Rightarrow> string" where
  "unsupported_prefix m line col =
     (let src = (case mo_source_path m of Some p \<Rightarrow> path_name p | None \<Rightarrow> []) in
      if src \<noteq> [] \<and> line \<noteq> [] \<and> col \<noteq> [] then src @ '':'' @ line @ '':'' @ col @ '': ''
      else if src \<noteq> [] \<and> line \<noteq> [] then src @ '':'' @ line @ '': ''
      else if src \<noteq> [] then src @ '': ''
      else src)"

definition recovery_message :: string where
  "recovery_message =
     ''Clang produced a RecoveryExpr node '' @ em_dash @ '' the expression '' @
     ''could not be analyzed. This typically happens with '' @
     ''non-Apple LLVM Clang builds (e.g. Zephyr SDK). '' @
     ''Ensure -fblocks is enabled, or use Apple Clang on macOS / '' @
     ''a full LLVM Clang with ObjC support on Linux.''"

text \<open>\<open>node.get("loc", node.get("range", {}).get("begin", {}))\<close>.\<close>

definition loc_or_begin :: "json \<Rightarrow> json" where
  "loc_or_begin node =
     (if jhas node ''loc'' then jobj node ''loc'' else jobj (jobj node ''range'') ''begin'')"

fun scan_unsupported :: "json \<Rightarrow> oz_module \<Rightarrow> oz_module" where
  "scan_unsupported node m =
     (if jkind node = ''RecoveryExpr''
      then (let loc = loc_or_begin node in
            add_error (unsupported_prefix m (jshow_true loc ''line'') (jshow_true loc ''col'')
                         @ recovery_message) m)
      else if jkind node \<in> set UNSUPPORTED_AST_KINDS
      then add_error (unsupported_prefix m (jshow_true (jobj node ''loc'') ''line'') []
                        @ ''@try/@catch/@finally is not supported'') m
      else fold scan_unsupported (jinner node) m)"

declare scan_unsupported.simps [simp del]

subsection \<open>Verbatim text goes to the implementation classes\<close>

definition impl_class_names :: "oz_module \<Rightarrow> string list" where
  "impl_class_names m = map fst (filter (\<lambda>(n, c). cl_methods c \<noteq> []) (mo_classes m))"

definition distribute_verbatim_to_classes :: "oz_module \<Rightarrow> oz_module" where
  "distribute_verbatim_to_classes m =
     (let impls = impl_class_names m in
      if impls = [] then m
      else
        let m1 = (if mo_user_includes m \<noteq> []
                  then m\<lparr>mo_classes :=
                          fold (\<lambda>n. dict_modify n
                                  (\<lambda>c. c\<lparr>cl_user_includes :=
                                      add_all_new (mo_user_includes m) (cl_user_includes c)\<rparr>))
                            impls (mo_classes m),
                        mo_user_includes := []\<rparr>
                  else m);
            m2 = (if length impls = 1 \<and> mo_verbatim_lines m1 \<noteq> []
                  then (modify_class (hd impls)
                          (\<lambda>c. c\<lparr>cl_verbatim_lines := mo_verbatim_lines m1\<rparr>) m1)
                       \<lparr>mo_verbatim_lines := []\<rparr>
                  else m1)
        in if mo_header_verbatim_lines m2 \<noteq> []
           then let main_impl = filter (\<lambda>n. n \<in> set (mo_main_impl_classes m2)) impls;
                    target = (if main_impl \<noteq> [] then hd main_impl else hd impls)
                in (modify_class target
                      (\<lambda>c. c\<lparr>cl_header_verbatim_lines :=
                          add_all_new (mo_header_verbatim_lines m2) (cl_header_verbatim_lines c)\<rparr>) m2)
                   \<lparr>mo_header_verbatim_lines := []\<rparr>
           else m2)"

subsection \<open>The pass\<close>

definition collect :: "world \<Rightarrow> json \<Rightarrow> oz_module" where
  "collect w ast_root =
     (let m1 = walk ast_root [] OZModule;
          m2 = m1\<lparr>mo_classes := fold dict_pop SKIP_CLASSES (mo_classes m1)\<rparr>;
          m3 = (case find_main_file ast_root of
                  Some f \<Rightarrow> if f \<noteq> [] \<and> w_is_file w f then m2\<lparr>mo_source_path := Some f\<rparr> else m2
                | None \<Rightarrow> m2);
          m4 = collect_verbatim_lines w ast_root m3;
          m5 = scan_unsupported ast_root m4
      in distribute_verbatim_to_classes m5)"

end
