(* ===== verification/Merge.thy ===== *)
theory Merge
  imports Collect_Walk
begin

text \<open>
  Joining translation units: \<open>merge_modules\<close> of \<open>collect.py\<close>, and from \<open>__main__.py\<close> the
  association of a unit's free items with its primary class, the source stems and the
  pool size argument.
\<close>

subsection \<open>merge_modules\<close>

definition merge_class :: "oz_class \<Rightarrow> oz_class \<Rightarrow> oz_class" where
  "merge_class cls existing = existing
     \<lparr>cl_superclass := (if str_truthy (cl_superclass cls) \<and> \<not> str_truthy (cl_superclass existing)
                        then cl_superclass cls else cl_superclass existing),
      cl_ivars := (if cl_ivars cls \<noteq> [] \<and> cl_ivars existing = []
                   then cl_ivars cls else cl_ivars existing),
      cl_protocols := (if cl_protocols cls \<noteq> []
                       then uniq (cl_protocols existing @ cl_protocols cls)
                       else cl_protocols existing),
      cl_properties := (if cl_properties cls \<noteq> [] \<and> cl_properties existing = []
                        then cl_properties cls else cl_properties existing),
      cl_methods := fold merge_method (cl_methods cls) (cl_methods existing),
      cl_verbatim_lines := add_all_new (cl_verbatim_lines cls) (cl_verbatim_lines existing),
      cl_header_verbatim_lines :=
        add_all_new (cl_header_verbatim_lines cls) (cl_header_verbatim_lines existing),
      cl_user_includes := add_all_new (cl_user_includes cls) (cl_user_includes existing),
      cl_functions := cl_functions existing @ cl_functions cls,
      cl_statics := cl_statics existing @ cl_statics cls,
      cl_source_stem := (if cl_source_stem cls \<noteq> [] \<and> cl_source_stem existing = []
                         then cl_source_stem cls else cl_source_stem existing)\<rparr>"

definition merge_class_into :: "string \<times> oz_class \<Rightarrow> (string, oz_class) dict \<Rightarrow> (string, oz_class) dict" where
  "merge_class_into = (\<lambda>(name, cls) classes.
     case dget classes name of
       Some existing \<Rightarrow> dput name (merge_class cls existing) classes
     | None \<Rightarrow> dput name cls classes)"

definition merge_one :: "oz_module \<Rightarrow> oz_module \<Rightarrow> oz_module" where
  "merge_one m merged = merged
     \<lparr>mo_classes := fold merge_class_into (mo_classes m) (mo_classes merged),
      mo_protocols := dict_update (mo_protocols merged) (mo_protocols m),
      mo_functions := mo_functions merged @ mo_functions m,
      mo_statics := mo_statics merged @ mo_statics m,
      mo_verbatim_lines := add_all_new (mo_verbatim_lines m) (mo_verbatim_lines merged),
      mo_header_verbatim_lines :=
        add_all_new (mo_header_verbatim_lines m) (mo_header_verbatim_lines merged),
      mo_user_includes := add_all_new (mo_user_includes m) (mo_user_includes merged),
      mo_type_defs := dict_update (mo_type_defs merged) (mo_type_defs m),
      mo_diagnostics := mo_diagnostics merged @ mo_diagnostics m,
      mo_errors := mo_errors merged @ mo_errors m,
      mo_orphan_sources := mo_orphan_sources merged @ mo_orphan_sources m,
      mo_source_paths := dict_update (mo_source_paths merged) (mo_source_paths m),
      mo_generic_types := dict_update (mo_generic_types merged) (mo_generic_types m)\<rparr>"

definition merge_modules :: "oz_module list \<Rightarrow> oz_module" where
  "merge_modules modules = fold merge_one modules OZModule"

subsection \<open>Free items of a unit\<close>

definition FOUNDATION_NAMES :: "string list" where
  "FOUNDATION_NAMES =
     [''OZObject'', ''OZString'', ''OZMutableString'', ''OZArray'', ''OZDictionary'', ''OZQ31'',
      ''OZDefer'', ''OZHeap'', ''OZSpinLock'']"

definition has_items :: "oz_module \<Rightarrow> bool" where
  "has_items m \<longleftrightarrow> mo_functions m \<noteq> [] \<or> mo_statics m \<noteq> [] \<or> mo_verbatim_lines m \<noteq> []
                 \<or> mo_user_includes m \<noteq> []"

definition clear_items :: "oz_module \<Rightarrow> oz_module" where
  "clear_items m = m\<lparr>mo_functions := [], mo_statics := [], mo_verbatim_lines := [],
                     mo_user_includes := []\<rparr>"

definition has_impl :: "oz_class \<Rightarrow> bool" where
  "has_impl c = list_ex (\<lambda>m. body_truthy (me_body_ast m)) (cl_methods c)"

text \<open>
  The loop that picks the primary class: the first class with a method body that is not a
  Foundation class ends it, else the first class with a method body.
\<close>

fun primary_class :: "oz_class list \<Rightarrow> string option \<Rightarrow> string option" where
  "primary_class [] primary = primary"
| "primary_class (c # cs) primary =
     (if has_impl c
      then (if cl_name c \<notin> set FOUNDATION_NAMES then Some (cl_name c)
            else primary_class cs (if primary = None then Some (cl_name c) else primary))
      else primary_class cs primary)"

definition orphan_of :: "oz_module \<Rightarrow> orphan_source" where
  "orphan_of m =
     \<lparr>os_stem = mo_source_stem m, os_functions = mo_functions m, os_statics = mo_statics m,
      os_verbatim_lines = mo_verbatim_lines m, os_user_includes = mo_user_includes m,
      os_source_path = dget (mo_source_paths m) (mo_source_stem m)\<rparr>"

definition make_orphan :: "oz_module \<Rightarrow> oz_module" where
  "make_orphan m =
     (if has_items m \<and> mo_source_stem m \<noteq> []
      then clear_items (m\<lparr>mo_orphan_sources := mo_orphan_sources m @ [orphan_of m]\<rparr>)
      else m)"

definition give_items :: "oz_module \<Rightarrow> oz_class \<Rightarrow> oz_class" where
  "give_items m c = c
     \<lparr>cl_functions := cl_functions c @ mo_functions m,
      cl_statics := cl_statics c @ mo_statics m,
      cl_verbatim_lines := add_all_new (mo_verbatim_lines m) (cl_verbatim_lines c),
      cl_user_includes := add_all_new (mo_user_includes m) (cl_user_includes c)\<rparr>"

definition associate_module_items_with_class :: "oz_module \<Rightarrow> oz_module" where
  "associate_module_items_with_class m =
     (if mo_classes m = [] then make_orphan m
      else if \<not> has_items m then m
      else case primary_class (dvals (mo_classes m)) None of
             None \<Rightarrow> make_orphan m
           | Some p \<Rightarrow> clear_items (modify_class p (give_items m) m))"

subsection \<open>Arguments\<close>

definition source_stem :: "string \<Rightarrow> string" where
  "source_stem path = fst (split_ext (path_name path))"

text \<open>\<open>int(s)\<close>: a sign, digits, single underscores between digits, white space around.\<close>

fun parse_digits :: "nat \<Rightarrow> bool \<Rightarrow> string \<Rightarrow> nat option" where
  "parse_digits acc ok [] = (if ok then Some acc else None)"
| "parse_digits acc ok (c # cs) =
     (if is_digit c then parse_digits (10 * acc + (of_char c - 48)) True cs
      else if c = CHR ''_'' \<and> ok then parse_digits acc False cs
      else None)"

definition parse_int :: "string \<Rightarrow> int option" where
  "parse_int s =
     (case strip s of
        [] \<Rightarrow> None
      | c # cs \<Rightarrow>
          if c = CHR ''-'' then map_option (\<lambda>n. - int n) (parse_digits 0 False cs)
          else if c = CHR ''+'' then map_option int (parse_digits 0 False cs)
          else map_option int (parse_digits 0 False (c # cs)))"

definition pool_size_pair :: "string \<Rightarrow> (string, int) dict \<Rightarrow> (string, int) dict outcome" where
  "pool_size_pair raw_pair result =
     (let pair = strip raw_pair in
      if contains ''='' pair
      then let name = takeWhile (\<lambda>c. c \<noteq> CHR ''='') pair;
               count = tl (dropWhile (\<lambda>c. c \<noteq> CHR ''='') pair)
           in case parse_int (strip count) of
                Some n \<Rightarrow> Inr (dput (strip name) n result)
              | None \<Rightarrow> Inl (ValueErr ''invalid literal for int()'')
      else Inr result)"

definition parse_pool_sizes :: "string \<Rightarrow> (string, int) dict outcome" where
  "parse_pool_sizes raw =
     (if raw = [] then Inr [] else efold pool_size_pair (str_split (CHR '','') raw) [])"

end
