(* ===== verification/Hierarchy.thy ===== *)
theory Hierarchy
  imports Merge
begin

text \<open>
  The class hierarchy: the first steps of \<open>tools/oz_transpile/resolve.py\<close> (validation,
  class ids, base depths) and the upward walks every later pass makes.

  The locale \<open>partial_step\<close> is a reference from names to names, \<open>visited_loop\<close> the contract
  of the loops that follow it until they meet a name again; they are instantiated by the
  superclass walk of a module here, by the ancestor walk of the cycle checker and by the
  size recursion of the pool generator. Walks without a visited set
  (\<open>climb_until\<close>, \<open>class_line\<close>, \<open>assign\<close>, \<open>depth\<close>) carry fuel, one more than
  the number of classes; on a hierarchy without cycles this is always enough.
\<close>

subsection \<open>Loops with a visited set\<close>

locale partial_step =
  fixes up :: "'a \<Rightarrow> 'a option"
  assumes finite_up: "finite {x. up x \<noteq> None}"
begin

abbreviation up_rel :: "('a \<times> 'a) set" where
  "up_rel \<equiv> {(x, y). up x = Some y}"

lemma finite_above: "finite {y. (x, y) \<in> up_rel\<^sup>+}"
proof (rule finite_subset)
  show "{y. (x, y) \<in> up_rel\<^sup>+} \<subseteq> (\<lambda>z. the (up z)) ` {z. up z \<noteq> None}"
  proof
    fix y assume "y \<in> {y. (x, y) \<in> up_rel\<^sup>+}"
    then obtain z where "up z = Some y" by (auto dest: tranclD2)
    then show "y \<in> (\<lambda>z. the (up z)) ` {z. up z \<noteq> None}" by force
  qed
  show "finite ((\<lambda>z. the (up z)) ` {z. up z \<noteq> None})" using finite_up by simp
qed

text \<open>Without cycles, fewer names stand above the next name than above this one.\<close>

lemma height_less:
  assumes "acyclic up_rel" and "up x = Some y"
  shows "card {z. (y, z) \<in> up_rel\<^sup>+} < card {z. (x, z) \<in> up_rel\<^sup>+}"
proof (intro psubset_card_mono psubsetI)
  have step: "(x, y) \<in> up_rel" using assms(2) by simp
  then show "{z. (y, z) \<in> up_rel\<^sup>+} \<subseteq> {z. (x, z) \<in> up_rel\<^sup>+}"
    by (auto intro: trancl_into_trancl2)
  have "y \<in> {z. (x, z) \<in> up_rel\<^sup>+}" using step by auto
  moreover have "y \<notin> {z. (y, z) \<in> up_rel\<^sup>+}" using assms(1) by (simp add: acyclic_def)
  ultimately show "{z. (y, z) \<in> up_rel\<^sup>+} \<noteq> {z. (x, z) \<in> up_rel\<^sup>+}" by blast
qed (rule finite_above)

end

locale visited_loop = partial_step up for up :: "'a \<Rightarrow> 'a option" +
  fixes loop :: "'a list \<Rightarrow> 'a option \<Rightarrow> 'a list"
  assumes loop_None: "loop V None = []"
    and loop_visited: "x \<in> set V \<Longrightarrow> loop V (Some x) = []"
    and loop_step: "x \<notin> set V \<Longrightarrow> loop V (Some x) = x # loop (x # V) (up x)"
begin

lemma loop_induct [case_names None Visited Step]:
  assumes "\<And>V. P V None"
    and "\<And>V x. x \<in> set V \<Longrightarrow> P V (Some x)"
    and "\<And>V x. x \<notin> set V \<Longrightarrow> P (x # V) (up x) \<Longrightarrow> P V (Some x)"
  shows "P V cur"
proof (induction "2 * card ({x. up x \<noteq> None} - set V) + (if cur = None then 0 else 1)"
    arbitrary: V cur rule: less_induct)
  case less
  show ?case
  proof (cases cur)
    case None
    then show ?thesis using assms(1) by simp
  next
    case (Some x)
    show ?thesis
    proof (cases "x \<in> set V")
      case True
      with Some assms(2) show ?thesis by simp
    next
      case False
      have "P (x # V) (up x)"
      proof (cases "up x")
        case None
        then show ?thesis using assms(1) by simp
      next
        case (Some y)
        then have "card ({x. up x \<noteq> None} - insert x (set V)) < card ({x. up x \<noteq> None} - set V)"
          using finite_up False by (intro psubset_card_mono) auto
        then have "2 * card ({x. up x \<noteq> None} - set (x # V)) + (if up x = None then 0 else 1)
                   < 2 * card ({x. up x \<noteq> None} - set V) + (if cur = None then 0 else 1)"
          using \<open>cur = Some x\<close> by (simp only: list.set) (simp split: if_split)
        then show ?thesis by (rule less)
      qed
      with Some False assms(3) show ?thesis by simp
    qed
  qed
qed

lemma loop_sound: "y \<in> set (loop V cur) \<Longrightarrow> \<exists>x. cur = Some x \<and> (x, y) \<in> up_rel\<^sup>*"
proof (induction V cur rule: loop_induct)
  case (Step V x)
  show ?case
  proof (cases "y = x")
    case False
    with Step loop_step obtain z where "up x = Some z" "(z, y) \<in> up_rel\<^sup>*"
      by (auto simp: loop_step)
    then show ?thesis by (auto intro: converse_rtrancl_into_rtrancl)
  qed simp
qed (auto simp: loop_None loop_visited)

lemma loop_closed:
  assumes "\<And>v w. v \<in> set V \<Longrightarrow> up v = Some w \<Longrightarrow> w \<in> set V \<or> cur = Some w"
  shows "up_rel `` (set (loop V cur) \<union> set V) \<subseteq> set (loop V cur) \<union> set V
         \<and> (\<forall>x. cur = Some x \<longrightarrow> x \<in> set (loop V cur) \<union> set V)"
  using assms
proof (induction V cur rule: loop_induct)
  case (Step V x)
  have "up_rel `` (set (loop (x # V) (up x)) \<union> set (x # V))
          \<subseteq> set (loop (x # V) (up x)) \<union> set (x # V)"
    using Step.IH Step.prems by fastforce
  with Step.hyps show ?case by (auto simp: loop_step)
qed (auto simp: loop_None loop_visited)

lemma set_loop: "set (loop [] (Some x)) = {y. (x, y) \<in> up_rel\<^sup>*}"
proof
  show "set (loop [] (Some x)) \<subseteq> {y. (x, y) \<in> up_rel\<^sup>*}"
    using loop_sound [of _ "[]" "Some x"] by auto
  have closed: "up_rel `` set (loop [] (Some x)) \<subseteq> set (loop [] (Some x))"
    and start: "x \<in> set (loop [] (Some x))"
    using loop_closed [of "[]" "Some x"] by auto
  show "{y. (x, y) \<in> up_rel\<^sup>*} \<subseteq> set (loop [] (Some x))"
  proof
    fix y assume "y \<in> {y. (x, y) \<in> up_rel\<^sup>*}"
    then have "(x, y) \<in> up_rel\<^sup>*" by simp
    then show "y \<in> set (loop [] (Some x))"
      using start closed by (induction rule: rtrancl_induct) auto
  qed
qed

lemma distinct_loop: "distinct (loop V cur) \<and> set (loop V cur) \<inter> set V = {}"
  by (induction V cur rule: loop_induct) (auto simp: loop_None loop_visited loop_step)

end

subsection \<open>Going up from a class\<close>

text \<open>The superclass a loop \<open>while name\<close> goes to; a missing class ends it.\<close>

definition up_of :: "oz_module \<Rightarrow> string \<Rightarrow> string option" where
  "up_of m n =
     (case cls_of m n of
        None \<Rightarrow> None
      | Some c \<Rightarrow> if str_truthy (cl_superclass c) then cl_superclass c else None)"

definition super_rel :: "oz_module \<Rightarrow> (string \<times> string) set" where
  "super_rel m = {(x, y). up_of m x = Some y}"

lemma up_of_in_keys: "up_of m n \<noteq> None \<Longrightarrow> n \<in> set (dkeys (mo_classes m))"
  unfolding in_dkeys_iff by (auto simp: up_of_def split: option.splits)

function names_up :: "oz_module \<Rightarrow> string list \<Rightarrow> string option \<Rightarrow> string list" where
  "names_up m V None = []"
| "names_up m V (Some n) = (if n \<in> set V then [] else n # names_up m (n # V) (up_of m n))"
  by pat_completeness auto
termination
proof (relation "measure (\<lambda>(m, V, cur). 2 * card (set (dkeys (mo_classes m)) - set V)
                             + (if cur = None then 0 else 1))", goal_cases)
  case 1
  show ?case by simp
next
  case (2 m V n)
  show ?case
  proof (cases "up_of m n")
    case None
    have "card (set (dkeys (mo_classes m)) - set (n # V)) \<le> card (set (dkeys (mo_classes m)) - set V)"
      by (intro card_mono) auto
    with None show ?thesis by simp
  next
    case (Some s)
    then have "n \<in> set (dkeys (mo_classes m))" using up_of_in_keys by auto
    then have "card (set (dkeys (mo_classes m)) - set (n # V)) < card (set (dkeys (mo_classes m)) - set V)"
      using 2 card_unvisited_less_list by fastforce
    with Some show ?thesis by simp
  qed
qed

interpretation class_walk: visited_loop "up_of m" "names_up m" for m
proof
  show "finite {x. up_of m x \<noteq> None}"
    by (rule finite_subset [of _ "set (dkeys (mo_classes m))"]) (use up_of_in_keys in auto)
qed auto

lemma set_names_up: "set (names_up m [] (Some n)) = {y. (n, y) \<in> (super_rel m)\<^sup>*}"
  unfolding super_rel_def by (rule class_walk.set_loop)

lemma finite_super_rel: "finite (super_rel m)"
proof -
  have "super_rel m \<subseteq> (\<lambda>x. (x, the (up_of m x))) ` set (dkeys (mo_classes m))"
  proof
    fix p assume "p \<in> super_rel m"
    then have *: "up_of m (fst p) = Some (snd p)" by (auto simp: super_rel_def)
    then have "fst p \<in> set (dkeys (mo_classes m))" using up_of_in_keys by auto
    moreover have "p = (fst p, the (up_of m (fst p)))" using * by simp
    ultimately show "p \<in> (\<lambda>x. (x, the (up_of m x))) ` set (dkeys (mo_classes m))"
      by (rule rev_image_eqI)
  qed
  then show ?thesis by (rule finite_subset) simp
qed

lemma super_rel_fun: "(x, y) \<in> super_rel m \<Longrightarrow> (x, z) \<in> super_rel m \<Longrightarrow> y = z"
  by (simp add: super_rel_def)

text \<open>A module without inheritance cycles.\<close>

definition acyclic_module :: "oz_module \<Rightarrow> bool" where
  "acyclic_module m \<longleftrightarrow> acyclic (super_rel m)"

text \<open>What an upward walk needs: names strictly above shrink.\<close>

definition rank :: "oz_module \<Rightarrow> string \<Rightarrow> nat" where
  "rank m n = card {y \<in> set (dkeys (mo_classes m)). (n, y) \<in> (super_rel m)\<^sup>+}"

lemma rank_le: "rank m n \<le> length (mo_classes m)"
proof -
  have "rank m n \<le> card (set (dkeys (mo_classes m)))"
    unfolding rank_def by (rule card_mono) auto
  also have "\<dots> \<le> length (mo_classes m)" using card_length [of "dkeys (mo_classes m)"] by simp
  finally show ?thesis .
qed

lemma rank_less:
  assumes "acyclic_module m" and "(n, s) \<in> super_rel m" and "cls_of m s \<noteq> None"
  shows "rank m s < rank m n"
proof -
  let ?K = "set (dkeys (mo_classes m))"
  have "{y \<in> ?K. (s, y) \<in> (super_rel m)\<^sup>+} \<subseteq> {y \<in> ?K. (n, y) \<in> (super_rel m)\<^sup>+}"
    using assms(2) by (auto intro: trancl_into_trancl2)
  moreover have "s \<in> ?K" using assms(3) unfolding in_dkeys_iff .
  moreover have "(s, s) \<notin> (super_rel m)\<^sup>+"
    using assms(1) by (simp add: acyclic_module_def acyclic_def)
  ultimately have "{y \<in> ?K. (s, y) \<in> (super_rel m)\<^sup>+} \<subset> {y \<in> ?K. (n, y) \<in> (super_rel m)\<^sup>+}"
    using assms(2) by auto
  then show ?thesis unfolding rank_def by (rule psubset_card_mono [rotated]) simp
qed

lemma super_in_rel:
  "cls_of m n = Some c \<Longrightarrow> super_in m c = Some s \<Longrightarrow> (n, s) \<in> super_rel m \<and> cls_of m s \<noteq> None"
  by (auto simp: super_in_def super_rel_def up_of_def str_truthy_def split: option.splits if_splits)

lemma hierarchy_cong:
  assumes "\<And>n. map_option cl_superclass (cls_of m n) = map_option cl_superclass (cls_of m' n)"
  shows "super_rel m = super_rel m'"
proof -
  have "up_of m n = up_of m' n" for n
    using assms [of n] by (auto simp: up_of_def split: option.splits)
  then show ?thesis by (simp add: super_rel_def)
qed

subsection \<open>_validate_hierarchy\<close>

definition missing_superclass_diags :: "oz_module \<Rightarrow> string list" where
  "missing_superclass_diags m =
     concat (map (\<lambda>cls. case cl_superclass cls of
                          Some s \<Rightarrow>
                            if s \<noteq> [] \<and> cls_of m s = None
                            then [''superclass '' @ quoted s @ '' of '' @ quoted (cl_name cls)
                                    @ '' not found'']
                            else []
                        | None \<Rightarrow> []) (dvals (mo_classes m)))"

text \<open>The inner loop: \<open>Some n\<close> when \<open>n\<close> is met for the second time.\<close>

function cycle_walk :: "oz_module \<Rightarrow> string list \<Rightarrow> string option \<Rightarrow> string option" where
  "cycle_walk m visited None = None"
| "cycle_walk m visited (Some cur) =
     (if cur = [] then None
      else if cur \<in> set visited then Some cur
      else cycle_walk m (cur # visited)
             (case cls_of m cur of None \<Rightarrow> None | Some parent \<Rightarrow> cl_superclass parent))"
  by pat_completeness auto
termination
proof (relation "measure (\<lambda>(m, V, cur). 2 * card (set (dkeys (mo_classes m)) - set V)
                             + (if cur = None then 0 else 1))", goal_cases)
  case 1
  show ?case by simp
next
  case (2 m V n)
  show ?case
  proof (cases "cls_of m n")
    case None
    have "card (set (dkeys (mo_classes m)) - set (n # V)) \<le> card (set (dkeys (mo_classes m)) - set V)"
      by (intro card_mono) auto
    with None show ?thesis by simp
  next
    case (Some c)
    then have "n \<in> set (dkeys (mo_classes m))" unfolding in_dkeys_iff by simp
    then have "card (set (dkeys (mo_classes m)) - set (n # V)) < card (set (dkeys (mo_classes m)) - set V)"
      using 2 card_unvisited_less_list by fastforce
    then show ?thesis by simp
  qed
qed

definition validate_hierarchy :: "oz_module \<Rightarrow> oz_module outcome" where
  "validate_hierarchy m =
     (let m1 = m\<lparr>mo_diagnostics := mo_diagnostics m @ missing_superclass_diags m\<rparr> in
      efold (\<lambda>cls m.
          case cycle_walk m [] (Some (cl_name cls)) of
            Some cur \<Rightarrow> Inl (ValueErr (''inheritance cycle detected: '' @ cl_name cls
                                        @ '' -> ... -> '' @ cur))
          | None \<Rightarrow> Inr m) (dvals (mo_classes m1)) m1)"

subsection \<open>_assign_class_ids\<close>

record assign_state =
  as_assigned :: "(string, int) dict"
  as_next :: int
  as_classes :: "(string, oz_class) dict"

definition super_among :: "(string, oz_class) dict \<Rightarrow> string \<Rightarrow> string option" where
  "super_among classes n =
     (case dget classes n of
        None \<Rightarrow> None
      | Some c \<Rightarrow> (case cl_superclass c of
                    None \<Rightarrow> None
                  | Some s \<Rightarrow> if s \<noteq> [] \<and> dget classes s \<noteq> None then Some s else None))"

fun assign :: "nat \<Rightarrow> string \<Rightarrow> assign_state \<Rightarrow> assign_state outcome" where
  "assign 0 name st = Inl Diverges"
| "assign (Suc fuel) name st =
     (if dget (as_assigned st) name \<noteq> None then Inr st
      else ebind (case super_among (as_classes st) name of
                    Some s \<Rightarrow> assign fuel s st
                  | None \<Rightarrow> Inr st)
             (\<lambda>st. Inr (st\<lparr>as_assigned := dput name (as_next st) (as_assigned st),
                           as_classes := dict_modify name (\<lambda>c. c\<lparr>cl_class_id := as_next st\<rparr>)
                                           (as_classes st),
                           as_next := as_next st + 1\<rparr>)))"

definition hier_fuel :: "oz_module \<Rightarrow> nat" where
  "hier_fuel m = Suc (length (mo_classes m))"

definition assign_class_ids :: "oz_module \<Rightarrow> oz_module outcome" where
  "assign_class_ids m =
     ebind (efold (assign (hier_fuel m)) (sort (dkeys (mo_classes m)))
              \<lparr>as_assigned = [], as_next = 0, as_classes = mo_classes m\<rparr>)
       (\<lambda>st. Inr (m\<lparr>mo_classes := as_classes st\<rparr>))"

subsection \<open>_compute_base_depths\<close>

fun depth :: "nat \<Rightarrow> (string, oz_class) dict \<Rightarrow> string \<Rightarrow> (string, nat) dict
              \<Rightarrow> (nat \<times> (string, nat) dict) outcome" where
  "depth 0 classes name cache = Inl Diverges"
| "depth (Suc fuel) classes name cache =
     (case dget cache name of
        Some d \<Rightarrow> Inr (d, cache)
      | None \<Rightarrow>
          (case super_among classes name of
             None \<Rightarrow> Inr (0, dput name 0 cache)
           | Some s \<Rightarrow> ebind (depth fuel classes s cache)
                        (\<lambda>(d, cache). Inr (1 + d, dput name (1 + d) cache))))"

definition compute_base_depths :: "oz_module \<Rightarrow> oz_module outcome" where
  "compute_base_depths m =
     ebind (efold (\<lambda>(key, cls) (classes, cache).
              ebind (depth (hier_fuel m) classes (cl_name cls) cache)
                (\<lambda>(d, cache). Inr (dict_modify key (\<lambda>c. c\<lparr>cl_base_depth := d\<rparr>) classes, cache)))
              (mo_classes m) (mo_classes m, []))
       (\<lambda>(classes, cache). Inr (m\<lparr>mo_classes := classes\<rparr>))"

subsection \<open>Walks without a visited set\<close>

text \<open>
  \<open>cur = cls; while cur: ...; cur = module.classes[cur.superclass]\<close>: the body returns a
  value to stop, \<open>None\<close> to go up. The outer \<open>None\<close> is a loop without end.
\<close>

fun climb_until :: "nat \<Rightarrow> oz_module \<Rightarrow> (oz_class \<Rightarrow> 'r option) \<Rightarrow> oz_class \<Rightarrow> 'r option option" where
  "climb_until 0 m body cur = None"
| "climb_until (Suc fuel) m body cur =
     (case body cur of
        Some r \<Rightarrow> Some (Some r)
      | None \<Rightarrow>
          (case super_in m cur of
             None \<Rightarrow> Some None
           | Some s \<Rightarrow> climb_until fuel m body (the (cls_of m s))))"

text \<open>The classes such a loop visits when its body never stops it.\<close>

fun climb :: "nat \<Rightarrow> oz_module \<Rightarrow> oz_class \<Rightarrow> oz_class list option" where
  "climb 0 m cur = None"
| "climb (Suc fuel) m cur =
     (case super_in m cur of
        None \<Rightarrow> Some [cur]
      | Some s \<Rightarrow> map_option ((#) cur) (climb fuel m (the (cls_of m s))))"

definition class_line :: "oz_module \<Rightarrow> oz_class \<Rightarrow> oz_class list option" where
  "class_line m cls = climb (hier_fuel m) m cls"

end
