(* ===== verification/Collect_Props.thy ===== *)
theory Collect_Props
  imports Collect_Walk Merge Hierarchy "HOL-Library.Multiset"
begin

text \<open>
  Properties of the first pass and of the merge: the walks are characterised over the set
  of nodes of the tree, every module the pass returns is well formed (unique keys, classes
  under their own names), merging keeps that, and no item of a unit is lost.
\<close>

subsection \<open>Well-formed modules\<close>

lemma module_ok_alt:
  "module_ok m \<longleftrightarrow> distinct (dkeys (mo_classes m)) \<and> distinct (dkeys (mo_protocols m)) \<and>
     (\<forall>n c. cls_of m n = Some c \<longrightarrow> cl_name c = n)"
  by (auto simp: module_ok_def dest: map_of_SomeD)

lemma module_ok_put:
  "module_ok m \<Longrightarrow> cl_name c = n \<Longrightarrow> module_ok (m\<lparr>mo_classes := dput n c (mo_classes m)\<rparr>)"
  by (auto simp: module_ok_alt)

lemma module_ok_modify:
  "module_ok m \<Longrightarrow> (\<And>c. cl_name (f c) = cl_name c) \<Longrightarrow> module_ok (modify_class n f m)"
  by (auto simp: module_ok_alt)

lemma module_ok_cong:
  "mo_classes m' = mo_classes m \<Longrightarrow> mo_protocols m' = mo_protocols m \<Longrightarrow> module_ok m' = module_ok m"
  by (simp add: module_ok_alt)

text \<open>Operations that leave the tables alone.\<close>

definition same_tables :: "oz_module \<Rightarrow> oz_module \<Rightarrow> bool" where
  "same_tables m m' \<longleftrightarrow> mo_classes m' = mo_classes m \<and> mo_protocols m' = mo_protocols m"

lemma same_tables_refl [simp]: "same_tables m m"
  by (simp add: same_tables_def)

lemma same_tables_trans: "same_tables a b \<Longrightarrow> same_tables b c \<Longrightarrow> same_tables a c"
  by (simp add: same_tables_def)

lemma same_tables_ok: "same_tables m m' \<Longrightarrow> module_ok m' = module_ok m"
  unfolding same_tables_def by (intro module_ok_cong) simp_all

lemma same_tables_fold:
  "(\<And>x u. x \<in> set xs \<Longrightarrow> same_tables u (f x u)) \<Longrightarrow> same_tables m (fold f xs m)"
  by (rule fold_invariant_set [where P = "same_tables m"]) (auto intro: same_tables_trans)

lemma collect_block_vars_tables: "same_tables m (collect_block_vars n m)"
proof -
  have one: "same_tables m (block_var n m)" for n m
    by (simp add: block_var_def same_tables_def Let_def)
  have "collect_block_vars n m = fold block_var (nodes n) m"
    by (rule fold_walk_nodes) (rule collect_block_vars.simps)
  then show ?thesis using one by (simp add: same_tables_fold)
qed

lemma collect_property_tables: "same_tables m (snd (collect_property n m))"
  by (simp add: collect_property_def Let_def same_tables_def add_error_def)

lemma collect_function_tables: "same_tables m (collect_function n m)"
proof -
  have "same_tables m (collect_block_vars b m)" for b by (rule collect_block_vars_tables)
  then show ?thesis
    by (auto simp: collect_function_def Let_def same_tables_def split: option.splits)
qed

lemma collect_static_var_tables: "same_tables m (collect_static_var n m)"
  by (simp add: collect_static_var_def Let_def same_tables_def add_diag_def)

lemma collect_defs_tables:
  "same_tables m (collect_enum_def n m)" "same_tables m (collect_union_def n m)"
  "same_tables m (collect_struct_def n m)"
  by (simp_all add: collect_enum_def_def collect_union_def_def collect_struct_def_def Let_def
      same_tables_def)

lemma interface_children_tables:
  "same_tables m (snd (snd (snd (fold interface_child cs (ivs, ps, prs, m)))))"
proof -
  have "same_tables m (snd (snd (snd s))) \<Longrightarrow> same_tables m (snd (snd (snd (interface_child c s))))" for c s
    using collect_property_tables [of "snd (snd (snd s))" c] same_tables_trans
    by (cases s) (auto simp: interface_child_def split: prod.splits option.splits)
  then show ?thesis
    by (intro fold_invariant_set [where P = "\<lambda>s. same_tables m (snd (snd (snd s)))"]) auto
qed

lemma collect_interface_ok: "module_ok m \<Longrightarrow> module_ok (collect_interface n m)"
proof -
  assume ok: "module_ok m"
  show ?thesis
  proof (cases "jname n = []")
    case False
    define s where "s = fold interface_child (jinner n)
        ([], filter (\<lambda>n. n \<noteq> []) (map jname (jarr n ''protocols'')), [], m)"
    obtain ivs ps prs m1 where s: "s = (ivs, ps, prs, m1)" by (cases s) auto
    have "same_tables m (snd (snd (snd s)))" unfolding s_def by (rule interface_children_tables)
    then have ok1: "module_ok m1" using ok s same_tables_ok [of m m1] by simp
    have named: "cl_name c = jname n" if "cls_of m1 (jname n) = Some c" for c
      using ok1 that by (rule module_ok_name)
    show ?thesis
      using False s ok1 named
      by (auto simp: collect_interface_def Let_def s_def [symmetric] OZClass_def
          split: option.splits intro!: module_ok_put)
  qed (simp add: collect_interface_def ok)
qed

lemma implementation_child_keeps:
  "same_tables m (snd s) \<Longrightarrow> same_tables m (snd (implementation_child n c s))"
  "cl_name (fst (implementation_child n c s)) = cl_name (fst s)"
  using same_tables_trans [OF _ collect_block_vars_tables]
  by (cases s; auto simp: implementation_child_def same_tables_def add_error_def link_property_impl_def
      Let_def split: option.splits)+

lemma collect_implementation_ok: "module_ok m \<Longrightarrow> module_ok (collect_implementation n m)"
proof -
  assume ok: "module_ok m"
  have loop: "same_tables m (snd (fold (implementation_child k) cs s)) \<and>
      cl_name (fst (fold (implementation_child k) cs s)) = cl_name (fst s)"
    if "same_tables m (snd s)" for k cs s
    using that by (induction cs arbitrary: s) (auto simp: implementation_child_keeps)
  show ?thesis
  proof (cases "jname n = []")
    case False
    define superclass where "superclass = jstr_opt (jobj n ''super'') ''name''"
    define c0 where "c0 = (case cls_of m (jname n) of Some c \<Rightarrow> c | None \<Rightarrow> OZClass (jname n) superclass)"
    define c1 where "c1 = (if str_truthy superclass \<and> \<not> str_truthy (cl_superclass c0)
        then c0\<lparr>cl_superclass := superclass\<rparr> else c0)"
    have "cl_name c0 = jname n"
      using module_ok_name [OF ok] by (auto simp: c0_def OZClass_def split: option.splits)
    then have name: "cl_name c1 = jname n" by (simp add: c1_def)
    obtain c2 m2 where s: "fold (implementation_child (jname n)) (jinner n) (c1, m) = (c2, m2)"
      by fastforce
    with loop [of "(c1, m)" "jname n" "jinner n"] name
    have "same_tables m m2" "cl_name c2 = jname n" by simp_all
    then have "module_ok (m2\<lparr>mo_classes := dput (jname n) c2 (mo_classes m2)\<rparr>)"
      using ok same_tables_ok by (intro module_ok_put) auto
    moreover have "collect_implementation n m = m2\<lparr>mo_classes := dput (jname n) c2 (mo_classes m2)\<rparr>"
      using False
      by (simp only: collect_implementation_def Let_def superclass_def [symmetric] c0_def [symmetric]
          c1_def [symmetric] s if_False prod.case)
    ultimately show ?thesis by simp
  qed (simp add: collect_implementation_def ok)
qed

lemma collect_protocol_ok: "module_ok m \<Longrightarrow> module_ok (collect_protocol n m)"
  by (simp add: collect_protocol_def module_ok_alt Let_def)

lemma collect_category_ok: "module_ok m \<Longrightarrow> module_ok (collect_category n m)"
  by (auto simp: collect_category_def Let_def OZClass_def split: option.splits
      intro!: module_ok_put dest: module_ok_name)

lemma collect_leaf_ok: "module_ok m \<Longrightarrow> module_ok (collect_leaf n lf m)"
proof -
  assume ok: "module_ok m"
  have keep: "same_tables m m' \<Longrightarrow> module_ok m'" for m' using ok same_tables_ok by blast
  have main: "module_ok (m\<lparr>mo_main_impl_classes := x\<rparr>) = module_ok m" for m x
    by (rule module_ok_cong) simp_all
  show ?thesis
    unfolding collect_leaf_def Let_def
    by (simp add: main ok collect_implementation_ok collect_protocol_ok collect_category_ok
        keep [OF collect_function_tables] keep [OF collect_defs_tables(1)]
        keep [OF collect_defs_tables(2)] keep [OF collect_defs_tables(3)]
        keep [OF collect_static_var_tables])
qed

lemma walk_ok: "module_ok m \<Longrightarrow> module_ok (walk n lf m)"
proof (induction n lf m rule: walk.induct)
  case (1 n lf m)
  let ?lf = "file_after n lf"
  let ?m1 = "if jkind n = ''ObjCInterfaceDecl'' then collect_interface n m else m"
  have m1: "module_ok ?m1" using "1.prems" collect_interface_ok by simp
  have loop: "module_ok (snd (fold (\<lambda>child (lf, m). let lf' = file_after child lf in (lf', walk child lf' m))
                  cs (lf0, m0)))"
    if "set cs \<subseteq> set (jinner n)" "module_ok m0" "\<not> walk_stops (jkind n)" for cs lf0 m0
    using that
  proof (induction cs arbitrary: lf0 m0)
    case (Cons c cs)
    have "module_ok (walk c (file_after c lf0) m0)"
      using "1.IH" [OF refl Cons.prems(3) refl] Cons.prems(1,2) by simp
    then show ?case using Cons by (simp add: Let_def)
  qed simp
  show ?case
    using "1.prems" loop [OF subset_refl m1] collect_leaf_ok
    by (subst walk.simps) (simp add: Let_def)
qed

lemma source_tables:
  "same_tables m (scan_includes w p m)" "same_tables m (scan_header_verbatim w p m)"
  "same_tables m (source_verbatim_loop w d src ns m)"
proof -
  have inc: "same_tables m (add_user_include w d l m)" for d l m
    by (simp add: add_user_include_def same_tables_def)
  show "same_tables m (scan_includes w p m)"
    by (auto simp: scan_includes_def Let_def inc intro!: same_tables_fold)
  have "same_tables m (header_verbatim_loop src ns m)" for src ns m
    by (induction src ns m rule: header_verbatim_loop.induct)
       (auto simp: same_tables_def split: option.splits)
  then show "same_tables m (scan_header_verbatim w p m)"
    by (simp add: scan_header_verbatim_def Let_def)
  show "same_tables m (source_verbatim_loop w d src ns m)"
    using inc by (induction w d src ns m rule: source_verbatim_loop.induct)
      (auto simp: same_tables_def)
qed

lemma collect_verbatim_tables: "same_tables m (collect_verbatim_lines w ast m)"
proof -
  have "same_tables m (scan_header_verbatim w h (scan_includes w h m))" for h m
    using source_tables(1,2) same_tables_trans by blast
  then have "same_tables m (fold (\<lambda>h m. scan_header_verbatim w h (scan_includes w h m)) hs m)" for hs
    by (intro same_tables_fold)
  then have "same_tables m (source_verbatim_loop w d src ns
      (fold (\<lambda>h m. scan_header_verbatim w h (scan_includes w h m)) hs m))" for d src ns hs
    using source_tables(3) same_tables_trans by blast
  then show ?thesis
    unfolding collect_verbatim_lines_def Let_def by (simp split: option.split)
qed

lemma scan_unsupported_tables: "same_tables m (scan_unsupported n m)"
proof (induction n arbitrary: m rule: nodes.induct)
  case (1 n)
  then show ?case
    by (subst scan_unsupported.simps) (auto simp: same_tables_def add_error_def Let_def
        intro!: same_tables_fold [unfolded same_tables_def])
qed

lemma distribute_ok: "module_ok m \<Longrightarrow> module_ok (distribute_verbatim_to_classes m)"
proof -
  assume ok: "module_ok m"
  have other: "module_ok (m\<lparr>mo_user_includes := x\<rparr>) = module_ok m"
    "module_ok (m\<lparr>mo_verbatim_lines := y\<rparr>) = module_ok m"
    "module_ok (m\<lparr>mo_header_verbatim_lines := y\<rparr>) = module_ok m" for m x y
    by (rule module_ok_cong; simp)+
  have many: "module_ok m \<Longrightarrow> module_ok (m\<lparr>mo_classes := fold (\<lambda>n. dict_modify n g) ns (mo_classes m)\<rparr>)"
    if "\<And>c. cl_name (g c) = cl_name c" for g ns m
    using that
  proof (induction ns arbitrary: m)
    case (Cons n ns)
    have "module_ok (modify_class n g m)" using Cons.prems by (intro module_ok_modify)
    with Cons.IH [of "modify_class n g m"] Cons.prems(2) show ?case by simp
  qed simp
  define m1 where "m1 = (if mo_user_includes m \<noteq> []
      then m\<lparr>mo_classes := fold (\<lambda>n. dict_modify n (\<lambda>c. c\<lparr>cl_user_includes :=
                 add_all_new (mo_user_includes m) (cl_user_includes c)\<rparr>)) (impl_class_names m) (mo_classes m),
             mo_user_includes := []\<rparr> else m)"
  have ok1: "module_ok m1" using ok many by (simp add: m1_def other)
  define m2 where "m2 = (if length (impl_class_names m) = 1 \<and> mo_verbatim_lines m1 \<noteq> []
      then (modify_class (hd (impl_class_names m))
              (\<lambda>c. c\<lparr>cl_verbatim_lines := mo_verbatim_lines m1\<rparr>) m1)\<lparr>mo_verbatim_lines := []\<rparr>
      else m1)"
  have ok2: "module_ok m2" using ok1 by (auto simp: m2_def other intro!: module_ok_modify)
  have ok3: "module_ok ((modify_class t (\<lambda>c. c\<lparr>cl_header_verbatim_lines :=
        add_all_new x (cl_header_verbatim_lines c)\<rparr>) m2)\<lparr>mo_header_verbatim_lines := []\<rparr>)" for t x
    unfolding other by (rule module_ok_modify [OF ok2]) simp
  show ?thesis
    unfolding distribute_verbatim_to_classes_def Let_def m1_def [symmetric] m2_def [symmetric]
    using ok ok2 ok3 by simp
qed

lemma module_ok_pop: "module_ok m \<Longrightarrow> module_ok (m\<lparr>mo_classes := dict_pop k (mo_classes m)\<rparr>)"
  by (simp add: module_ok_alt del: set_map)

lemma collect_ok: "module_ok (collect w ast)"
proof -
  define m1 where "m1 = walk ast [] OZModule"
  have "module_ok m1" unfolding m1_def by (rule walk_ok) simp
  then have "module_ok (m1\<lparr>mo_classes := fold dict_pop ks (mo_classes m1)\<rparr>)" for ks
  proof (induction ks arbitrary: m1)
    case (Cons k ks)
    from Cons.IH [OF module_ok_pop [OF Cons.prems]] show ?case by simp
  qed simp
  moreover define m2 where "m2 = m1\<lparr>mo_classes := fold dict_pop SKIP_CLASSES (mo_classes m1)\<rparr>"
  ultimately have ok2: "module_ok m2" by simp
  define m3 where "m3 = (case find_main_file ast of
      Some f \<Rightarrow> if f \<noteq> [] \<and> w_is_file w f then m2\<lparr>mo_source_path := Some f\<rparr> else m2 | None \<Rightarrow> m2)"
  have "same_tables m2 m3" by (simp add: m3_def same_tables_def split: option.split)
  then have "module_ok m3" using ok2 same_tables_ok by simp
  then have "module_ok (scan_unsupported ast (collect_verbatim_lines w ast m3))"
    using same_tables_ok [OF collect_verbatim_tables] same_tables_ok [OF scan_unsupported_tables] by simp
  then have "module_ok (distribute_verbatim_to_classes
      (scan_unsupported ast (collect_verbatim_lines w ast m3)))" by (rule distribute_ok)
  moreover have "collect w ast = distribute_verbatim_to_classes
      (scan_unsupported ast (collect_verbatim_lines w ast m3))"
    by (simp only: collect_def Let_def m1_def [symmetric] m2_def [symmetric] m3_def [symmetric])
  ultimately show ?thesis by simp
qed

subsection \<open>Merging\<close>

lemma merge_class_name [simp]: "cl_name (merge_class a b) = cl_name b"
  by (simp add: merge_class_def)

lemma merge_class_into_ok:
  assumes "distinct (dkeys cs)" and "\<forall>n c. dget cs n = Some c \<longrightarrow> cl_name c = n"
    and "\<forall>(n, c) \<in> set ncs. cl_name c = n"
  shows "distinct (dkeys (fold merge_class_into ncs cs)) \<and>
     (\<forall>n c. dget (fold merge_class_into ncs cs) n = Some c \<longrightarrow> cl_name c = n) \<and>
     set (dkeys (fold merge_class_into ncs cs)) = set (dkeys cs) \<union> set (dkeys ncs)"
  using assms
proof (induction ncs arbitrary: cs)
  case (Cons nc ncs)
  obtain n c where nc: "nc = (n, c)" by fastforce
  let ?cs = "merge_class_into nc cs"
  define d where "d = (case dget cs n of Some e \<Rightarrow> merge_class c e | None \<Rightarrow> c)"
  have put: "?cs = dput n d cs" by (simp add: merge_class_into_def nc d_def split: option.split)
  have "cl_name d = n"
    using Cons.prems(2,3) by (cases "dget cs n") (simp_all add: d_def nc)
  with Cons.prems(1,2) have "distinct (dkeys ?cs)" "\<forall>n c. dget ?cs n = Some c \<longrightarrow> cl_name c = n"
    "set (dkeys ?cs) = insert n (set (dkeys cs))"
    unfolding put dkeys_dput dget_dput by (simp_all only: distinct_add_new set_add_new) simp
  with Cons.IH [of ?cs] Cons.prems(3) nc show ?case by auto
qed simp

lemma merge_one_ok:
  assumes "module_ok m" and "module_ok merged"
  shows "module_ok (merge_one m merged)"
proof -
  have "\<forall>(n, c) \<in> set (mo_classes m). cl_name c = n" using assms(1) by (simp add: module_ok_def)
  with assms(2) merge_class_into_ok [of "mo_classes merged" "mo_classes m"]
  have "distinct (dkeys (fold merge_class_into (mo_classes m) (mo_classes merged)))"
    "\<forall>n c. dget (fold merge_class_into (mo_classes m) (mo_classes merged)) n = Some c \<longrightarrow> cl_name c = n"
    unfolding module_ok_alt by blast+
  then show ?thesis unfolding module_ok_alt merge_one_def using assms(2) [unfolded module_ok_alt]
    by (simp del: set_map)
qed

lemma merge_modules_ok: "(\<And>m. m \<in> set ms \<Longrightarrow> module_ok m) \<Longrightarrow> module_ok (merge_modules ms)"
  unfolding merge_modules_def
  by (rule fold_invariant_set [where P = module_ok]) (auto intro: merge_one_ok)

lemma associate_ok: "module_ok m \<Longrightarrow> module_ok (associate_module_items_with_class m)"
proof -
  have clear: "module_ok (clear_items m) = module_ok m" for m
    by (rule module_ok_cong) (simp_all add: clear_items_def)
  have orphan: "module_ok (m\<lparr>mo_orphan_sources := x\<rparr>) = module_ok m" for m x
    by (rule module_ok_cong) simp_all
  have give: "module_ok m \<Longrightarrow> module_ok (modify_class p (give_items m') m)" for p m'
    by (rule module_ok_modify) (simp_all add: give_items_def)
  assume "module_ok m"
  then show ?thesis
    by (auto simp: associate_module_items_with_class_def make_orphan_def clear orphan give
        split: option.split)
qed

subsection \<open>Properties\<close>

text \<open>
  C17. Whatever AST Clang dumps and whatever the source file holds, the collected module is
  well formed: class and protocol names are unique and every class is stored under its own
  name.
\<close>

theorem collect_well_formed:
  "distinct (dkeys (mo_classes (collect w ast))) \<and> distinct (dkeys (mo_protocols (collect w ast))) \<and>
   (\<forall>n c. cls_of (collect w ast) n = Some c \<longrightarrow> cl_name c = n)"
  using collect_ok [of w ast] unfolding module_ok_alt .

definition empty_world :: world where
  "empty_world = \<lparr>w_cwd = ''/'', w_is_file = (\<lambda>p. False), w_read = (\<lambda>p. []),
     w_ts_parse = (\<lambda>s. TsNode [] 0 0 (0, 0) [] [] []), w_captures = (\<lambda>q n. [])\<rparr>"

definition led_ast :: json where
  "led_ast = JObj [(''inner'', JArr
     [JObj [(''kind'', JStr ''ObjCInterfaceDecl''), (''name'', JStr ''Led'')]])]"

lemma led_collected: "\<exists>c. cls_of (collect empty_world led_ast) ''Led'' = Some c"
proof -
  have "cls_of (collect empty_world led_ast) ''Led'' \<noteq> None" by code_simp
  then show ?thesis by blast
qed

theorem collect_well_formed_witness:
  "\<exists>c. cls_of (collect empty_world led_ast) ''Led'' = Some c \<and> cl_name c = ''Led''"
  using led_collected collect_well_formed [of empty_world led_ast] by blast

lemma scan_unsupported_errors:
  "\<exists>es. mo_errors (scan_unsupported n m) = mo_errors m @ es \<and>
     (es = [] \<longleftrightarrow> \<not> (\<exists>x \<in> set (nodes n). jkind x = ''RecoveryExpr'' \<or> jkind x \<in> set UNSUPPORTED_AST_KINDS))"
proof (induction n arbitrary: m rule: nodes.induct)
  case (1 n)
  let ?bad = "\<lambda>x. jkind x = ''RecoveryExpr'' \<or> jkind x \<in> set UNSUPPORTED_AST_KINDS"
  show ?case
  proof (cases "?bad n")
    case True
    then have "\<exists>x \<in> set (nodes n). ?bad x" using self_in_nodes by blast
    with True show ?thesis
      by (subst scan_unsupported.simps) (auto simp: add_error_def Let_def)
  next
    case False
    have loop: "\<exists>es. mo_errors (fold scan_unsupported cs u) = mo_errors u @ es \<and>
        (es = [] \<longleftrightarrow> \<not> (\<exists>c \<in> set cs. \<exists>x \<in> set (nodes c). ?bad x))"
      if "set cs \<subseteq> set (jinner n)" for cs u
      using that
    proof (induction cs arbitrary: u)
      case (Cons c cs)
      from "1.IH" [of c u] Cons.prems obtain e1 where
        e1: "mo_errors (scan_unsupported c u) = mo_errors u @ e1"
        "e1 = [] \<longleftrightarrow> \<not> (\<exists>x \<in> set (nodes c). ?bad x)" by auto
      from Cons.IH [of "scan_unsupported c u"] Cons.prems obtain e2 where
        "mo_errors (fold scan_unsupported cs (scan_unsupported c u)) = mo_errors (scan_unsupported c u) @ e2"
        "e2 = [] \<longleftrightarrow> \<not> (\<exists>c \<in> set cs. \<exists>x \<in> set (nodes c). ?bad x)" by auto
      with e1 show ?case by (intro exI [of _ "e1 @ e2"]) auto
    qed simp
    from False loop [OF subset_refl, of m] show ?thesis
      by (subst scan_unsupported.simps) (auto simp: set_nodes [of n])
  qed
qed

text \<open>
  C36. The scan for unsupported features is complete and sound: it only appends errors, and
  it appends one exactly when some node of the tree, at any depth, is a \<open>RecoveryExpr\<close> or a
  \<open>@try\<close> statement.
\<close>

theorem scan_unsupported_iff:
  "take (length (mo_errors m)) (mo_errors (scan_unsupported n m)) = mo_errors m \<and>
   (mo_errors (scan_unsupported n m) = mo_errors m \<longleftrightarrow>
      \<not> (\<exists>x \<in> set (nodes n). jkind x = ''RecoveryExpr'' \<or> jkind x = ''ObjCAtTryStmt''))"
proof -
  from scan_unsupported_errors [of n m] obtain es where
    es: "mo_errors (scan_unsupported n m) = mo_errors m @ es"
    "es = [] \<longleftrightarrow> \<not> (\<exists>x \<in> set (nodes n). jkind x = ''RecoveryExpr'' \<or> jkind x \<in> set UNSUPPORTED_AST_KINDS)"
    by blast
  then show ?thesis by (simp add: UNSUPPORTED_AST_KINDS_def)
qed

text \<open>
  Variables captured for modification become statics: the walk over a body appends one
  static for every named and typed \<open>__block\<close> variable of the subtree, in source order, with
  its initial value, and nothing else.
\<close>

theorem collect_block_vars_statics:
  "mo_statics (collect_block_vars n m) = mo_statics m @
     map (\<lambda>v. \<lparr>sv_name = jname v, sv_type = OZType (qual_type v []), sv_init_value = extract_init_value v\<rparr>)
       (filter (\<lambda>v. jkind v = ''VarDecl'' \<and> list_ex (\<lambda>c. jkind c = ''BlocksAttr'') (jinner v)
                   \<and> jname v \<noteq> [] \<and> qual_type v [] \<noteq> []) (nodes n))"
proof -
  have "collect_block_vars n m = fold block_var (nodes n) m"
    by (rule fold_walk_nodes) (rule collect_block_vars.simps)
  moreover have "mo_statics (fold block_var vs m) = mo_statics m @
     map (\<lambda>v. \<lparr>sv_name = jname v, sv_type = OZType (qual_type v []), sv_init_value = extract_init_value v\<rparr>)
       (filter (\<lambda>v. jkind v = ''VarDecl'' \<and> list_ex (\<lambda>c. jkind c = ''BlocksAttr'') (jinner v)
                   \<and> jname v \<noteq> [] \<and> qual_type v [] \<noteq> []) vs)" for vs
    by (induction vs arbitrary: m) (auto simp: block_var_def has_blocks_attr_def Let_def)
  ultimately show ?thesis by simp
qed

lemma merge_method_selectors:
  "map me_selector (merge_method me mes) =
     (if me_selector me \<in> set (map me_selector mes) then map me_selector mes
      else map me_selector mes @ [me_selector me])"
  by (induction mes) auto

lemma merge_methods_selectors:
  "map me_selector (fold merge_method news mes) = add_all_new (map me_selector news) (map me_selector mes)"
proof (induction news arbitrary: mes)
  case (Cons me news)
  have "map me_selector (merge_method me mes) = add_new (me_selector me) (map me_selector mes)"
    by (simp only: merge_method_selectors add_new_def)
  with Cons show ?case by (simp only: fold_Cons comp_apply list.map add_all_new_Cons)
qed simp

lemma merge_method_body:
  "\<exists>x \<in> set (merge_method me mes). me_selector x = me_selector me
      \<and> (body_truthy (me_body_ast me) \<longrightarrow> body_truthy (me_body_ast x))"
  by (induction mes) auto

lemma merge_method_keeps_body:
  "x \<in> set mes \<Longrightarrow> body_truthy (me_body_ast x)
   \<Longrightarrow> \<exists>y \<in> set (merge_method me mes). me_selector y = me_selector x \<and> body_truthy (me_body_ast y)"
  by (induction mes) auto

lemma fold_merge_method_body:
  "(\<exists>x \<in> set mes \<union> set news. me_selector x = sel \<and> body_truthy (me_body_ast x))
   \<Longrightarrow> \<exists>y \<in> set (fold merge_method news mes). me_selector y = sel \<and> body_truthy (me_body_ast y)"
proof (induction news arbitrary: mes)
  case (Cons me news)
  from Cons.prems consider x where "x \<in> set mes" "me_selector x = sel" "body_truthy (me_body_ast x)"
    | "me_selector me = sel" "body_truthy (me_body_ast me)"
    | x where "x \<in> set news" "me_selector x = sel" "body_truthy (me_body_ast x)" by auto
  then have "\<exists>x \<in> set (merge_method me mes) \<union> set news. me_selector x = sel \<and> body_truthy (me_body_ast x)"
  proof cases
    case 1
    then show ?thesis using merge_method_keeps_body [of x mes me] by auto
  next
    case 2
    then show ?thesis using merge_method_body [of me mes] by auto
  qed auto
  from Cons.IH [OF this] show ?case by simp
qed auto

text \<open>
  Merging methods (of a category into its class, of a class seen in several units) keeps
  one method per selector in the order of first appearance, and a selector that has a body
  on either side has one in the result.
\<close>

theorem merge_methods_union:
  "map me_selector (fold merge_method news mes) =
     map me_selector mes @ filter (\<lambda>s. s \<notin> set (map me_selector mes)) (uniq (map me_selector news)) \<and>
   ((\<exists>x \<in> set mes \<union> set news. me_selector x = sel \<and> body_truthy (me_body_ast x)) \<longrightarrow>
    (\<exists>y \<in> set (fold merge_method news mes). me_selector y = sel \<and> body_truthy (me_body_ast y)))"
proof -
  have "add_all_new xs ys = ys @ filter (\<lambda>x. x \<notin> set ys) (uniq xs)" for xs ys :: "string list"
  proof -
    have "add_new x (ys @ filter (\<lambda>x. x \<notin> set ys) zs) = ys @ filter (\<lambda>x. x \<notin> set ys) (add_new x zs)"
      for x :: string and zs by (simp add: add_new_def)
    then have "add_all_new xs (ys @ filter (\<lambda>x. x \<notin> set ys) zs) = ys @ filter (\<lambda>x. x \<notin> set ys) (add_all_new xs zs)"
      for zs by (induction xs arbitrary: zs) (simp_all add: add_all_new_Cons)
    from this [of "[]"] show ?thesis by (simp add: uniq_def)
  qed
  then show ?thesis using fold_merge_method_body unfolding merge_methods_selectors by blast
qed

theorem merge_methods_union_witness:
  "\<exists>y \<in> set (fold merge_method [OZMethod ''blink'' (OZType ''void'')]
       [(OZMethod ''blink'' (OZType ''void''))\<lparr>me_body_ast := Some (JBool True)\<rparr>]).
     me_selector y = ''blink'' \<and> body_truthy (me_body_ast y)"
  using merge_methods_union [of "[OZMethod ''blink'' (OZType ''void'')]"
      "[(OZMethod ''blink'' (OZType ''void''))\<lparr>me_body_ast := Some (JBool True)\<rparr>]" "''blink''"]
  by (simp add: OZMethod_def body_truthy_def)

subsection \<open>No item is lost\<close>

lemma mset_dict_modify:
  "distinct (dkeys d) \<Longrightarrow> dget d p = Some c \<Longrightarrow>
   mset (concat (map h (dvals (dict_modify p f d)))) + mset (h c)
     = mset (concat (map h (dvals d))) + mset (h (f c))"
proof (induction d)
  case (Cons kv d)
  obtain k v where kv: "kv = (k, v)" by fastforce
  have other: "dict_modify p f d = d" if "p \<notin> set (dkeys d)"
    using that by (induction d) (auto simp: dict_modify_def)
  have cons: "dict_modify p f (kv # d) = (k, if k = p then f v else v) # dict_modify p f d"
    by (simp add: kv dict_modify_def)
  show ?case
  proof (cases "k = p")
    case True
    with Cons.prems kv have "v = c" "p \<notin> set (dkeys d)" by auto
    with True show ?thesis unfolding cons other [OF \<open>p \<notin> set (dkeys d)\<close>] by (simp add: kv)
  next
    case False
    with Cons kv have "mset (concat (map h (dvals (dict_modify p f d)))) + mset (h c)
       = mset (concat (map h (dvals d))) + mset (h (f c))" by auto
    with False show ?thesis unfolding cons by (simp add: kv add.assoc)
  qed
qed simp

lemma mset_dput:
  "distinct (dkeys d) \<Longrightarrow>
   mset (concat (map h (dvals (dput p c' d)))) + (case dget d p of Some c \<Rightarrow> mset (h c) | None \<Rightarrow> {#})
     = mset (concat (map h (dvals d))) + mset (h c')"
proof (induction d)
  case (Cons kv d)
  obtain k v where kv: "kv = (k, v)" by fastforce
  show ?case using Cons by (cases "k = p") (auto simp: kv add.assoc add.left_commute add.commute)
qed simp

text \<open>All functions (statics) of a module, wherever it holds them.\<close>

definition all_functions :: "oz_module \<Rightarrow> oz_function list" where
  "all_functions m = mo_functions m @ concat (map cl_functions (dvals (mo_classes m)))
     @ concat (map os_functions (mo_orphan_sources m))"

definition all_statics :: "oz_module \<Rightarrow> oz_static_var list" where
  "all_statics m = mo_statics m @ concat (map cl_statics (dvals (mo_classes m)))
     @ concat (map os_statics (mo_orphan_sources m))"

lemma primary_class_known:
  "primary_class cs p = Some n \<Longrightarrow> p = Some n \<or> n \<in> cl_name ` set cs"
  by (induction cs p rule: primary_class.induct) (auto split: if_splits)

lemma make_orphan_items:
  "mset (all_functions (make_orphan m)) = mset (all_functions m)"
  "mset (all_statics (make_orphan m)) = mset (all_statics m)"
  by (auto simp: make_orphan_def clear_items_def orphan_of_def all_functions_def all_statics_def)

text \<open>
  Associating the free items of a unit with its primary class, or with an orphan source,
  loses and duplicates no function and no static.
\<close>

theorem associate_conserves_items:
  assumes "module_ok m"
  shows "mset (all_functions (associate_module_items_with_class m)) = mset (all_functions m) \<and>
    mset (all_statics (associate_module_items_with_class m)) = mset (all_statics m)"
proof (cases "primary_class (dvals (mo_classes m)) None")
  case None
  then show ?thesis
    by (simp add: associate_module_items_with_class_def make_orphan_items)
next
  case (Some p)
  then have "p \<in> cl_name ` set (dvals (mo_classes m))" using primary_class_known by fastforce
  then obtain k c where kc: "(k, c) \<in> set (mo_classes m)" "cl_name c = p" by auto
  with assms have "k = p" by (auto simp: module_ok_def)
  with kc assms have get: "cls_of m p = Some c" by (auto simp: module_ok_def)
  have d: "distinct (dkeys (mo_classes m))" using assms by (simp add: module_ok_def)
  let ?d = "dict_modify p (give_items m) (mo_classes m)"
  have "mset (concat (map cl_functions (dvals ?d))) + mset (cl_functions c)
      = mset (concat (map cl_functions (dvals (mo_classes m)))) + mset (cl_functions c @ mo_functions m)"
    using mset_dict_modify [OF d get, of cl_functions "give_items m"] by (simp add: give_items_def)
  then have f: "mset (concat (map cl_functions (dvals ?d)))
      = mset (concat (map cl_functions (dvals (mo_classes m)))) + mset (mo_functions m)"
    by (simp add: add.assoc [symmetric])
  have "mset (concat (map cl_statics (dvals ?d))) + mset (cl_statics c)
      = mset (concat (map cl_statics (dvals (mo_classes m)))) + mset (cl_statics c @ mo_statics m)"
    using mset_dict_modify [OF d get, of cl_statics "give_items m"] by (simp add: give_items_def)
  then have s: "mset (concat (map cl_statics (dvals ?d)))
      = mset (concat (map cl_statics (dvals (mo_classes m)))) + mset (mo_statics m)"
    by (simp add: add.assoc [symmetric])
  from get have "mo_classes m \<noteq> []" by auto
  with Some f s show ?thesis
    by (simp add: associate_module_items_with_class_def clear_items_def all_functions_def
        all_statics_def)
qed

theorem associate_conserves_items_witness:
  "mset (all_functions (associate_module_items_with_class
     (OZModule\<lparr>mo_source_stem := ''main'', mo_functions := [\<lparr>fn_name = ''main'', fn_return_type = OZType ''int'',
        fn_params = [], fn_body_ast = None, fn_has_objc = False, fn_is_static = False\<rparr>]\<rparr>)))
   = {# \<lparr>fn_name = ''main'', fn_return_type = OZType ''int'',
        fn_params = [], fn_body_ast = None, fn_has_objc = False, fn_is_static = False\<rparr> #}"
  using associate_conserves_items [of "OZModule\<lparr>mo_source_stem := ''main'',
      mo_functions := [\<lparr>fn_name = ''main'', fn_return_type = OZType ''int'',
        fn_params = [], fn_body_ast = None, fn_has_objc = False, fn_is_static = False\<rparr>]\<rparr>"]
  by (simp add: module_ok_def OZModule_def all_functions_def)

lemma merge_class_into_items:
  assumes "distinct (dkeys cs)" and "\<And>c e. h (merge_class c e) = h e @ h c"
  shows "mset (concat (map h (dvals (fold merge_class_into ncs cs))))
     = mset (concat (map h (dvals cs))) + mset (concat (map h (dvals ncs)))"
  using assms(1)
proof (induction ncs arbitrary: cs)
  case (Cons nc ncs)
  obtain n c where nc: "nc = (n, c)" by fastforce
  define d where "d = (case dget cs n of Some e \<Rightarrow> merge_class c e | None \<Rightarrow> c)"
  have put: "merge_class_into nc cs = dput n d cs"
    by (simp add: merge_class_into_def nc d_def split: option.split)
  have "mset (concat (map h (dvals (dput n d cs)))) = mset (concat (map h (dvals cs))) + mset (h c)"
    using mset_dput [OF Cons.prems, of h n d] assms(2)
    by (cases "dget cs n") (auto simp: d_def add.assoc [symmetric])
  moreover have "distinct (dkeys (dput n d cs))" unfolding dkeys_dput using Cons.prems by simp
  ultimately show ?case using Cons.IH [of "dput n d cs"] by (simp add: put [unfolded nc] nc add.assoc)
qed simp

text \<open>
  C16. Merging the units loses no function, no static and no error message, keeps every
  class name and every protocol name, and keeps the module well formed.
\<close>

theorem merge_modules_conserves:
  assumes "\<forall>m \<in> set ms. module_ok m"
  shows "module_ok (merge_modules ms) \<and>
    mset (all_functions (merge_modules ms)) = mset (concat (map all_functions ms)) \<and>
    mset (all_statics (merge_modules ms)) = mset (concat (map all_statics ms)) \<and>
    mo_errors (merge_modules ms) = concat (map mo_errors ms) \<and>
    set (dkeys (mo_classes (merge_modules ms))) = (\<Union>m \<in> set ms. set (dkeys (mo_classes m))) \<and>
    set (dkeys (mo_protocols (merge_modules ms))) = (\<Union>m \<in> set ms. set (dkeys (mo_protocols m)))"
proof -
  have "module_ok (fold merge_one ms a) \<and>
    mset (all_functions (fold merge_one ms a)) = mset (all_functions a) + mset (concat (map all_functions ms)) \<and>
    mset (all_statics (fold merge_one ms a)) = mset (all_statics a) + mset (concat (map all_statics ms)) \<and>
    mo_errors (fold merge_one ms a) = mo_errors a @ concat (map mo_errors ms) \<and>
    set (dkeys (mo_classes (fold merge_one ms a))) = set (dkeys (mo_classes a)) \<union> (\<Union>m \<in> set ms. set (dkeys (mo_classes m))) \<and>
    set (dkeys (mo_protocols (fold merge_one ms a))) = set (dkeys (mo_protocols a)) \<union> (\<Union>m \<in> set ms. set (dkeys (mo_protocols m)))"
    if "\<forall>m \<in> set ms. module_ok m" "module_ok a" for a
    using that
  proof (induction ms arbitrary: a)
    case (Cons m ms)
    have okm: "module_ok m" using Cons.prems by simp
    have ok: "module_ok (merge_one m a)" using Cons.prems by (intro merge_one_ok) auto
    have d: "distinct (dkeys (mo_classes a))" using Cons.prems(2) by (simp add: module_ok_def)
    have "mset (all_functions (merge_one m a)) = mset (all_functions a) + mset (all_functions m)"
      using merge_class_into_items [OF d, of cl_functions "mo_classes m"]
      by (simp add: merge_class_def merge_one_def all_functions_def)
    moreover have "mset (all_statics (merge_one m a)) = mset (all_statics a) + mset (all_statics m)"
      using merge_class_into_items [OF d, of cl_statics "mo_classes m"]
      by (simp add: merge_class_def merge_one_def all_statics_def)
    moreover have "mo_errors (merge_one m a) = mo_errors a @ mo_errors m" by (simp add: merge_one_def)
    moreover have "set (dkeys (mo_classes (merge_one m a))) = set (dkeys (mo_classes a)) \<union> set (dkeys (mo_classes m))"
    proof -
      have "\<forall>(n, c) \<in> set (mo_classes m). cl_name c = n" using okm by (simp add: module_ok_def)
      with Cons.prems(2) merge_class_into_ok [OF d, of "mo_classes m"]
      have "set (dkeys (fold merge_class_into (mo_classes m) (mo_classes a)))
          = set (dkeys (mo_classes a)) \<union> set (dkeys (mo_classes m))"
        unfolding module_ok_alt by blast
      then show ?thesis by (simp add: merge_one_def del: set_map)
    qed
    moreover have "set (dkeys (mo_protocols (merge_one m a))) = set (dkeys (mo_protocols a)) \<union> set (dkeys (mo_protocols m))"
      by (simp add: merge_one_def dkeys_dict_update del: set_map) auto
    ultimately show ?case
      using Cons.IH [OF _ ok] Cons.prems(1)
      by (simp add: add.assoc Un_assoc del: set_map)
  qed simp
  from this [OF assms module_ok_OZModule] show ?thesis
    by (simp add: merge_modules_def all_functions_def all_statics_def OZModule_def)
qed

theorem merge_modules_conserves_witness:
  "mo_errors (merge_modules [OZModule\<lparr>mo_errors := [''a'']\<rparr>, OZModule\<lparr>mo_errors := [''b'']\<rparr>]) = [''a'', ''b'']"
  using merge_modules_conserves [of "[OZModule\<lparr>mo_errors := [''a'']\<rparr>, OZModule\<lparr>mo_errors := [''b'']\<rparr>]"]
  by (simp add: module_ok_def OZModule_def)

end
