(* ===== verification/Hierarchy_Facts.thy ===== *)
theory Hierarchy_Facts
  imports Hierarchy
begin

text \<open>
  What the hierarchy passes establish: the cycle check accepts exactly the acyclic
  modules, class ids are a topological numbering, base depths count the known proper
  ancestors, and on an accepted module every upward walk ends.
\<close>

subsection \<open>The cycle check\<close>

lemma super_rel_trancl_step:
  "(x, y) \<in> (super_rel m)\<^sup>+ \<Longrightarrow> (x, s) \<in> super_rel m \<Longrightarrow> (s, y) \<in> (super_rel m)\<^sup>*"
  by (metis super_rel_fun tranclD)

lemma super_rel_rtrancl_step:
  "(x, y) \<in> (super_rel m)\<^sup>* \<Longrightarrow> (x, s) \<in> super_rel m \<Longrightarrow> y = x \<or> (s, y) \<in> (super_rel m)\<^sup>*"
  by (metis rtranclD super_rel_trancl_step)

lemma cycle_walk_step:
  "n \<noteq> [] \<Longrightarrow>
   cycle_walk m V (Some n) = (if n \<in> set V then Some n else cycle_walk m (n # V) (up_of m n))"
  by (auto simp: up_of_def str_truthy_def split: option.splits)

lemma up_of_nonempty: "up_of m n \<noteq> Some []"
  by (auto simp: up_of_def str_truthy_def split: option.splits)

lemma cycle_walk_sound:
  "cycle_walk m V cur = Some y \<Longrightarrow> (\<forall>v \<in> set V. \<forall>c. cur = Some c \<longrightarrow> (v, c) \<in> (super_rel m)\<^sup>+)
   \<Longrightarrow> cur \<noteq> Some [] \<Longrightarrow> (y, y) \<in> (super_rel m)\<^sup>+"
proof (induction V cur rule: class_walk.loop_induct [where m = m])
  case (None V)
  then show ?case by simp
next
  case (Visited V x)
  then show ?case by (auto simp: cycle_walk_step simp del: cycle_walk.simps)
next
  case (Step V x)
  have walk: "cycle_walk m (x # V) (up_of m x) = Some y"
    using Step by (simp add: cycle_walk_step del: cycle_walk.simps)
  have "(v, c) \<in> (super_rel m)\<^sup>+" if "v \<in> set (x # V)" "up_of m x = Some c" for v c
  proof (cases "v = x")
    case True
    with that(2) show ?thesis by (auto simp: super_rel_def)
  next
    case False
    with that(1) Step.prems(2) have "(v, x) \<in> (super_rel m)\<^sup>+" by auto
    with that(2) show ?thesis by (auto simp: super_rel_def intro: trancl_into_trancl)
  qed
  with walk up_of_nonempty show ?case by (intro Step.IH) auto
qed

lemma cycle_walk_complete:
  "cycle_walk m V (Some n) = None \<Longrightarrow> n \<noteq> [] \<Longrightarrow> (n, y) \<in> (super_rel m)\<^sup>*
   \<Longrightarrow> (y, y) \<notin> (super_rel m)\<^sup>+"
proof (induction "Some n" arbitrary: n y rule: class_walk.loop_induct [where m = m])
  case (Visited V x)
  then show ?case by (auto simp: cycle_walk_step simp del: cycle_walk.simps)
next
  case (Step V x)
  have walk: "cycle_walk m (x # V) (up_of m x) = None"
    using Step by (auto simp: cycle_walk_step simp del: cycle_walk.simps)
  show ?case
  proof (cases "up_of m x")
    case None
    then have "(x, z) \<notin> super_rel m" for z by (simp add: super_rel_def)
    with Step.prems(3) have "y = x" by (metis converse_rtranclE)
    with \<open>\<And>z. (x, z) \<notin> super_rel m\<close> show ?thesis by (metis tranclD)
  next
    case (Some d)
    then have step: "(x, d) \<in> super_rel m" by (simp add: super_rel_def)
    have IH: "(d, z) \<in> (super_rel m)\<^sup>* \<Longrightarrow> (z, z) \<notin> (super_rel m)\<^sup>+" for z
      using Step.hyps(2) [OF Some, of z] walk Some up_of_nonempty [of m x] by (simp del: cycle_walk.simps)
    from super_rel_rtrancl_step [OF Step.prems(3) step] show ?thesis
      using IH super_rel_trancl_step [OF _ step] by blast
  qed
qed

lemma cyclic_in_keys: "(y, z) \<in> (super_rel m)\<^sup>+ \<Longrightarrow> y \<in> set (dkeys (mo_classes m))"
proof -
  assume "(y, z) \<in> (super_rel m)\<^sup>+"
  then obtain s where "(y, s) \<in> super_rel m" by (meson tranclD)
  then show ?thesis by (intro up_of_in_keys) (simp add: super_rel_def)
qed

lemma cyclic_nonempty: "(y, y) \<in> (super_rel m)\<^sup>+ \<Longrightarrow> y \<noteq> []"
proof
  assume "(y, y) \<in> (super_rel m)\<^sup>+" and "y = []"
  then obtain x where "(x, []) \<in> super_rel m" by (metis tranclD2)
  then show False by (simp add: super_rel_def up_of_nonempty)
qed

lemma efold_check:
  assumes "\<And>x s. f x s = (case g x of Some e \<Rightarrow> Inl (h x e) | None \<Rightarrow> Inr s)"
  shows "(\<exists>t. efold f xs s = Inr t) \<longleftrightarrow> (\<forall>x \<in> set xs. g x = None)"
    and "efold f xs s = Inr t \<Longrightarrow> t = s"
    and "efold f xs s = Inl err \<Longrightarrow> \<exists>x \<in> set xs. \<exists>e. g x = Some e \<and> err = h x e"
  by (induction xs arbitrary: s) (auto simp: assms split: option.splits)

lemma validate_hierarchy_unfold:
  "validate_hierarchy m =
     efold (\<lambda>cls m'. case cycle_walk m [] (Some (cl_name cls)) of
              Some cur \<Rightarrow> Inl (ValueErr (''inheritance cycle detected: '' @ cl_name cls
                                @ '' -> ... -> '' @ cur))
            | None \<Rightarrow> Inr m') (dvals (mo_classes m))
       (m\<lparr>mo_diagnostics := mo_diagnostics m @ missing_superclass_diags m\<rparr>)"
proof -
  have walk: "cycle_walk (m\<lparr>mo_diagnostics := d\<rparr>) V c = cycle_walk m V c" for d V c
  proof (induction m V c rule: cycle_walk.induct)
    case (2 m V n)
    then show ?case by (auto split: option.splits)
  qed simp
  have inv: "efold (\<lambda>cls m'. case cycle_walk m' [] (Some (cl_name cls)) of
              Some cur \<Rightarrow> Inl (ValueErr (''inheritance cycle detected: '' @ cl_name cls
                                @ '' -> ... -> '' @ cur))
            | None \<Rightarrow> Inr m') cs (m\<lparr>mo_diagnostics := d\<rparr>)
        = efold (\<lambda>cls m'. case cycle_walk m [] (Some (cl_name cls)) of
              Some cur \<Rightarrow> Inl (ValueErr (''inheritance cycle detected: '' @ cl_name cls
                                @ '' -> ... -> '' @ cur))
            | None \<Rightarrow> Inr m') cs (m\<lparr>mo_diagnostics := d\<rparr>)" for cs d
    by (induction cs) (auto simp: walk split: option.splits)
  show ?thesis unfolding validate_hierarchy_def Let_def by (simp add: inv del: cycle_walk.simps)
qed

lemma validate_hierarchy_Inr_iff:
  assumes "module_ok m"
  shows "(\<exists>m'. validate_hierarchy m = Inr m') \<longleftrightarrow> acyclic_module m"
proof -
  have "(\<exists>m'. validate_hierarchy m = Inr m')
        \<longleftrightarrow> (\<forall>cls \<in> set (dvals (mo_classes m)). cycle_walk m [] (Some (cl_name cls)) = None)"
    unfolding validate_hierarchy_unfold by (rule efold_check(1)) simp
  also have "\<dots> \<longleftrightarrow> (\<forall>n \<in> set (dkeys (mo_classes m)). cycle_walk m [] (Some n) = None)"
    using assms by (fastforce simp: module_ok_def)
  also have "\<dots> \<longleftrightarrow> acyclic_module m"
  proof
    assume all: "\<forall>n \<in> set (dkeys (mo_classes m)). cycle_walk m [] (Some n) = None"
    show "acyclic_module m" unfolding acyclic_module_def acyclic_def
    proof (intro allI notI)
      fix y assume cyc: "(y, y) \<in> (super_rel m)\<^sup>+"
      then have "cycle_walk m [] (Some y) = None" using all cyclic_in_keys by blast
      with cycle_walk_complete [of m "[]" y y] cyc cyclic_nonempty show False by blast
    qed
  next
    assume ac: "acyclic_module m"
    show "\<forall>n \<in> set (dkeys (mo_classes m)). cycle_walk m [] (Some n) = None"
    proof
      fix n assume "n \<in> set (dkeys (mo_classes m))"
      show "cycle_walk m [] (Some n) = None"
      proof (cases "n = []")
        case False
        then show ?thesis
          using cycle_walk_sound [of m "[]" "Some n"] ac
          by (cases "cycle_walk m [] (Some n)") (auto simp: acyclic_module_def acyclic_def)
      qed simp
    qed
  qed
  finally show ?thesis .
qed

lemma validate_hierarchy_Inr:
  "validate_hierarchy m = Inr m'
   \<Longrightarrow> m' = m\<lparr>mo_diagnostics := mo_diagnostics m @ missing_superclass_diags m\<rparr>"
  unfolding validate_hierarchy_unfold by (rule efold_check(2)) simp

subsection \<open>Class ids\<close>

text \<open>
  The state of the numbering is determined by the names numbered so far: the name at
  position \<open>i\<close> has id \<open>i\<close>.
\<close>

definition ids_of :: "string list \<Rightarrow> (string, int) dict" where
  "ids_of ks = zip ks (map int [0..<length ks])"

definition with_ids :: "(string, int) dict \<Rightarrow> (string, oz_class) dict \<Rightarrow> (string, oz_class) dict" where
  "with_ids ids classes =
     map (\<lambda>(k, c). (k, c\<lparr>cl_class_id := dget_or ids k (cl_class_id c)\<rparr>)) classes"

definition numbered :: "oz_module \<Rightarrow> string list \<Rightarrow> assign_state" where
  "numbered m ks = \<lparr>as_assigned = ids_of ks, as_next = int (length ks),
                    as_classes = with_ids (ids_of ks) (mo_classes m)\<rparr>"

text \<open>Known names, no name twice, each after its superclass.\<close>

definition topological :: "oz_module \<Rightarrow> string list \<Rightarrow> bool" where
  "topological m ks \<longleftrightarrow>
     distinct ks \<and> set ks \<subseteq> set (dkeys (mo_classes m)) \<and>
     (\<forall>i < length ks. \<forall>s. super_among (mo_classes m) (ks ! i) = Some s \<longrightarrow> s \<in> set (take i ks))"

lemma dkeys_ids_of [simp]: "dkeys (ids_of ks) = ks"
  by (simp add: ids_of_def)

lemma dget_ids_of_None [simp]: "dget (ids_of ks) k = None \<longleftrightarrow> k \<notin> set ks"
  by (metis dkeys_ids_of in_dkeys_iff)

lemma ids_of_snoc: "ids_of (ks @ [k]) = ids_of ks @ [(k, int (length ks))]"
  by (simp add: ids_of_def)

lemma dget_ids_of: "distinct ks \<Longrightarrow> i < length ks \<Longrightarrow> dget (ids_of ks) (ks ! i) = Some (int i)"
  by (simp add: ids_of_def map_of_zip_nth)

lemma dput_fresh: "dget d k = None \<Longrightarrow> dput k v d = d @ [(k, v)]"
  by (induction d) (auto split: if_splits)

lemma numbered_snoc:
  assumes "k \<notin> set ks"
  shows "numbered m (ks @ [k]) =
     (numbered m ks)\<lparr>as_assigned := dput k (as_next (numbered m ks)) (as_assigned (numbered m ks)),
        as_classes := dict_modify k (\<lambda>c. c\<lparr>cl_class_id := as_next (numbered m ks)\<rparr>)
                        (as_classes (numbered m ks)),
        as_next := as_next (numbered m ks) + 1\<rparr>"
proof -
  have *: "dget (ids_of (ks @ [k])) k' = (if k' = k then Some (int (length ks)) else dget (ids_of ks) k')"
    for k'
  proof -
    have "ids_of (ks @ [k]) = dput k (int (length ks)) (ids_of ks)"
      using assms by (simp add: ids_of_snoc dput_fresh)
    then show ?thesis by simp
  qed
  have "with_ids (ids_of (ks @ [k])) classes
      = dict_modify k (\<lambda>c. c\<lparr>cl_class_id := int (length ks)\<rparr>) (with_ids (ids_of ks) classes)" for classes
    by (auto simp: with_ids_def dict_modify_def * dget_or_def)
  then show ?thesis using assms by (simp add: numbered_def dput_fresh ids_of_snoc)
qed

lemma super_among_with_ids [simp]: "super_among (with_ids ids classes) n = super_among classes n"
proof -
  have *: "dget (with_ids ids classes) k
      = map_option (\<lambda>c. c\<lparr>cl_class_id := dget_or ids k (cl_class_id c)\<rparr>) (dget classes k)" for k
    by (induction classes) (auto simp: with_ids_def)
  show ?thesis by (auto simp: super_among_def * split: option.splits)
qed

lemma dget_with_ids:
  "dget (with_ids ids classes) k
     = map_option (\<lambda>c. c\<lparr>cl_class_id := dget_or ids k (cl_class_id c)\<rparr>) (dget classes k)"
  by (induction classes) (auto simp: with_ids_def)

lemma super_among_rel:
  "super_among (mo_classes m) n = Some s \<longleftrightarrow> (n, s) \<in> super_rel m \<and> cls_of m s \<noteq> None"
  by (auto simp: super_among_def super_rel_def up_of_def str_truthy_def
      split: option.splits if_splits)

lemma topological_snoc:
  "topological m ks \<Longrightarrow> k \<in> set (dkeys (mo_classes m)) \<Longrightarrow> k \<notin> set ks
   \<Longrightarrow> (\<And>s. super_among (mo_classes m) k = Some s \<Longrightarrow> s \<in> set ks) \<Longrightarrow> topological m (ks @ [k])"
  by (auto simp: topological_def nth_append less_Suc_eq)

lemma assign_numbered:
  assumes "acyclic_module m" and "topological m ks" and "n \<in> set (dkeys (mo_classes m))"
    and "rank m n < fuel"
  shows "\<exists>zs. assign fuel n (numbered m ks) = Inr (numbered m (ks @ zs)) \<and> topological m (ks @ zs)
            \<and> n \<in> set (ks @ zs) \<and> (\<forall>z \<in> set zs. (n, z) \<in> (super_rel m)\<^sup>*)"
  using assms(2-4)
proof (induction fuel arbitrary: n ks)
  case (Suc fuel)
  show ?case
  proof (cases "n \<in> set ks")
    case True
    then have "assign (Suc fuel) n (numbered m ks) = Inr (numbered m (ks @ []))"
      by (simp add: numbered_def)
    with True Suc.prems(1) show ?thesis by (intro exI [of _ "[]"]) simp
  next
    case False
    note snoc = numbered_snoc [of n, symmetric]
    show ?thesis
    proof (cases "super_among (mo_classes m) n")
      case None
      have "assign (Suc fuel) n (numbered m ks) = Inr (numbered m (ks @ [n]))"
        using False None snoc [of ks m] by (simp add: numbered_def)
      moreover have "topological m (ks @ [n])"
        using Suc.prems False None by (intro topological_snoc) auto
      ultimately show ?thesis by (intro exI [of _ "[n]"]) simp
    next
      case (Some s)
      then have rel: "(n, s) \<in> super_rel m" and known: "cls_of m s \<noteq> None"
        by (auto simp: super_among_rel)
      have "rank m s < fuel" using rank_less [OF assms(1) rel known] Suc.prems(3) by simp
      then obtain zs where zs: "assign fuel s (numbered m ks) = Inr (numbered m (ks @ zs))"
        "topological m (ks @ zs)" "s \<in> set (ks @ zs)" "\<forall>z \<in> set zs. (s, z) \<in> (super_rel m)\<^sup>*"
        using Suc.IH [OF Suc.prems(1), of s] known unfolding in_dkeys_iff by blast
      have "n \<notin> set zs"
      proof
        assume "n \<in> set zs"
        with zs(4) rel have "(n, n) \<in> (super_rel m)\<^sup>+" by (meson rtrancl_into_trancl2)
        with assms(1) show False by (simp add: acyclic_module_def acyclic_def)
      qed
      with False have fresh: "n \<notin> set (ks @ zs)" by simp
      have "assign (Suc fuel) n (numbered m ks) = Inr (numbered m ((ks @ zs) @ [n]))"
        using False Some zs(1) fresh unfolding numbered_snoc [OF fresh] by (simp add: numbered_def)
      moreover have "topological m ((ks @ zs) @ [n])"
        using zs(2,3) Suc.prems(2) fresh Some by (intro topological_snoc) auto
      moreover have "\<forall>z \<in> set (zs @ [n]). (n, z) \<in> (super_rel m)\<^sup>*"
        using zs(4) rel by (auto intro: converse_rtrancl_into_rtrancl)
      ultimately show ?thesis by (intro exI [of _ "zs @ [n]"]) simp
    qed
  qed
qed simp

lemma assign_all:
  assumes "acyclic_module m" and "set ns \<subseteq> set (dkeys (mo_classes m))" and "topological m ks"
  shows "\<exists>zs. efold (assign (hier_fuel m)) ns (numbered m ks) = Inr (numbered m (ks @ zs))
            \<and> topological m (ks @ zs) \<and> set ns \<subseteq> set (ks @ zs)"
  using assms(2,3)
proof (induction ns arbitrary: ks)
  case Nil
  then show ?case by (intro exI [of _ "[]"]) simp
next
  case (Cons n ns)
  have "rank m n < hier_fuel m" using rank_le [of m n] by (simp add: hier_fuel_def)
  then obtain ys where ys: "assign (hier_fuel m) n (numbered m ks) = Inr (numbered m (ks @ ys))"
    "topological m (ks @ ys)" "n \<in> set (ks @ ys)"
    using assign_numbered [OF assms(1) Cons.prems(2), of n "hier_fuel m"] Cons.prems(1)
    by (meson list.set_intros(1) subsetD)
  obtain zs where "efold (assign (hier_fuel m)) ns (numbered m (ks @ ys)) = Inr (numbered m ((ks @ ys) @ zs))"
    "topological m ((ks @ ys) @ zs)" "set ns \<subseteq> set ((ks @ ys) @ zs)"
    using Cons.IH [OF _ ys(2)] Cons.prems(1) by auto
  with ys show ?case by (intro exI [of _ "ys @ zs"]) auto
qed

lemma assign_class_ids_ok:
  assumes "acyclic_module m"
  shows "\<exists>ks. assign_class_ids m = Inr (m\<lparr>mo_classes := with_ids (ids_of ks) (mo_classes m)\<rparr>)
            \<and> topological m ks \<and> set ks = set (dkeys (mo_classes m))"
proof -
  have start: "\<lparr>as_assigned = [], as_next = 0, as_classes = mo_classes m\<rparr> = numbered m []"
    by (auto simp: numbered_def ids_of_def with_ids_def dget_or_def intro: map_idI [symmetric])
  have "topological m []" by (simp add: topological_def)
  from assign_all [OF assms _ this, of "sort (dkeys (mo_classes m))"]
  obtain ks where "efold (assign (hier_fuel m)) (sort (dkeys (mo_classes m))) (numbered m [])
      = Inr (numbered m ks)" "topological m ks" "set (dkeys (mo_classes m)) \<subseteq> set ks"
    by auto
  then show ?thesis unfolding assign_class_ids_def start
    by (intro exI [of _ ks]) (auto simp: numbered_def topological_def)
qed

subsection \<open>Base depths\<close>

lemma rank_root: "super_among (mo_classes m) n = None \<Longrightarrow> rank m n = 0"
proof -
  assume none: "super_among (mo_classes m) n = None"
  have "y \<notin> set (dkeys (mo_classes m))" if "(n, y) \<in> (super_rel m)\<^sup>+" for y
  proof -
    from that obtain s where s: "(n, s) \<in> super_rel m" "(s, y) \<in> (super_rel m)\<^sup>*" by (meson tranclD)
    with none have unknown: "cls_of m s = None" using super_among_rel [of m n s] by auto
    then have "(s, z) \<notin> super_rel m" for z by (simp add: super_rel_def up_of_def)
    with s(2) have "y = s" by (metis converse_rtranclE)
    with unknown show ?thesis by (metis in_dkeys_iff)
  qed
  then show ?thesis by (auto simp: rank_def)
qed

lemma rank_step:
  assumes "acyclic_module m" and "super_among (mo_classes m) n = Some s"
  shows "rank m n = Suc (rank m s)"
proof -
  let ?K = "set (dkeys (mo_classes m))"
  from assms(2) have rel: "(n, s) \<in> super_rel m" and "cls_of m s \<noteq> None"
    by (auto simp: super_among_rel)
  then have "s \<in> ?K" unfolding in_dkeys_iff by simp
  have "(n, y) \<in> (super_rel m)\<^sup>+ \<longleftrightarrow> y = s \<or> (s, y) \<in> (super_rel m)\<^sup>+" for y
    using rel super_rel_trancl_step [of n y m s]
    by (metis r_into_trancl rtranclD trancl_into_trancl2)
  then have "{y \<in> ?K. (n, y) \<in> (super_rel m)\<^sup>+} = insert s {y \<in> ?K. (s, y) \<in> (super_rel m)\<^sup>+}"
    using \<open>s \<in> ?K\<close> by auto
  moreover have "(s, s) \<notin> (super_rel m)\<^sup>+"
    using assms(1) by (simp add: acyclic_module_def acyclic_def)
  ultimately show ?thesis unfolding rank_def by simp
qed

text \<open>A cache is sound when every depth it holds is the number of known proper ancestors.\<close>

definition depths_sound :: "oz_module \<Rightarrow> (string, nat) dict \<Rightarrow> bool" where
  "depths_sound m cache \<longleftrightarrow> (\<forall>n d. dget cache n = Some d \<longrightarrow> d = rank m n)"

lemma depths_sound_put: "depths_sound m cache \<Longrightarrow> depths_sound m (dput n (rank m n) cache)"
  by (simp add: depths_sound_def)

lemma depth_rank:
  assumes "acyclic_module m" and "\<And>n. super_among classes n = super_among (mo_classes m) n"
    and "rank m n < fuel" and "depths_sound m cache"
  shows "\<exists>cache'. depth fuel classes n cache = Inr (rank m n, cache') \<and> depths_sound m cache'"
  using assms(3,4)
proof (induction fuel arbitrary: n cache)
  case (Suc fuel)
  show ?case
  proof (cases "dget cache n")
    case (Some d)
    with Suc.prems(2) show ?thesis by (auto simp: depths_sound_def)
  next
    case None
    show ?thesis
    proof (cases "super_among (mo_classes m) n")
      case root: None
      have "rank m n = 0" by (rule rank_root [OF root])
      with None root Suc.prems(2) show ?thesis
        using depths_sound_put [of m cache n] by (auto simp: assms(2))
    next
      case (Some s)
      have step: "rank m n = Suc (rank m s)" by (rule rank_step [OF assms(1) Some])
      with Suc.prems(1) have "rank m s < fuel" by simp
      with Suc.IH [OF this Suc.prems(2)] obtain c where
        "depth fuel classes s cache = Inr (rank m s, c)" "depths_sound m c" by blast
      with None Some step show ?thesis
        using depths_sound_put [of m c n] by (auto simp: assms(2))
    qed
  qed
qed simp

definition with_depths :: "oz_module \<Rightarrow> string set \<Rightarrow> (string, oz_class) dict" where
  "with_depths m D =
     map (\<lambda>(k, c). (k, if k \<in> D then c\<lparr>cl_base_depth := rank m k\<rparr> else c)) (mo_classes m)"

lemma super_among_with_depths [simp]:
  "super_among (with_depths m D) n = super_among (mo_classes m) n"
proof -
  have *: "dget (map (\<lambda>(k, c). (k, if k \<in> D then c\<lparr>cl_base_depth := rank m k\<rparr> else c)) cs) k
      = map_option (\<lambda>c. if k \<in> D then c\<lparr>cl_base_depth := rank m k\<rparr> else c) (dget cs k)" for k cs
    by (induction cs) auto
  show ?thesis by (auto simp: super_among_def with_depths_def * split: option.splits)
qed

lemma with_depths_modify:
  "dict_modify k (\<lambda>c. c\<lparr>cl_base_depth := rank m k\<rparr>) (with_depths m D) = with_depths m (insert k D)"
  by (auto simp: dict_modify_def with_depths_def)

lemma compute_base_depths_ok:
  assumes "module_ok m" and "acyclic_module m"
  shows "compute_base_depths m
      = Inr (m\<lparr>mo_classes := map (\<lambda>(k, c). (k, c\<lparr>cl_base_depth := rank m k\<rparr>)) (mo_classes m)\<rparr>)"
proof -
  let ?f = "\<lambda>(key, cls) (classes, cache).
              ebind (depth (hier_fuel m) classes (cl_name cls) cache)
                (\<lambda>(d, cache). Inr (dict_modify key (\<lambda>c. c\<lparr>cl_base_depth := d\<rparr>) classes, cache))"
  have loop: "\<forall>(k, c) \<in> set kcs. cl_name c = k \<Longrightarrow> depths_sound m cache \<Longrightarrow>
      \<exists>cache'. efold ?f kcs (with_depths m D, cache) = Inr (with_depths m (D \<union> fst ` set kcs), cache')"
    for kcs D cache
  proof (induction kcs arbitrary: D cache)
    case (Cons kc kcs)
    obtain k c where kc: "kc = (k, c)" by fastforce
    with Cons.prems have "cl_name c = k" by simp
    moreover have "rank m k < hier_fuel m" using rank_le [of m k] by (simp add: hier_fuel_def)
    then obtain cache' where "depth (hier_fuel m) (with_depths m D) k cache = Inr (rank m k, cache')"
      "depths_sound m cache'"
      using depth_rank [OF assms(2) super_among_with_depths _ Cons.prems(2)] by blast
    ultimately show ?case
      using Cons.IH [of cache' "insert k D"] Cons.prems(1) kc by (simp add: with_depths_modify)
  qed simp
  have start: "mo_classes m = with_depths m {}" by (auto simp: with_depths_def intro: map_idI [symmetric])
  have "\<forall>(k, c) \<in> set (mo_classes m). cl_name c = k" using assms(1) by (simp add: module_ok_def)
  moreover have "depths_sound m []" by (simp add: depths_sound_def)
  ultimately obtain cache' where
    "efold ?f (mo_classes m) (with_depths m {}, []) = Inr (with_depths m (fst ` set (mo_classes m)), cache')"
    using loop [of "mo_classes m" "[]" "{}"] by auto
  moreover have "with_depths m (fst ` set (mo_classes m))
      = map (\<lambda>(k, c). (k, c\<lparr>cl_base_depth := rank m k\<rparr>)) (mo_classes m)"
    by (force simp: with_depths_def)
  ultimately show ?thesis by (simp add: compute_base_depths_def start [symmetric])
qed

subsection \<open>Upward walks end\<close>

lemma super_in_step:
  assumes "cls_of m n = Some c" and "super_in m c = Some s"
  shows "(n, s) \<in> super_rel m" and "cls_of m s = Some (the (cls_of m s))"
    and "super_among (mo_classes m) n = Some s"
  using super_in_rel [OF assms] by (auto simp: super_among_rel)

lemma super_in_root:
  "cls_of m n = Some c \<Longrightarrow> super_in m c = None \<Longrightarrow> super_among (mo_classes m) n = None"
  by (auto simp: super_among_def super_in_def split: option.splits if_splits)

lemma climb_total:
  assumes "acyclic_module m" and "cls_of m n = Some c" and "rank m n < fuel"
  shows "\<exists>line. climb fuel m c = Some line \<and> length line = Suc (rank m n)"
  using assms(2,3)
proof (induction fuel arbitrary: n c)
  case (Suc fuel)
  show ?case
  proof (cases "super_in m c")
    case None
    with rank_root [OF super_in_root] Suc.prems(1) show ?thesis by simp
  next
    case (Some s)
    note up = super_in_step [OF Suc.prems(1) Some]
    have step: "rank m n = Suc (rank m s)" by (rule rank_step [OF assms(1) up(3)])
    with Suc.prems(2) have "rank m s < fuel" by simp
    with Suc.IH [OF up(2)] Some step show ?thesis by auto
  qed
qed simp

lemma climb_set:
  "climb fuel m c = Some line \<Longrightarrow> cls_of m n = Some c
   \<Longrightarrow> set line = {d. \<exists>y. (n, y) \<in> (super_rel m)\<^sup>* \<and> cls_of m y = Some d}"
proof (induction fuel arbitrary: n c line)
  case (Suc fuel)
  show ?case
  proof (cases "super_in m c")
    case None
    have "d = c" if "(n, y) \<in> (super_rel m)\<^sup>*" "cls_of m y = Some d" for y d
    proof (rule ccontr)
      assume "d \<noteq> c"
      with that(2) Suc.prems(2) have "y \<noteq> n" by auto
      with that(1) have "(n, y) \<in> (super_rel m)\<^sup>+" by (simp add: rtrancl_eq_or_trancl)
      moreover have "rank m n = 0" by (rule rank_root [OF super_in_root [OF Suc.prems(2) None]])
      ultimately have "y \<notin> set (dkeys (mo_classes m))" by (auto simp: rank_def)
      with that(2) show False by (metis in_dkeys_iff option.distinct(1))
    qed
    with None Suc.prems show ?thesis by auto
  next
    case (Some s)
    note up = super_in_step [OF Suc.prems(2) Some]
    from Suc.prems(1) Some obtain rest where
      rest: "climb fuel m (the (cls_of m s)) = Some rest" "line = c # rest" by auto
    have "(n, y) \<in> (super_rel m)\<^sup>* \<longleftrightarrow> y = n \<or> (s, y) \<in> (super_rel m)\<^sup>*" for y
      using up(1) super_rel_rtrancl_step [of n y m s] by (meson converse_rtrancl_into_rtrancl rtrancl.rtrancl_refl)
    with Suc.IH [OF rest(1) up(2)] rest(2) Suc.prems(2) show ?thesis by auto
  qed
qed simp

lemma class_line_known:
  assumes "acyclic_module m" and "cls_of m n = Some c"
  obtains line where "class_line m c = Some line" and "length line = Suc (rank m n)"
    and "set line = {d. \<exists>y. (n, y) \<in> (super_rel m)\<^sup>* \<and> cls_of m y = Some d}"
proof -
  have "rank m n < hier_fuel m" using rank_le [of m n] by (simp add: hier_fuel_def)
  then show ?thesis
    using climb_total [OF assms] climb_set [OF _ assms(2)] that unfolding class_line_def by blast
qed

text \<open>A loop that may stop early returns what the first stopping class of the line gives.\<close>

lemma climb_until_line:
  "climb fuel m c = Some line \<Longrightarrow> climb_until fuel m body c = Some (first_return body line)"
proof (induction fuel arbitrary: c line)
  case (Suc fuel)
  then show ?case by (cases "super_in m c") (auto split: option.splits)
qed simp

end
