(* ===== verification/Resolve_Methods.thy ===== *)
theory Resolve_Methods
  imports Hierarchy
begin

text \<open>
  The method passes of \<open>tools/oz_transpile/resolve.py\<close>: synthesis of property accessors,
  the duplicate check, dispatch classification, protocol conformance and the list of
  classes with \<open>+initialize\<close>.
\<close>

subsection \<open>_synthesize_properties\<close>

text \<open>\<open>f"set{name[0].upper()}{name[1:]}:"\<close>; an empty name has no first character.\<close>

definition default_setter_sel :: "string \<Rightarrow> string outcome" where
  "default_setter_sel name =
     (case name of [] \<Rightarrow> Inl IndexErr | c # cs \<Rightarrow> Inr (''set'' @ upper_char c # cs @ '':''))"

definition or_else :: "string option \<Rightarrow> string \<Rightarrow> string" where
  "or_else x d = (case x of Some s \<Rightarrow> if s \<noteq> [] then s else d | None \<Rightarrow> d)"

definition bare_ivar_warning :: "string \<Rightarrow> string \<Rightarrow> string" where
  "bare_ivar_warning name cls =
     ''warning: '' @ quoted (''@synthesize '' @ name @ '';'') @ '' uses bare ivar name ''
     @ quoted name @ '' in class '' @ quoted cls @ ''; prefer ''
     @ quoted (''@synthesize '' @ name @ '' = _'' @ name @ '';'')"

text \<open>\<open>existing_sels\<close> is the set of selectors of \<open>cls.methods\<close>, which grow together.\<close>

definition has_selector :: "oz_class \<Rightarrow> string \<Rightarrow> bool" where
  "has_selector cls sel \<longleftrightarrow> sel \<in> set (map me_selector (cl_methods cls))"

definition add_method :: "oz_method \<Rightarrow> oz_class \<Rightarrow> oz_class" where
  "add_method me cls = cls\<lparr>cl_methods := cl_methods cls @ [me]\<rparr>"

definition resolve_ivar_name :: "oz_class \<Rightarrow> oz_property \<Rightarrow> string \<times> string list" where
  "resolve_ivar_name cls p =
     (case pr_ivar_name p of
        Some iv \<Rightarrow> (iv, [])
      | None \<Rightarrow>
          if pr_name p \<in> set (map iv_name (cl_ivars cls))
          then (pr_name p, [bare_ivar_warning (pr_name p) (cl_name cls)])
          else (''_'' @ pr_name p, []))"

definition synth_getter :: "nat \<Rightarrow> oz_property \<Rightarrow> oz_class \<Rightarrow> oz_class" where
  "synth_getter i p cls =
     (let sel = or_else (pr_getter_sel p) (pr_name p) in
      if has_selector cls sel then cls
      else add_method ((OZMethod sel (pr_type p))\<lparr>me_synth := Some i\<rparr>) cls)"

definition synth_setter :: "nat \<Rightarrow> oz_property \<Rightarrow> oz_class \<Rightarrow> oz_class outcome" where
  "synth_setter i p cls =
     (if pr_is_readonly p then Inr cls
      else ebind (if str_truthy (pr_setter_sel p) then Inr (the (pr_setter_sel p))
                  else default_setter_sel (pr_name p))
             (\<lambda>sel. Inr (if has_selector cls sel then cls
                else add_method ((OZMethod sel (OZType ''void''))
                       \<lparr>me_params := [\<lparr>pa_name = pr_name p, pa_type = pr_type p\<rparr>],
                        me_synth := Some i\<rparr>) cls)))"

definition synth_property ::
    "nat \<times> oz_property \<Rightarrow> oz_class \<times> string list \<Rightarrow> (oz_class \<times> string list) outcome" where
  "synth_property = (\<lambda>(i, p) (cls, diags).
     let (iv, warn) = resolve_ivar_name cls p;
         cls1 = cls\<lparr>cl_properties := (cl_properties cls)[i := p\<lparr>pr_ivar_name := Some iv\<rparr>]\<rparr>
     in ebind (synth_setter i p (synth_getter i p cls1)) (\<lambda>cls2. Inr (cls2, diags @ warn)))"

definition synth_class :: "oz_class \<Rightarrow> (oz_class \<times> string list) outcome" where
  "synth_class cls =
     efold synth_property (zip [0..<length (cl_properties cls)] (cl_properties cls)) (cls, [])"

text \<open>The loop mutates one class after the other; \<open>visited\<close> holds the classes already visited.\<close>

definition synth_visit :: "string \<times> oz_class \<Rightarrow> (string, oz_class) dict \<times> string list
    \<Rightarrow> ((string, oz_class) dict \<times> string list) outcome" where
  "synth_visit = (\<lambda>(key, cls) (visited, diags).
     ebind (synth_class cls) (\<lambda>(cls', ds). Inr (visited @ [(key, cls')], diags @ ds)))"

definition synthesize_properties :: "oz_module \<Rightarrow> oz_module outcome" where
  "synthesize_properties m =
     ebind (efold synth_visit (mo_classes m) ([], []))
       (\<lambda>(classes, diags).
          Inr (m\<lparr>mo_classes := classes, mo_diagnostics := mo_diagnostics m @ diags\<rparr>))"

subsection \<open>_check_duplicate_methods\<close>

definition method_kind :: "oz_method \<Rightarrow> string" where
  "method_kind me = (if me_is_class_method me then ''class'' else ''instance'')"

definition duplicate_error :: "oz_class \<Rightarrow> oz_method \<Rightarrow> string" where
  "duplicate_error cls me =
     ''duplicate '' @ method_kind me @ '' method '' @ quoted (me_selector me) @ '' in ''
     @ quoted (cl_name cls)"

fun duplicate_errors :: "oz_class \<Rightarrow> oz_method list \<Rightarrow> string list \<Rightarrow> string list" where
  "duplicate_errors cls [] seen = []"
| "duplicate_errors cls (me # mes) seen =
     (let key = method_kind me @ '':'' @ me_selector me in
      (if key \<in> set seen then [duplicate_error cls me] else [])
      @ duplicate_errors cls mes (key # seen))"

definition check_duplicate_methods :: "oz_module \<Rightarrow> oz_module" where
  "check_duplicate_methods m =
     m\<lparr>mo_errors := mo_errors m
        @ concat (map (\<lambda>cls. duplicate_errors cls (cl_methods cls) []) (dvals (mo_classes m)))\<rparr>"

subsection \<open>_classify_dispatch\<close>

definition protocol_selectors :: "oz_module \<Rightarrow> string list" where
  "protocol_selectors m =
     concat (map (\<lambda>p. map me_selector (pc_methods p)) (dvals (mo_protocols m)))"

definition selector_classes :: "oz_module \<Rightarrow> (string, string list) dict" where
  "selector_classes m =
     fold (\<lambda>cls. fold (\<lambda>me d.
             if me_is_class_method me then d
             else dput (me_selector me) (add_new (cl_name cls) (dget_or d (me_selector me) [])) d)
           (cl_methods cls))
       (dvals (mo_classes m)) []"

definition always_protocol :: "string list" where
  "always_protocol = [''dealloc'', ''init'', ''isEqual:'', ''cDescription:maxLength:'']"

definition classify_method :: "string list \<Rightarrow> (string, string list) dict \<Rightarrow> oz_method \<Rightarrow> oz_method" where
  "classify_method protos impls me =
     (if me_is_class_method me then me
      else if me_selector me \<in> set protos then me\<lparr>me_dispatch := PROTOCOL\<rparr>
      else if me_selector me \<in> set always_protocol then me\<lparr>me_dispatch := PROTOCOL\<rparr>
      else if 1 < length (dget_or impls (me_selector me) []) then me\<lparr>me_dispatch := PROTOCOL\<rparr>
      else me)"

definition classify_dispatch :: "oz_module \<Rightarrow> oz_module" where
  "classify_dispatch m =
     (let protos = protocol_selectors m; impls = selector_classes m in
      m\<lparr>mo_classes :=
          map_vals (\<lambda>cls. cls\<lparr>cl_methods := map (classify_method protos impls) (cl_methods cls)\<rparr>)
            (mo_classes m)\<rparr>)"

subsection \<open>_collect_initialize_classes\<close>

fun ast_has_class_message :: "json \<Rightarrow> bool" where
  "ast_has_class_message node \<longleftrightarrow>
     (jkind node = ''ObjCMessageExpr'' \<and> jstr node ''selector'' [] = ''class''
      \<and> jstr node ''receiverKind'' [] = ''class'')
     \<or> (\<exists>child \<in> set (jinner node). ast_has_class_message child)"

declare ast_has_class_message.simps [simp del]

definition check_initialize_guard :: "string \<Rightarrow> oz_method \<Rightarrow> oz_module \<Rightarrow> oz_module" where
  "check_initialize_guard class_name me m =
     (case me_body_ast me of
        None \<Rightarrow> m
      | Some body \<Rightarrow>
          if jtrue body \<and> ast_has_class_message body
          then add_diag (''warning: +initialize guard '' @ quoted (''['' @ class_name @ '' class]'')
                 @ '' is unnecessary; Objective-Z calls +initialize exactly once per class via SYS_INIT'')
                 m
          else m)"

definition initialize_method :: "oz_class \<Rightarrow> oz_method option" where
  "initialize_method cls =
     find (\<lambda>me. me_is_class_method me \<and> me_selector me = ''initialize'') (cl_methods cls)"

definition collect_initialize_classes :: "oz_module \<Rightarrow> oz_module" where
  "collect_initialize_classes m =
     fold (\<lambda>cls m.
        case initialize_method cls of
          None \<Rightarrow> m
        | Some me \<Rightarrow>
            let m1 = check_initialize_guard (cl_name cls) me m in
            m1\<lparr>mo_initialize_classes := mo_initialize_classes m1 @ [cl_name cls]\<rparr>)
       (sort_key cl_class_id (dvals (mo_classes m))) m"

subsection \<open>_check_protocol_conformance\<close>

definition conformance_error :: "oz_class \<Rightarrow> string \<Rightarrow> oz_method \<Rightarrow> string" where
  "conformance_error cls proto_name pm =
     ''class '' @ quoted (cl_name cls) @ '' conforms to protocol '' @ quoted proto_name
     @ '' but does not implement required method '' @ quoted (me_selector pm)"

definition class_conformance_errors :: "oz_module \<Rightarrow> string list \<Rightarrow> oz_class \<Rightarrow> string list" where
  "class_conformance_errors m cls_sels cls =
     concat (map (\<lambda>proto_name.
        case dget (mo_protocols m) proto_name of
          None \<Rightarrow> []
        | Some proto \<Rightarrow>
            map (conformance_error cls proto_name)
              (filter (\<lambda>pm. me_selector pm \<notin> set cls_sels) (pc_methods proto)))
      (cl_protocols cls))"

definition check_protocol_conformance :: "oz_module \<Rightarrow> oz_module outcome" where
  "check_protocol_conformance m =
     efold (\<lambda>cls m.
        if cl_protocols cls = [] then Inr m
        else case class_line m cls of
          None \<Rightarrow> Inl Diverges
        | Some line \<Rightarrow>
            let cls_sels = concat (map (\<lambda>c. map me_selector (cl_methods c)) line) in
            Inr (m\<lparr>mo_errors := mo_errors m @ class_conformance_errors m cls_sels cls\<rparr>))
       (dvals (mo_classes m)) m"

end
