(* ===== verification/Resolve_Generics.thy ===== *)
theory Resolve_Generics
  imports Resolve_Methods
begin

text \<open>
  Generic types in \<open>tools/oz_transpile/resolve.py\<close>: the types found in the sources replace
  the erased ones of the model, and collection literals are checked against the
  constraints of the variables they are assigned to. \<open>resolve\<close> composes the passes.
\<close>

subsection \<open>_enrich_model_generics\<close>

definition enriched_type :: "oz_module \<Rightarrow> string \<Rightarrow> oz_type \<Rightarrow> oz_type" where
  "enriched_type m key t =
     (case dget (mo_generic_types m) key of
        None \<Rightarrow> t
      | Some e \<Rightarrow> if e \<noteq> [] \<and> generic_params t = [] then t\<lparr>raw_qual_type := e\<rparr> else t)"

text \<open>
  The \<open>OZType\<close> object of a property is the return type of its synthesized getter and the
  parameter type of its synthesized setter, so a write to one of the three is a write to
  all. \<open>set_prop_cell i t\<close> is that write.
\<close>

definition set_prop_cell :: "nat \<Rightarrow> oz_type \<Rightarrow> oz_class \<Rightarrow> oz_class" where
  "set_prop_cell i t cls =
     cls\<lparr>cl_properties := (cl_properties cls)[i := (cl_properties cls ! i)\<lparr>pr_type := t\<rparr>],
         cl_methods := map (\<lambda>me. if me_synth me = Some i
             then (if me_params me = [] then me\<lparr>me_return_type := t\<rparr>
                   else me\<lparr>me_params := map (\<lambda>p. p\<lparr>pa_type := t\<rparr>) (me_params me)\<rparr>)
             else me) (cl_methods cls)\<rparr>"

definition enrich_property :: "oz_module \<Rightarrow> nat \<Rightarrow> oz_class \<Rightarrow> oz_class" where
  "enrich_property m i cls =
     (let p = cl_properties cls ! i
      in set_prop_cell i (enriched_type m (pr_name p) (pr_type p)) cls)"

definition enrich_own_method :: "oz_module \<Rightarrow> oz_method \<Rightarrow> oz_method" where
  "enrich_own_method m me =
     me\<lparr>me_return_type := enriched_type m (''__return:'' @ me_selector me) (me_return_type me),
        me_params := map (\<lambda>p. p\<lparr>pa_type := enriched_type m (pa_name p) (pa_type p)\<rparr>) (me_params me)\<rparr>"

text \<open>A synthesized setter's own return type object is \<open>OZType("void")\<close>, shared with nobody.\<close>

definition enrich_method :: "oz_module \<Rightarrow> nat \<Rightarrow> oz_class \<Rightarrow> oz_class" where
  "enrich_method m k cls =
     (let me = cl_methods cls ! k in
      case me_synth me of
        None \<Rightarrow> cls\<lparr>cl_methods := (cl_methods cls)[k := enrich_own_method m me]\<rparr>
      | Some i \<Rightarrow>
          (case me_params me of
             [] \<Rightarrow> set_prop_cell i
                     (enriched_type m (''__return:'' @ me_selector me) (me_return_type me)) cls
           | p # ps \<Rightarrow>
               set_prop_cell i (enriched_type m (pa_name p) (pa_type p))
                 (cls\<lparr>cl_methods := (cl_methods cls)[k := me\<lparr>me_return_type :=
                        enriched_type m (''__return:'' @ me_selector me) (me_return_type me)\<rparr>]\<rparr>)))"

definition enrich_class :: "oz_module \<Rightarrow> oz_class \<Rightarrow> oz_class" where
  "enrich_class m cls =
     (let c1 = cls\<lparr>cl_ivars := map (\<lambda>iv. iv\<lparr>iv_type := enriched_type m (iv_name iv) (iv_type iv)\<rparr>)
                                 (cl_ivars cls)\<rparr>;
          c2 = fold (enrich_property m) [0..<length (cl_properties c1)] c1
      in fold (enrich_method m) [0..<length (cl_methods c2)] c2)"

definition enrich_function :: "oz_module \<Rightarrow> oz_function \<Rightarrow> oz_function" where
  "enrich_function m f =
     f\<lparr>fn_return_type := enriched_type m (''__return:'' @ fn_name f) (fn_return_type f),
       fn_params := map (\<lambda>p. p\<lparr>pa_type := enriched_type m (pa_name p) (pa_type p)\<rparr>) (fn_params f)\<rparr>"

definition enrich_model_generics :: "oz_module \<Rightarrow> oz_module" where
  "enrich_model_generics m =
     (if mo_generic_types m = [] then m
      else m\<lparr>mo_classes := map_vals (enrich_class m) (mo_classes m),
             mo_functions := map (enrich_function m) (mo_functions m)\<rparr>)"

subsection \<open>Class names and hierarchy queries\<close>

definition OZ_NS_ALIASES :: "(string, string) dict" where
  "OZ_NS_ALIASES =
     [(''NSArray'', ''OZArray''), (''NSDictionary'', ''OZDictionary''),
      (''NSString'', ''OZString''), (''NSNumber'', ''OZQ31''), (''NSObject'', ''OZObject'')]"

definition normalize_class :: "string \<Rightarrow> string" where
  "normalize_class name = dget_or OZ_NS_ALIASES name name"

definition ident_prefix :: "string \<Rightarrow> string option" where
  "ident_prefix s =
     (case s of [] \<Rightarrow> None
      | c # cs \<Rightarrow> if is_ident_start c then Some (c # takeWhile is_word_char cs) else None)"

definition extract_class_name :: "string \<Rightarrow> string option" where
  "extract_class_name qt =
     (let qt = strip qt in if startswith qt ''id'' then None else ident_prefix qt)"

function conforms_walk :: "oz_module \<Rightarrow> string \<Rightarrow> string list \<Rightarrow> string option \<Rightarrow> bool" where
  "conforms_walk m protocol visited None = False"
| "conforms_walk m protocol visited (Some name) =
     (if name = [] \<or> name \<in> set visited then False
      else case cls_of m name of
             None \<Rightarrow> False
           | Some cls \<Rightarrow>
               if protocol \<in> set (cl_protocols cls) then True
               else conforms_walk m protocol (name # visited) (cl_superclass cls))"
  by pat_completeness auto
termination
proof (relation "measure (\<lambda>(m, p, V, cur). card (set (dkeys (mo_classes m)) - set V))", goal_cases)
  case (2 m p V n c)
  then have "n \<in> set (dkeys (mo_classes m))" unfolding in_dkeys_iff by simp
  with 2 show ?case using card_unvisited_less_list by fastforce
qed simp

definition class_conforms_to :: "string \<Rightarrow> string \<Rightarrow> oz_module \<Rightarrow> bool" where
  "class_conforms_to class_name protocol m =
     conforms_walk m protocol [] (Some (normalize_class class_name))"

function subclass_walk :: "oz_module \<Rightarrow> string \<Rightarrow> string list \<Rightarrow> string option \<Rightarrow> bool" where
  "subclass_walk m target visited None = False"
| "subclass_walk m target visited (Some name) =
     (if name = [] \<or> name \<in> set visited then False
      else if name = target then True
      else case cls_of m name of
             None \<Rightarrow> False
           | Some cls \<Rightarrow> subclass_walk m target (name # visited) (cl_superclass cls))"
  by pat_completeness auto
termination
proof (relation "measure (\<lambda>(m, p, V, cur). card (set (dkeys (mo_classes m)) - set V))", goal_cases)
  case (2 m p V n c)
  then have "n \<in> set (dkeys (mo_classes m))" unfolding in_dkeys_iff by simp
  with 2 show ?case using card_unvisited_less_list by fastforce
qed simp

definition is_same_or_subclass :: "string \<Rightarrow> string \<Rightarrow> oz_module \<Rightarrow> bool" where
  "is_same_or_subclass class_name target m =
     subclass_walk m (normalize_class target) [] (Some (normalize_class class_name))"

subsection \<open>Constraints\<close>

text \<open>\<open>re.match(r"id<(\w+)>", s)\<close>, group 1.\<close>

definition id_proto :: "string \<Rightarrow> string option" where
  "id_proto s =
     (if startswith s ''id<''
      then let w = takeWhile is_word_char (drop 3 s) in
           if w \<noteq> [] \<and> startswith (drop (3 + length w) s) ''>'' then Some w else None
      else None)"

text \<open>\<open>re.sub(r"<.*>$", "", s)\<close>.\<close>

fun drop_generic_tail :: "string \<Rightarrow> string" where
  "drop_generic_tail [] = []"
| "drop_generic_tail (c # cs) =
     (if c = CHR ''<'' \<and> cs \<noteq> [] \<and> last cs = CHR ''>'' \<and> nl \<notin> set cs then []
      else c # drop_generic_tail cs)"

definition satisfies_constraint :: "string \<Rightarrow> string \<Rightarrow> oz_module \<Rightarrow> bool" where
  "satisfies_constraint elem_type constraint m =
     (case id_proto constraint of
        Some required_proto \<Rightarrow>
          (case id_proto elem_type of
             Some p \<Rightarrow> p = required_proto
           | None \<Rightarrow> (case extract_class_name elem_type of
                        None \<Rightarrow> True
                      | Some c \<Rightarrow> class_conforms_to c required_proto m))
      | None \<Rightarrow>
          (let constraint_class = drop_generic_tail (strip (rstrip_ptr constraint)) in
           case extract_class_name elem_type of
             None \<Rightarrow> True
           | Some c \<Rightarrow> is_same_or_subclass c constraint_class m))"

fun unwrap_implicit_cast :: "json \<Rightarrow> json" where
  "unwrap_implicit_cast node =
     (if jkind node = ''ImplicitCastExpr''
      then (case jinner node of [] \<Rightarrow> node | c # cs \<Rightarrow> unwrap_implicit_cast c)
      else node)"

declare unwrap_implicit_cast.simps [simp del]

definition original_type :: "json \<Rightarrow> string" where
  "original_type node = qual_type (unwrap_implicit_cast node) []"

definition generic_params_from_expr :: "json \<Rightarrow> (string, string list) dict \<Rightarrow> string list" where
  "generic_params_from_expr node generic_vars =
     (if jkind node = ''DeclRefExpr''
      then let params = generic_params (OZType (qual_type node [])) in
           if params \<noteq> [] then params
           else dget_or generic_vars (jname (jobj node ''referencedDecl'')) []
      else [])"

definition class_or_type :: "string \<Rightarrow> string" where
  "class_or_type qt = (case extract_class_name qt of None \<Rightarrow> qt | Some c \<Rightarrow> c)"

definition validate_array_generics ::
    "json \<Rightarrow> string list \<Rightarrow> string \<Rightarrow> oz_module \<Rightarrow> string list" where
  "validate_array_generics node params var_qt m =
     (case params of
        [] \<Rightarrow> []
      | constraint # _ \<Rightarrow>
          if constraint = ''id'' then []
          else concat (map (\<lambda>elem.
             let elem_type = original_type elem in
             if elem_type = [] \<or> elem_type = ''id'' then []
             else if satisfies_constraint elem_type constraint m then []
             else [''generic type mismatch: '' @ quoted (class_or_type elem_type)
                   @ '' does not satisfy constraint '' @ quoted constraint
                   @ '' (required by '' @ quoted (class_or_type var_qt @ ''<'' @ constraint @ ''>'')
                   @ '')'']) (jinner node)))"

definition dict_item_errors ::
    "string \<Rightarrow> string \<Rightarrow> string \<Rightarrow> json \<Rightarrow> oz_module \<Rightarrow> string list" where
  "dict_item_errors what constraint required item m =
     (if constraint = ''id'' then []
      else let ty = original_type item in
           if ty \<noteq> [] \<and> ty \<noteq> ''id'' \<and> \<not> satisfies_constraint ty constraint m
           then [''generic type mismatch: '' @ what @ '' '' @ quoted (class_or_type ty)
                 @ '' does not satisfy constraint '' @ quoted constraint
                 @ '' (required by '' @ quoted required @ '')'']
           else [])"

fun dict_pair_errors ::
    "string \<Rightarrow> string \<Rightarrow> string \<Rightarrow> json list \<Rightarrow> oz_module \<Rightarrow> string list" where
  "dict_pair_errors kc vc required (k # v # items) m =
     dict_item_errors ''key'' kc required k m @ dict_item_errors ''value'' vc required v m
     @ dict_pair_errors kc vc required items m"
| "dict_pair_errors kc vc required [k] m = dict_item_errors ''key'' kc required k m"
| "dict_pair_errors kc vc required [] m = []"

definition validate_dict_generics ::
    "json \<Rightarrow> string list \<Rightarrow> string \<Rightarrow> oz_module \<Rightarrow> string list" where
  "validate_dict_generics node params var_qt m =
     (case params of
        kc # vc # _ \<Rightarrow>
          dict_pair_errors kc vc (class_or_type var_qt @ ''<'' @ kc @ '', '' @ vc @ ''>'')
            (jinner node) m
      | _ \<Rightarrow> [])"

definition literal_errors :: "json \<Rightarrow> string list \<Rightarrow> string \<Rightarrow> oz_module \<Rightarrow> string list" where
  "literal_errors e params qt m =
     (if jkind e = ''ObjCArrayLiteral'' then validate_array_generics e params qt m
      else if jkind e = ''ObjCDictionaryLiteral'' then validate_dict_generics e params qt m
      else [])"

subsection \<open>_walk_generic_validation\<close>

type_synonym generic_state = "(string, string list) dict \<times> string list"

definition var_generic_type :: "oz_module \<Rightarrow> json \<Rightarrow> string \<times> string list" where
  "var_generic_type m node =
     (let qt = qual_type node []; params = generic_params (OZType qt); name = jname node in
      if params = [] \<and> name \<noteq> []
      then case dget (mo_generic_types m) name of
             None \<Rightarrow> (qt, params)
           | Some qt' \<Rightarrow> (qt', generic_params (OZType qt'))
      else (qt, params))"

definition generic_decl :: "oz_module \<Rightarrow> json \<Rightarrow> generic_state \<Rightarrow> generic_state" where
  "generic_decl m node st =
     (let (qt, params) = var_generic_type m node; name = jname node in
      if params \<noteq> [] \<and> name \<noteq> []
      then (dput name params (fst st),
            snd st @ concat (map (\<lambda>child. literal_errors (unwrap_implicit_cast child) params qt m)
                              (jinner node)))
      else st)"

definition generic_assign :: "oz_module \<Rightarrow> json \<Rightarrow> generic_state \<Rightarrow> generic_state" where
  "generic_assign m node st =
     (case jinner node of
        a # b # _ \<Rightarrow>
          (let lhs = unwrap_implicit_cast a; rhs = unwrap_implicit_cast b;
               params = generic_params_from_expr lhs (fst st)
           in if params \<noteq> [] then (fst st, snd st @ literal_errors rhs params (qual_type lhs []) m)
              else st)
      | _ \<Rightarrow> st)"

definition generic_step :: "oz_module \<Rightarrow> json \<Rightarrow> generic_state \<Rightarrow> generic_state" where
  "generic_step m node st =
     (if jkind node = ''VarDecl'' then generic_decl m node st
      else if jkind node = ''BinaryOperator'' \<and> jstr node ''opcode'' [] = ''=''
      then generic_assign m node st
      else st)"

fun walk_generic_validation :: "oz_module \<Rightarrow> json \<Rightarrow> generic_state \<Rightarrow> generic_state" where
  "walk_generic_validation m node st =
     fold (walk_generic_validation m) (jinner node) (generic_step m node st)"

declare walk_generic_validation.simps [simp del]

definition body_generic_errors :: "oz_module \<Rightarrow> json option \<Rightarrow> string list" where
  "body_generic_errors m body =
     (if body_truthy body then snd (walk_generic_validation m (the body) ([], [])) else [])"

definition validate_generic_types :: "oz_module \<Rightarrow> oz_module" where
  "validate_generic_types m0 =
     (let m = enrich_model_generics m0 in
      m\<lparr>mo_errors := mo_errors m
          @ concat (map (\<lambda>cls.
               concat (map (body_generic_errors m \<circ> me_body_ast) (cl_methods cls))
               @ concat (map (body_generic_errors m \<circ> fn_body_ast) (cl_functions cls)))
              (dvals (mo_classes m)))
          @ concat (map (body_generic_errors m \<circ> fn_body_ast) (mo_functions m))
          @ concat (map (\<lambda>os. concat (map (body_generic_errors m \<circ> fn_body_ast) (os_functions os)))
              (mo_orphan_sources m))\<rparr>)"

subsection \<open>resolve\<close>

definition resolve :: "oz_module \<Rightarrow> oz_module outcome" where
  "resolve m =
     ebind (validate_hierarchy m) (\<lambda>m.
     ebind (synthesize_properties m) (\<lambda>m.
     ebind (assign_class_ids (check_duplicate_methods m)) (\<lambda>m.
     ebind (compute_base_depths m) (\<lambda>m.
     ebind (check_protocol_conformance (classify_dispatch m)) (\<lambda>m.
     Inr (collect_initialize_classes (validate_generic_types m)))))))"

end
