(* ===== verification/Resolve_Facts.thy ===== *)
theory Resolve_Facts
  imports Hierarchy_Facts Resolve_Generics
begin

text \<open>
  What \<open>resolve\<close> establishes. The passes between the cycle check and the end leave the
  names and superclasses of all classes alone (their \<open>shape\<close>), so acyclicity, established
  once, serves every later walk; the rest are the contracts of the single passes.
\<close>

subsection \<open>The shape of a module\<close>

definition shape :: "oz_module \<Rightarrow> (string \<times> string \<times> string option) list" where
  "shape m = map (\<lambda>(k, c). (k, cl_name c, cl_superclass c)) (mo_classes m)"

lemma shape_keys: "shape m = shape m' \<Longrightarrow> dkeys (mo_classes m) = dkeys (mo_classes m')"
proof -
  assume "shape m = shape m'"
  then have "map fst (shape m) = map fst (shape m')" by simp
  then show ?thesis by (simp add: shape_def comp_def case_prod_unfold)
qed

lemma dget_shape: "map_option snd (dget (shape m) n) = map_option cl_superclass (cls_of m n)"
proof -
  have "map_option snd (map_of (map (\<lambda>(k, c). (k, cl_name c, cl_superclass c)) cs) n)
      = map_option cl_superclass (map_of cs n)" for cs
    by (induction cs) auto
  then show ?thesis by (simp add: shape_def)
qed

lemma shape_super: "shape m = shape m' \<Longrightarrow> super_rel m = super_rel m'"
  by (rule hierarchy_cong) (metis dget_shape)

lemma shape_acyclic: "shape m = shape m' \<Longrightarrow> acyclic_module m \<longleftrightarrow> acyclic_module m'"
  unfolding acyclic_module_def by (drule shape_super) simp

lemma shape_rank: "shape m = shape m' \<Longrightarrow> rank m n = rank m' n"
  unfolding rank_def by (frule shape_super, drule shape_keys) simp

lemma shape_ok:
  assumes "shape m = shape m'" and "mo_protocols m = mo_protocols m'"
  shows "module_ok m \<longleftrightarrow> module_ok m'"
proof -
  have "(\<forall>(k, c) \<in> set (mo_classes m). cl_name c = k) \<longleftrightarrow> (\<forall>(k, n, s) \<in> set (shape m). n = k)" for m
    by (auto simp: shape_def)
  then show ?thesis unfolding module_ok_def using assms shape_keys [OF assms(1)] by simp
qed

lemma shape_same_classes: "mo_classes m' = mo_classes m \<Longrightarrow> shape m' = shape m"
  by (simp add: shape_def)

lemma shape_map:
  "(\<And>k c. cl_name (f k c) = cl_name c \<and> cl_superclass (f k c) = cl_superclass c)
   \<Longrightarrow> shape (m\<lparr>mo_classes := map (\<lambda>(k, c). (k, f k c)) (mo_classes m)\<rparr>) = shape m"
  by (auto simp: shape_def)

subsection \<open>Synthesized accessors\<close>

definition getter_of :: "oz_property \<Rightarrow> string" where
  "getter_of p = or_else (pr_getter_sel p) (pr_name p)"

definition setter_of :: "oz_property \<Rightarrow> string" where
  "setter_of p =
     (case pr_setter_sel p of
        Some (c # cs) \<Rightarrow> c # cs
      | _ \<Rightarrow> ''set'' @ upper_char (hd (pr_name p)) # tl (pr_name p) @ '':'')"

text \<open>
  The reference of an accessor to its property: position in range, and the accessor's type
  is the type object of the property.
\<close>

definition accessor_ok :: "oz_class \<Rightarrow> oz_method \<Rightarrow> bool" where
  "accessor_ok cls me =
     (case me_synth me of
        None \<Rightarrow> True
      | Some i \<Rightarrow> i < length (cl_properties cls) \<and>
          (if me_params me = [] then me_return_type me = pr_type (cl_properties cls ! i)
           else list_all (\<lambda>p. pa_type p = pr_type (cl_properties cls ! i)) (me_params me)))"

definition accessors_ok :: "oz_class \<Rightarrow> bool" where
  "accessors_ok cls \<longleftrightarrow> list_all (accessor_ok cls) (cl_methods cls)"

text \<open>What one step of the loop keeps and adds.\<close>

definition synth_step :: "oz_class \<Rightarrow> oz_class \<Rightarrow> bool" where
  "synth_step a b \<longleftrightarrow>
     cl_name b = cl_name a \<and> cl_superclass b = cl_superclass a \<and> cl_ivars b = cl_ivars a \<and>
     cl_protocols b = cl_protocols a \<and>
     map pr_type (cl_properties b) = map pr_type (cl_properties a) \<and>
     (\<exists>new. cl_methods b = cl_methods a @ new \<and>
        (\<forall>me \<in> set new. me_synth me \<noteq> None \<and> me_body_ast me = None \<and> \<not> me_is_class_method me)) \<and>
     (distinct (map me_selector (cl_methods a)) \<longrightarrow> distinct (map me_selector (cl_methods b))) \<and>
     (accessors_ok a \<longrightarrow> accessors_ok b)"

lemma synth_step_refl [simp]: "synth_step c c"
  by (simp add: synth_step_def)

lemma synth_step_trans: "synth_step a b \<Longrightarrow> synth_step b c \<Longrightarrow> synth_step a c"
  unfolding synth_step_def by auto

lemma accessor_ok_cong:
  "map pr_type (cl_properties a) = map pr_type (cl_properties b) \<Longrightarrow> accessor_ok a me = accessor_ok b me"
proof -
  assume eq: "map pr_type (cl_properties a) = map pr_type (cl_properties b)"
  then have "length (cl_properties a) = length (cl_properties b)" by (metis length_map)
  moreover have "pr_type (cl_properties a ! i) = pr_type (cl_properties b ! i)"
    if "i < length (cl_properties a)" for i
    using that eq calculation by (metis nth_map)
  ultimately show ?thesis by (auto simp: accessor_ok_def split: option.splits)
qed

lemma synth_step_add:
  assumes "\<not> has_selector c (me_selector me)" and "accessor_ok c me" and "me_synth me \<noteq> None"
    and "me_body_ast me = None" and "\<not> me_is_class_method me"
  shows "synth_step c (add_method me c)"
proof -
  have "accessor_ok (add_method me c) = accessor_ok c"
    by (intro ext accessor_ok_cong) (simp add: add_method_def)
  with assms show ?thesis
    by (auto simp: synth_step_def add_method_def accessors_ok_def has_selector_def)
qed

lemma accessors_set_ivar:
  assumes "i < length (cl_properties c)" and "cl_properties c ! i = p"
  shows "synth_step c (c\<lparr>cl_properties := (cl_properties c)[i := p\<lparr>pr_ivar_name := iv\<rparr>]\<rparr>)"
proof -
  have "map pr_type ((cl_properties c)[i := p\<lparr>pr_ivar_name := iv\<rparr>]) = map pr_type (cl_properties c)"
    using assms by (metis (no_types, lifting) list_update_id map_update oz_property.select_convs(2)
        oz_property.surjective oz_property.update_convs(3))
  moreover from this have "accessor_ok (c\<lparr>cl_properties := (cl_properties c)[i := p\<lparr>pr_ivar_name := iv\<rparr>]\<rparr>)
      = accessor_ok c"
    by (intro ext accessor_ok_cong) simp
  ultimately show ?thesis by (simp add: synth_step_def accessors_ok_def)
qed

lemma synth_getter_step:
  assumes "i < length (cl_properties c)" and "pr_type (cl_properties c ! i) = pr_type p"
  shows "synth_step c (synth_getter i p c)" and "has_selector (synth_getter i p c) (getter_of p)"
  using assms
  by (auto simp: synth_getter_def getter_of_def Let_def accessor_ok_def OZMethod_def add_method_def
      has_selector_def intro!: synth_step_add [unfolded add_method_def has_selector_def])

lemma setter_sel_cases:
  "ebind (if str_truthy (pr_setter_sel p) then Inr (the (pr_setter_sel p))
          else default_setter_sel (pr_name p)) f
   = (if \<not> str_truthy (pr_setter_sel p) \<and> pr_name p = [] then Inl IndexErr else f (setter_of p))"
  by (auto simp: str_truthy_def setter_of_def default_setter_sel_def
      split: option.splits list.splits)

lemma synth_setter_step:
  assumes "i < length (cl_properties c)" and "pr_type (cl_properties c ! i) = pr_type p"
    and "synth_setter i p c = Inr c'"
  shows "synth_step c c'" and "\<not> pr_is_readonly p \<longrightarrow> has_selector c' (setter_of p)"
  using assms
  by (auto simp: synth_setter_def setter_sel_cases Let_def accessor_ok_def OZMethod_def add_method_def
      has_selector_def split: if_splits
      intro!: synth_step_add [unfolded add_method_def has_selector_def])

definition nameable :: "oz_property \<Rightarrow> bool" where
  "nameable p \<longleftrightarrow> pr_is_readonly p \<or> str_truthy (pr_setter_sel p) \<or> pr_name p \<noteq> []"

lemma synth_setter_nameable: "(\<exists>c'. synth_setter i p c = Inr c') \<longleftrightarrow> nameable p"
  by (auto simp: synth_setter_def setter_sel_cases nameable_def)

lemma has_selector_step: "synth_step a b \<Longrightarrow> has_selector a sel \<Longrightarrow> has_selector b sel"
  by (auto simp: synth_step_def has_selector_def)

lemma cl_properties_synth [simp]:
  "cl_properties (synth_getter i p c) = cl_properties c"
  "synth_setter i p c = Inr c' \<Longrightarrow> cl_properties c' = cl_properties c"
  by (auto simp: synth_getter_def synth_setter_def setter_sel_cases add_method_def Let_def split: if_splits)

lemma synth_property_step:
  assumes "synth_property (i, p) (c, ds) = Inr (c', ds')"
    and "i < length (cl_properties c)" and "cl_properties c ! i = p"
  shows "synth_step c c'" and "has_selector c' (getter_of p)"
    and "\<not> pr_is_readonly p \<longrightarrow> has_selector c' (setter_of p)"
    and "\<exists>iv. cl_properties c' = (cl_properties c)[i := p\<lparr>pr_ivar_name := Some iv\<rparr>]"
proof -
  obtain iv w where iv: "resolve_ivar_name c p = (iv, w)" by fastforce
  let ?c1 = "c\<lparr>cl_properties := (cl_properties c)[i := p\<lparr>pr_ivar_name := Some iv\<rparr>]\<rparr>"
  have last: "synth_setter i p (synth_getter i p ?c1) = Inr c'"
    using assms(1) iv by (auto simp: synth_property_def ebind_Inr_iff)
  have i: "i < length (cl_properties ?c1)" "pr_type (cl_properties ?c1 ! i) = pr_type p"
    using assms(2) by simp_all
  have s1: "synth_step c ?c1" by (rule accessors_set_ivar [OF assms(2,3)])
  have s2: "synth_step ?c1 (synth_getter i p ?c1)" and g: "has_selector (synth_getter i p ?c1) (getter_of p)"
    using synth_getter_step [OF i] .
  have s3: "synth_step (synth_getter i p ?c1) c'"
    and set: "\<not> pr_is_readonly p \<longrightarrow> has_selector c' (setter_of p)"
    using synth_setter_step [OF _ _ last] i by simp_all
  show "synth_step c c'" using s1 s2 s3 synth_step_trans by blast
  show "has_selector c' (getter_of p)" by (rule has_selector_step [OF s3 g])
  show "\<not> pr_is_readonly p \<longrightarrow> has_selector c' (setter_of p)" by (rule set)
  show "\<exists>iv. cl_properties c' = (cl_properties c)[i := p\<lparr>pr_ivar_name := Some iv\<rparr>]"
    using cl_properties_synth(2) [OF last] by auto
qed

lemma synth_loop:
  assumes "efold synth_property (zip [k..<k + length ps] ps) (c, ds) = Inr (c', ds')"
    and "drop k (cl_properties c) = ps"
  shows "synth_step c c' \<and> take k (cl_properties c') = take k (cl_properties c)
    \<and> (\<forall>p \<in> set ps. has_selector c' (getter_of p) \<and> (\<not> pr_is_readonly p \<longrightarrow> has_selector c' (setter_of p)))
    \<and> list_all (\<lambda>p. pr_ivar_name p \<noteq> None) (drop k (cl_properties c'))"
  using assms
proof (induction ps arbitrary: k c ds)
  case Nil
  then show ?case by simp
next
  case (Cons p ps)
  have k1: "k < length (cl_properties c)"
    using Cons.prems(2) by (intro not_le_imp_less notI) simp
  then have "cl_properties c ! k # drop (Suc k) (cl_properties c) = p # ps"
    using Cons.prems(2) by (simp add: Cons_nth_drop_Suc)
  with k1 have k: "k < length (cl_properties c)" "cl_properties c ! k = p"
    "drop (Suc k) (cl_properties c) = ps" by simp_all
  have "zip [k..<k + length (p # ps)] (p # ps) = (k, p) # zip [Suc k..<Suc k + length ps] ps"
    by (simp add: upt_rec)
  with Cons.prems(1) obtain c1 d1 where
    first: "synth_property (k, p) (c, ds) = Inr (c1, d1)" and
    rest: "efold synth_property (zip [Suc k..<Suc k + length ps] ps) (c1, d1) = Inr (c', ds')"
    by (auto simp: ebind_Inr_iff)
  note step = synth_property_step [OF first k(1,2)]
  obtain iv where props: "cl_properties c1 = (cl_properties c)[k := p\<lparr>pr_ivar_name := Some iv\<rparr>]"
    using step(4) by blast
  have IH: "synth_step c1 c'" "take (Suc k) (cl_properties c') = take (Suc k) (cl_properties c1)"
    "\<forall>p \<in> set ps. has_selector c' (getter_of p) \<and> (\<not> pr_is_readonly p \<longrightarrow> has_selector c' (setter_of p))"
    "list_all (\<lambda>p. pr_ivar_name p \<noteq> None) (drop (Suc k) (cl_properties c'))"
    using Cons.IH [OF rest] props k(3) by simp_all
  have len: "length (cl_properties c') = length (cl_properties c)"
    using IH(1) step(1) unfolding synth_step_def by (metis length_map)
  have at_k: "cl_properties c' ! k = p\<lparr>pr_ivar_name := Some iv\<rparr>"
    using arg_cong [OF IH(2), of "\<lambda>xs. xs ! k"] props k(1) by simp
  have "take k (cl_properties c') = take k (cl_properties c)"
    using arg_cong [OF IH(2), of "take k"] props by (simp add: min_def)
  moreover have "drop k (cl_properties c') = cl_properties c' ! k # drop (Suc k) (cl_properties c')"
    using k(1) len by (simp add: Cons_nth_drop_Suc)
  ultimately show ?case
    using IH(1,3,4) at_k step(1-3) has_selector_step [OF IH(1)] synth_step_trans by auto
qed

lemma synth_class_step:
  assumes "synth_class c = Inr (c', ds)"
  shows "synth_step c c'"
    and "\<forall>p \<in> set (cl_properties c). has_selector c' (getter_of p)
           \<and> (\<not> pr_is_readonly p \<longrightarrow> has_selector c' (setter_of p))"
    and "\<forall>p \<in> set (cl_properties c'). pr_ivar_name p \<noteq> None"
  using synth_loop [of 0 "cl_properties c" c "[]" c' ds] assms
  by (auto simp: synth_class_def list_all_iff)

lemma synth_setter_Inl: "synth_setter i p c = Inl e \<Longrightarrow> e = IndexErr"
  by (auto simp: synth_setter_def setter_sel_cases split: if_splits)

lemma synth_property_setter:
  "\<exists>c1 w. synth_property (i, p) (c, ds) = ebind (synth_setter i p c1) (\<lambda>c2. Inr (c2, ds @ w))"
  by (cases "resolve_ivar_name c p") (auto simp: synth_property_def)

lemma synth_property_total:
  "(\<exists>r. synth_property (i, p) (c, ds) = Inr r) \<longleftrightarrow> nameable p"
proof -
  obtain c1 w where "synth_property (i, p) (c, ds) = ebind (synth_setter i p c1) (\<lambda>c2. Inr (c2, ds @ w))"
    using synth_property_setter by blast
  then show ?thesis using synth_setter_nameable [of i p c1] by (auto simp: ebind_Inr_iff)
qed

lemma synth_property_Inl: "synth_property (i, p) (c, ds) = Inl e \<Longrightarrow> e = IndexErr"
proof -
  assume "synth_property (i, p) (c, ds) = Inl e"
  moreover obtain c1 w where
    "synth_property (i, p) (c, ds) = ebind (synth_setter i p c1) (\<lambda>c2. Inr (c2, ds @ w))"
    using synth_property_setter by blast
  ultimately have "synth_setter i p c1 = Inl e" by (cases "synth_setter i p c1") auto
  then show ?thesis by (rule synth_setter_Inl)
qed

lemma synth_class_total: "(\<exists>r. synth_class c = Inr r) \<longleftrightarrow> (\<forall>p \<in> set (cl_properties c). nameable p)"
proof -
  let ?ips = "zip [0..<length (cl_properties c)] (cl_properties c)"
  have "(\<exists>r. efold synth_property ?ips (c, []) = Inr r) \<longleftrightarrow> (\<forall>ip \<in> set ?ips. nameable (snd ip))"
  proof (rule efold_total_iff)
    fix ip :: "nat \<times> oz_property" and s :: "oz_class \<times> string list"
    show "(\<exists>r. synth_property ip s = Inr r) \<longleftrightarrow> nameable (snd ip)"
      using synth_property_total by (cases ip; cases s) simp
  qed
  also have "\<dots> \<longleftrightarrow> (\<forall>p \<in> snd ` set ?ips. nameable p)" by auto
  also have "snd ` set ?ips = set (cl_properties c)"
    by (metis list.set_map map_snd_zip length_upt diff_zero)
  finally show ?thesis by (simp add: synth_class_def)
qed

lemma synth_class_Inl: "synth_class c = Inl e \<Longrightarrow> e = IndexErr"
  unfolding synth_class_def by (drule efold_Inl) (auto dest: synth_property_Inl)

subsection \<open>All classes\<close>

definition synth_related :: "string \<times> oz_class \<Rightarrow> string \<times> oz_class \<Rightarrow> bool" where
  "synth_related x y \<longleftrightarrow> fst x = fst y \<and> (\<exists>ds. synth_class (snd x) = Inr (snd y, ds))"

lemma synth_visit_Inr:
  "synth_visit kc (vs, ds) = Inr r \<longleftrightarrow>
     (\<exists>c' es. synth_class (snd kc) = Inr (c', es) \<and> r = (vs @ [(fst kc, c')], ds @ es))"
  by (cases kc; cases "synth_class (snd kc)") (auto simp: synth_visit_def)

lemma synth_visit_Inl: "synth_visit kc s = Inl e \<longleftrightarrow> synth_class (snd kc) = Inl e"
  by (cases kc; cases s; cases "synth_class (snd kc)") (auto simp: synth_visit_def)

lemma synthesize_properties_loop:
  assumes "efold synth_visit kcs (vs, ds :: string list) = Inr (ws, ds')"
  shows "\<exists>us. ws = vs @ us \<and> list_all2 synth_related kcs us"
  using assms
proof (induction kcs arbitrary: vs ds)
  case (Cons kc kcs)
  then obtain c' es where c: "synth_class (snd kc) = Inr (c', es)" and
    "efold synth_visit kcs (vs @ [(fst kc, c')], ds @ es) = Inr (ws, ds')"
    by (auto simp: ebind_Inr_iff synth_visit_Inr)
  with Cons.IH obtain us where "ws = (vs @ [(fst kc, c')]) @ us" "list_all2 synth_related kcs us" by blast
  with c show ?case by (intro exI [of _ "(fst kc, c') # us"])
      (simp, simp add: synth_related_def)
qed simp

lemma synthesize_properties_Inr:
  assumes "synthesize_properties m = Inr m'"
  shows "\<exists>cs ds. m' = m\<lparr>mo_classes := cs, mo_diagnostics := mo_diagnostics m @ ds\<rparr>
           \<and> list_all2 synth_related (mo_classes m) cs"
proof -
  from assms obtain cs ds where "efold synth_visit (mo_classes m) ([], []) = Inr (cs, ds)"
    and "m' = m\<lparr>mo_classes := cs, mo_diagnostics := mo_diagnostics m @ ds\<rparr>"
    by (auto simp: synthesize_properties_def ebind_Inr_iff)
  with synthesize_properties_loop [of "mo_classes m" "[]" "[]" cs ds] show ?thesis by auto
qed

lemma synthesize_properties_total:
  "(\<exists>m'. synthesize_properties m = Inr m')
   \<longleftrightarrow> (\<forall>cls \<in> set (dvals (mo_classes m)). \<forall>p \<in> set (cl_properties cls). nameable p)"
proof -
  have "(\<exists>r. efold synth_visit (mo_classes m) ([], []) = Inr r)
      \<longleftrightarrow> (\<forall>kc \<in> set (mo_classes m). \<exists>r. synth_class (snd kc) = Inr r)"
  proof (rule efold_total_iff)
    fix kc and s :: "(string, oz_class) dict \<times> string list"
    show "(\<exists>r. synth_visit kc s = Inr r) \<longleftrightarrow> (\<exists>r. synth_class (snd kc) = Inr r)"
      by (cases s) (auto simp: synth_visit_Inr)
  qed
  then show ?thesis
    by (simp only: synth_class_total) (simp add: synthesize_properties_def ebind_Inr_iff split_beta)
qed

lemma synthesize_properties_Inl: "synthesize_properties m = Inl e \<Longrightarrow> e = IndexErr"
  unfolding synthesize_properties_def ebind_Inl_iff
  by (auto dest!: efold_Inl simp: synth_visit_Inl dest: synth_class_Inl)

lemma synthesize_properties_shape:
  assumes "synthesize_properties m = Inr m'"
  shows "shape m' = shape m" and "mo_protocols m' = mo_protocols m"
proof -
  from synthesize_properties_Inr [OF assms] obtain cs ds where
    m': "m' = m\<lparr>mo_classes := cs, mo_diagnostics := mo_diagnostics m @ ds\<rparr>"
    and rel: "list_all2 synth_related (mo_classes m) cs" by blast
  from rel have "map (\<lambda>(k, c). (k, cl_name c, cl_superclass c)) cs
      = map (\<lambda>(k, c). (k, cl_name c, cl_superclass c)) (mo_classes m)"
    by (induction rule: list_all2_induct)
       (auto simp: synth_related_def dest!: synth_class_step(1) simp: synth_step_def)
  with m' show "shape m' = shape m" "mo_protocols m' = mo_protocols m" by (auto simp: shape_def)
qed

subsection \<open>Dispatch classification\<close>

definition implementers :: "oz_module \<Rightarrow> string \<Rightarrow> string set" where
  "implementers m sel =
     {cl_name c |c me. c \<in> set (dvals (mo_classes m)) \<and> me \<in> set (cl_methods c)
                 \<and> \<not> me_is_class_method me \<and> me_selector me = sel}"

lemma selector_classes_inner:
  "(let d' = fold (\<lambda>me d. if me_is_class_method me then d
                  else dput (me_selector me) (add_new n (dget_or d (me_selector me) [])) d) mes d
    in (distinct (dget_or d sel []) \<longrightarrow> distinct (dget_or d' sel []))
       \<and> set (dget_or d' sel []) = set (dget_or d sel [])
            \<union> {n |me. me \<in> set mes \<and> \<not> me_is_class_method me \<and> me_selector me = sel})"
proof (induction mes arbitrary: d)
  case Nil
  then show ?case by simp
next
  case (Cons me mes)
  let ?d = "if me_is_class_method me then d
            else dput (me_selector me) (add_new n (dget_or d (me_selector me) [])) d"
  have "distinct (dget_or d sel []) \<longrightarrow> distinct (dget_or ?d sel [])"
    "set (dget_or ?d sel []) = set (dget_or d sel [])
       \<union> {n |x. x = me \<and> \<not> me_is_class_method x \<and> me_selector x = sel}"
    by (auto simp: dget_or_def)
  with Cons.IH [of ?d] show ?case by (auto simp: Let_def)
qed

lemma selector_classes_set:
  "distinct (dget_or (selector_classes m) sel []) \<and>
   set (dget_or (selector_classes m) sel []) = implementers m sel"
proof -
  let ?f = "\<lambda>cls. fold (\<lambda>me d. if me_is_class_method me then d
              else dput (me_selector me) (add_new (cl_name cls) (dget_or d (me_selector me) [])) d)
            (cl_methods cls)"
  have "(distinct (dget_or d sel []) \<longrightarrow> distinct (dget_or (fold ?f cs d) sel [])) \<and>
        set (dget_or (fold ?f cs d) sel []) = set (dget_or d sel [])
          \<union> {cl_name c |c me. c \<in> set cs \<and> me \<in> set (cl_methods c)
               \<and> \<not> me_is_class_method me \<and> me_selector me = sel}" for cs d
  proof (induction cs arbitrary: d)
    case (Cons c cs)
    show ?case
      using Cons.IH [of "?f c d"] selector_classes_inner [where sel = sel and d = d and n = "cl_name c" and mes = "cl_methods c"]
      by (auto simp: Let_def)
  qed simp
  from this [of "[]" "dvals (mo_classes m)"] show ?thesis
    by (simp add: selector_classes_def implementers_def dget_or_def)
qed

lemma two_implementers:
  "1 < length (dget_or (selector_classes m) sel []) \<longleftrightarrow>
   (\<exists>a \<in> implementers m sel. \<exists>b \<in> implementers m sel. a \<noteq> b)"
proof -
  let ?xs = "dget_or (selector_classes m) sel []"
  have "length ?xs = card (implementers m sel)"
    using selector_classes_set [of m sel] distinct_card [of ?xs] by simp
  moreover have "finite (implementers m sel)"
    using selector_classes_set [of m sel] by (metis List.finite_set)
  ultimately show ?thesis using card_le_Suc0_iff_eq [of "implementers m sel"] by force
qed

subsection \<open>What the later passes leave alone\<close>

definition view :: "(oz_class \<Rightarrow> 'a) \<Rightarrow> oz_module \<Rightarrow> (string \<times> 'a) list" where
  "view g m = map (\<lambda>(k, c). (k, g c)) (mo_classes m)"

lemma dget_view: "dget (view g m) n = map_option g (cls_of m n)"
proof -
  have "map_of (map (\<lambda>(k, c). (k, g c)) cs) n = map_option g (map_of cs n)" for cs
    by (induction cs) auto
  then show ?thesis by (simp add: view_def)
qed

lemma view_shape: "view (\<lambda>c. (cl_name c, cl_superclass c)) m = shape m"
  by (simp add: view_def shape_def)

lemma view_get:
  "view g m' = view g m \<Longrightarrow> cls_of m' n = Some c' \<Longrightarrow> \<exists>c. cls_of m n = Some c \<and> g c' = g c"
  by (metis (no_types, lifting) dget_view option.map_disc_iff option.map_sel option.sel
      not_None_eq option.simps(9))

lemma view_map:
  "(\<And>k c. g (f k c) = g c)
   \<Longrightarrow> view g (m\<lparr>mo_classes := map (\<lambda>(k, c). (k, f k c)) (mo_classes m)\<rparr>) = view g m"
  by (auto simp: view_def)

lemma view_same: "mo_classes m' = mo_classes m \<Longrightarrow> view g m' = view g m"
  by (simp add: view_def)

lemma view_comp: "view g m' = view g m \<Longrightarrow> view (f \<circ> g) m' = view (f \<circ> g) m"
proof -
  have "view (f \<circ> g) m = map (\<lambda>(k, x). (k, f x)) (view g m)" for m by (auto simp: view_def)
  then show "view g m' = view g m \<Longrightarrow> view (f \<circ> g) m' = view (f \<circ> g) m" by simp
qed

abbreviation hier_view :: "oz_class \<Rightarrow> string \<times> string option \<times> int \<times> nat \<times> string list" where
  "hier_view c \<equiv> (cl_name c, cl_superclass c, cl_class_id c, cl_base_depth c, cl_protocols c)"

lemma hier_view_shape: "view hier_view m' = view hier_view m \<Longrightarrow> shape m' = shape m"
  by (drule view_comp [where f = "\<lambda>(n, s, _). (n, s)"])
     (simp add: comp_def view_shape)

lemma classify_dispatch_view: "view hier_view (classify_dispatch m) = view hier_view m"
  unfolding classify_dispatch_def Let_def map_vals_def by (rule view_map) simp

lemma set_prop_cell_view: "hier_view (set_prop_cell i t c) = hier_view c"
  by (simp add: set_prop_cell_def)

lemma enrich_class_view: "hier_view (enrich_class m c) = hier_view c"
proof -
  have p: "hier_view (enrich_property m i c) = hier_view c" for i c
    by (simp add: enrich_property_def Let_def set_prop_cell_def)
  have q: "hier_view (enrich_method m i c) = hier_view c" for i c
    by (simp add: enrich_method_def Let_def set_prop_cell_def split: option.splits list.splits)
  have "hier_view (fold (enrich_property m) is c) = hier_view c"
    "hier_view (fold (enrich_method m) is c) = hier_view c" for "is" c
    by (induction "is" arbitrary: c) (use p q in auto)
  then show ?thesis by (simp add: enrich_class_def Let_def)
qed

lemma validate_generic_types_view: "view hier_view (validate_generic_types m) = view hier_view m"
proof -
  have "view hier_view (enrich_model_generics m) = view hier_view m"
  proof (cases "mo_generic_types m = []")
    case False
    then have "view hier_view (enrich_model_generics m)
        = view hier_view (m\<lparr>mo_classes := map_vals (enrich_class m) (mo_classes m)\<rparr>)"
      by (simp add: enrich_model_generics_def view_def)
    also have "\<dots> = view hier_view m"
      unfolding map_vals_def by (rule view_map) (rule enrich_class_view)
    finally show ?thesis .
  qed (simp add: enrich_model_generics_def)
  then show ?thesis by (simp add: validate_generic_types_def Let_def view_def)
qed

lemma collect_initialize_classes_classes:
  "mo_classes (collect_initialize_classes m) = mo_classes m"
  unfolding collect_initialize_classes_def
  by (rule fold_invariant_set [where P = "\<lambda>x. mo_classes x = mo_classes m"])
     (auto simp: check_initialize_guard_def add_diag_def Let_def split: option.splits)

subsection \<open>Protocol conformance\<close>

lemma class_line_cong: "mo_classes m' = mo_classes m \<Longrightarrow> class_line m' c = class_line m c"
proof -
  assume eq: "mo_classes m' = mo_classes m"
  have "climb fuel m' c = climb fuel m c" for fuel
    by (induction fuel arbitrary: c) (auto simp: super_in_def eq split: option.splits)
  then show ?thesis by (simp add: class_line_def hier_fuel_def eq)
qed

definition line_selectors :: "oz_module \<Rightarrow> oz_class \<Rightarrow> string list" where
  "line_selectors m cls =
     concat (map (\<lambda>c. map me_selector (cl_methods c)) (the (class_line m cls)))"

definition conformance_errors :: "oz_module \<Rightarrow> string list" where
  "conformance_errors m =
     concat (map (\<lambda>cls. class_conformance_errors m (line_selectors m cls) cls)
       (dvals (mo_classes m)))"

lemma class_line_of_member:
  assumes "module_ok m" and "acyclic_module m" and "cls \<in> set (dvals (mo_classes m))"
  shows "class_line m cls = Some (the (class_line m cls))"
    and "set (line_selectors m cls) =
      {me_selector me |me d y. (cl_name cls, y) \<in> (super_rel m)\<^sup>* \<and> cls_of m y = Some d
                         \<and> me \<in> set (cl_methods d)}"
proof -
  from assms(1,3) have "cls_of m (cl_name cls) = Some cls"
    by (auto simp: module_ok_def)
  then obtain line where line: "class_line m cls = Some line" and "length line = Suc (rank m (cl_name cls))"
    and members: "set line = {d. \<exists>y. (cl_name cls, y) \<in> (super_rel m)\<^sup>* \<and> cls_of m y = Some d}"
    by (rule class_line_known [OF assms(2)])
  from line show "class_line m cls = Some (the (class_line m cls))" by simp
  from line members show "set (line_selectors m cls) =
      {me_selector me |me d y. (cl_name cls, y) \<in> (super_rel m)\<^sup>* \<and> cls_of m y = Some d
                         \<and> me \<in> set (cl_methods d)}"
    by (auto simp: line_selectors_def)
qed

lemma check_protocol_conformance_ok:
  assumes "module_ok m" and "acyclic_module m"
  shows "check_protocol_conformance m = Inr (m\<lparr>mo_errors := mo_errors m @ conformance_errors m\<rparr>)"
proof -
  let ?f = "\<lambda>cls m. if cl_protocols cls = [] then Inr m
        else case class_line m cls of
          None \<Rightarrow> Inl Diverges
        | Some line \<Rightarrow>
            let cls_sels = concat (map (\<lambda>c. map me_selector (cl_methods c)) line) in
            Inr (m\<lparr>mo_errors := mo_errors m @ class_conformance_errors m cls_sels cls\<rparr>)"
  have cong: "class_conformance_errors (m\<lparr>mo_errors := es\<rparr>) = class_conformance_errors m" for es
    by (intro ext) (simp add: class_conformance_errors_def)
  have "efold ?f cs (m\<lparr>mo_errors := es\<rparr>) = Inr (m\<lparr>mo_errors := es
      @ concat (map (\<lambda>cls. class_conformance_errors m (line_selectors m cls) cls) cs)\<rparr>)"
    if "set cs \<subseteq> set (dvals (mo_classes m))" for cs es
    using that
  proof (induction cs arbitrary: es)
    case (Cons c cs)
    have "?f c (m\<lparr>mo_errors := es\<rparr>)
        = Inr (m\<lparr>mo_errors := es @ class_conformance_errors m (line_selectors m c) c\<rparr>)"
    proof (cases "cl_protocols c = []")
      case True
      then show ?thesis by (simp add: class_conformance_errors_def)
    next
      case False
      have "class_line (m\<lparr>mo_errors := es\<rparr>) c = Some (the (class_line m c))"
        using class_line_of_member(1) [OF assms, of c] Cons.prems
          class_line_cong [of "m\<lparr>mo_errors := es\<rparr>" m c] by simp
      with False show ?thesis by (simp add: cong line_selectors_def)
    qed
    with Cons.IH [of "es @ class_conformance_errors m (line_selectors m c) c"] Cons.prems
    show ?case by simp
  qed simp
  from this [of "dvals (mo_classes m)" "mo_errors m"] show ?thesis
    by (simp add: check_protocol_conformance_def conformance_errors_def)
qed

end
