(* ===== verification/Resolve_Props.thy ===== *)
theory Resolve_Props
  imports Resolve_Facts
begin

text \<open>
  The properties of name resolution: which modules \<open>resolve\<close> accepts, that it always ends,
  and what holds of the module it returns.
\<close>

subsection \<open>The passes in sequence\<close>

lemma validate_hierarchy_Inl:
  "validate_hierarchy m = Inl e \<Longrightarrow> \<exists>msg. e = ValueErr msg"
  unfolding validate_hierarchy_unfold
  by (drule efold_Inl) (auto split: option.splits)

definition all_nameable :: "oz_module \<Rightarrow> bool" where
  "all_nameable m \<longleftrightarrow> (\<forall>cls \<in> set (dvals (mo_classes m)). \<forall>p \<in> set (cl_properties cls). nameable p)"

lemma with_ids_view:
  "view (\<lambda>c. (cl_name c, cl_superclass c)) (m\<lparr>mo_classes := with_ids ids (mo_classes m)\<rparr>)
   = view (\<lambda>c. (cl_name c, cl_superclass c)) m"
  unfolding with_ids_def by (rule view_map) simp

definition with_ranks :: "oz_module \<Rightarrow> oz_module" where
  "with_ranks m = m\<lparr>mo_classes := map (\<lambda>(k, c). (k, c\<lparr>cl_base_depth := rank m k\<rparr>)) (mo_classes m)\<rparr>"

lemma with_ranks_shape: "shape (with_ranks m) = shape m"
  unfolding with_ranks_def by (rule shape_map) simp

text \<open>
  On an acyclic module whose properties can be named, \<open>resolve\<close> is: synthesis (\<open>m1\<close>), the
  duplicate check, numbering in a topological order \<open>ks\<close>, depths, classification,
  conformance errors, generic validation and the initialize list.
\<close>

definition numbered_module :: "oz_module \<Rightarrow> string list \<Rightarrow> oz_module" where
  "numbered_module m1 ks =
     with_ranks ((check_duplicate_methods m1)
        \<lparr>mo_classes := with_ids (ids_of ks) (mo_classes m1)\<rparr>)"

definition conformance_checked :: "oz_module \<Rightarrow> oz_module" where
  "conformance_checked m = m\<lparr>mo_errors := mo_errors m @ conformance_errors m\<rparr>"

definition resolved_from :: "oz_module \<Rightarrow> string list \<Rightarrow> oz_module" where
  "resolved_from m1 ks =
     collect_initialize_classes (validate_generic_types (conformance_checked
       (classify_dispatch (numbered_module m1 ks))))"

lemma check_duplicate_methods_keeps [simp]:
  "mo_classes (check_duplicate_methods m) = mo_classes m"
  "mo_protocols (check_duplicate_methods m) = mo_protocols m"
  by (simp_all add: check_duplicate_methods_def)

lemma classify_dispatch_protocols [simp]: "mo_protocols (classify_dispatch m) = mo_protocols m"
  by (simp add: classify_dispatch_def Let_def)

lemma numbered_module_shape: "shape (numbered_module m1 ks) = shape m1"
proof -
  let ?m = "(check_duplicate_methods m1)\<lparr>mo_classes := with_ids (ids_of ks) (mo_classes m1)\<rparr>"
  have "shape (numbered_module m1 ks) = shape ?m"
    unfolding numbered_module_def by (rule with_ranks_shape)
  also have "\<dots> = shape (m1\<lparr>mo_classes := with_ids (ids_of ks) (mo_classes m1)\<rparr>)"
    by (rule shape_same_classes) simp
  also have "\<dots> = shape m1" using with_ids_view [where m = m1 and ids = "ids_of ks"] by (simp add: view_shape)
  finally show ?thesis .
qed

lemma numbered_module_protocols [simp]: "mo_protocols (numbered_module m1 ks) = mo_protocols m1"
  by (simp add: numbered_module_def with_ranks_def)

lemma resolve_after_synthesis:
  assumes "module_ok m" and "acyclic_module m"
    and "synthesize_properties (m\<lparr>mo_diagnostics := mo_diagnostics m @ missing_superclass_diags m\<rparr>) = Inr m1"
  shows "\<exists>ks. resolve m = Inr (resolved_from m1 ks) \<and> topological m1 ks
           \<and> set ks = set (dkeys (mo_classes m1))"
proof -
  let ?m0 = "m\<lparr>mo_diagnostics := mo_diagnostics m @ missing_superclass_diags m\<rparr>"
  have v: "validate_hierarchy m = Inr ?m0"
    using validate_hierarchy_Inr_iff [OF assms(1)] assms(2) validate_hierarchy_Inr by blast
  have s1: "shape m1 = shape m" and p1: "mo_protocols m1 = mo_protocols m"
    using synthesize_properties_shape [OF assms(3)] by (simp_all add: shape_def)
  have ac1: "acyclic_module m1" using assms(2) shape_acyclic [OF s1] by simp
  have ok1: "module_ok m1" using assms(1) shape_ok [OF s1 p1] by simp
  let ?d = "check_duplicate_methods m1"
  have sd: "shape ?d = shape m1" by (rule shape_same_classes) simp
  have acd: "acyclic_module ?d" using ac1 shape_acyclic [OF sd] by simp
  from assign_class_ids_ok [OF acd] obtain ks where
    ids: "assign_class_ids ?d = Inr (?d\<lparr>mo_classes := with_ids (ids_of ks) (mo_classes ?d)\<rparr>)"
    and "topological ?d ks" "set ks = set (dkeys (mo_classes ?d))" by blast
  then have ks: "topological m1 ks" "set ks = set (dkeys (mo_classes m1))"
    by (simp_all add: topological_def)
  let ?i = "?d\<lparr>mo_classes := with_ids (ids_of ks) (mo_classes m1)\<rparr>"
  have si: "shape ?i = shape ?d"
    using with_ids_view [where m = ?d and ids = "ids_of ks"] by (simp add: view_shape)
  have aci: "acyclic_module ?i" using acd shape_acyclic [OF si] by simp
  have oki: "module_ok ?i"
    using ok1 shape_ok [OF trans [OF si sd]] by simp
  have dep: "compute_base_depths ?i = Inr (numbered_module m1 ks)"
    using compute_base_depths_ok [OF oki aci] by (simp add: numbered_module_def with_ranks_def)
  let ?c = "classify_dispatch (numbered_module m1 ks)"
  have sc: "shape ?c = shape m1"
    using hier_view_shape [OF classify_dispatch_view] numbered_module_shape by metis
  have acc: "acyclic_module ?c" using ac1 shape_acyclic [OF sc] by simp
  have okc: "module_ok ?c" using ok1 shape_ok [OF sc] by simp
  have con: "check_protocol_conformance ?c = Inr (conformance_checked ?c)"
    using check_protocol_conformance_ok [OF okc acc] by (simp add: conformance_checked_def)
  have "resolve m = Inr (resolved_from m1 ks)"
    using v assms(3) ids dep con by (simp add: resolve_def resolved_from_def)
  with ks show ?thesis by blast
qed

lemma resolve_cases:
  assumes "module_ok m"
  obtains (cycle) msg where "\<not> acyclic_module m" and "resolve m = Inl (ValueErr msg)"
  | (unnamed) "acyclic_module m" and "\<not> all_nameable m" and "resolve m = Inl IndexErr"
  | (resolved) m1 ks where "acyclic_module m" and "all_nameable m"
      and "synthesize_properties (m\<lparr>mo_diagnostics := mo_diagnostics m @ missing_superclass_diags m\<rparr>) = Inr m1"
      and "resolve m = Inr (resolved_from m1 ks)" and "topological m1 ks"
      and "set ks = set (dkeys (mo_classes m1))"
proof (cases "acyclic_module m")
  case False
  then obtain e where e: "validate_hierarchy m = Inl e"
    using validate_hierarchy_Inr_iff [OF assms] by (cases "validate_hierarchy m") auto
  from validate_hierarchy_Inl [OF e] obtain msg where "e = ValueErr msg" by blast
  with e False show ?thesis by (intro cycle [of msg]) (simp_all add: resolve_def)
next
  case True
  let ?m0 = "m\<lparr>mo_diagnostics := mo_diagnostics m @ missing_superclass_diags m\<rparr>"
  have v: "validate_hierarchy m = Inr ?m0"
    using validate_hierarchy_Inr_iff [OF assms] True validate_hierarchy_Inr by blast
  have names: "(\<exists>m1. synthesize_properties ?m0 = Inr m1) \<longleftrightarrow> all_nameable m"
    using synthesize_properties_total [of ?m0] by (simp add: all_nameable_def)
  show ?thesis
  proof (cases "synthesize_properties ?m0")
    case (Inl e)
    with synthesize_properties_Inl names True v show ?thesis
      by (intro unnamed) (auto simp: resolve_def)
  next
    case (Inr m1)
    from resolve_after_synthesis [OF assms True Inr] obtain ks where
      "resolve m = Inr (resolved_from m1 ks)" "topological m1 ks"
      "set ks = set (dkeys (mo_classes m1))" by blast
    with True names Inr show ?thesis by (intro resolved [of m1 ks]) auto
  qed
qed

lemma resolved_hier_view: "view hier_view (resolved_from m1 ks) = view hier_view (numbered_module m1 ks)"
proof -
  have "view hier_view (resolved_from m1 ks)
      = view hier_view (validate_generic_types (conformance_checked (classify_dispatch (numbered_module m1 ks))))"
    unfolding resolved_from_def by (rule view_same) (rule collect_initialize_classes_classes)
  also have "\<dots> = view hier_view (conformance_checked (classify_dispatch (numbered_module m1 ks)))"
    by (rule validate_generic_types_view)
  also have "\<dots> = view hier_view (classify_dispatch (numbered_module m1 ks))"
    by (rule view_same) (simp add: conformance_checked_def)
  also have "\<dots> = view hier_view (numbered_module m1 ks)" by (rule classify_dispatch_view)
  finally show ?thesis .
qed

lemma numbered_module_get:
  assumes "cls_of (numbered_module m1 ks) n = Some c'"
  shows "\<exists>c. cls_of m1 n = Some c \<and> cl_superclass c' = cl_superclass c \<and>
     cl_class_id c' = dget_or (ids_of ks) n (cl_class_id c) \<and> cl_base_depth c' = rank m1 n"
proof -
  let ?i = "(check_duplicate_methods m1)\<lparr>mo_classes := with_ids (ids_of ks) (mo_classes m1)\<rparr>"
  have get: "map_of (map (\<lambda>(k, c). (k, c\<lparr>cl_base_depth := r k\<rparr>)) cs) n
      = map_option (\<lambda>c. c\<lparr>cl_base_depth := r n\<rparr>) (map_of cs n)" for r cs
    by (induction cs) auto
  have "shape ?i = shape m1"
    using with_ids_view [where m = "check_duplicate_methods m1" and ids = "ids_of ks"]
      shape_same_classes [OF check_duplicate_methods_keeps(1)] by (simp add: view_shape)
  then have "rank ?i n = rank m1 n" by (rule shape_rank)
  with assms show ?thesis
    by (auto simp: numbered_module_def with_ranks_def get dget_with_ids)
qed

subsection \<open>A small module for the concrete instances\<close>

definition demo_class :: "string \<Rightarrow> string option \<Rightarrow> oz_method list \<Rightarrow> oz_class" where
  "demo_class n parent mes = (OZClass n parent)\<lparr>cl_methods := mes\<rparr>"

definition demo_property :: oz_property where
  "demo_property =
     \<lparr>pr_name = ''level'', pr_type = OZType ''int'', pr_ivar_name = None, pr_is_readonly = False,
      pr_is_nonatomic = True, pr_ownership = ''assign'', pr_getter_sel = None, pr_setter_sel = None\<rparr>"

definition demo_module :: oz_module where
  "demo_module = OZModule
     \<lparr>mo_classes :=
        [(''Led'', (demo_class ''Led'' (Some ''OZObject'') [OZMethod ''toggle'' (OZType ''void'')])
                     \<lparr>cl_properties := [demo_property], cl_protocols := [''Toggling'']\<rparr>),
         (''OZObject'', demo_class ''OZObject'' None [OZMethod ''retain'' (OZType ''id'')]),
         (''Lamp'', demo_class ''Lamp'' (Some ''Led'') [OZMethod ''toggle'' (OZType ''void''),
            (OZMethod ''initialize'' (OZType ''void''))\<lparr>me_is_class_method := True\<rparr>])],
      mo_protocols := [(''Toggling'', \<lparr>pc_name = ''Toggling'',
            pc_methods = [OZMethod ''toggle'' (OZType ''void''), OZMethod ''blink'' (OZType ''void'')]\<rparr>)]\<rparr>"

definition loop_module :: oz_module where
  "loop_module = OZModule
     \<lparr>mo_classes := [(''A'', OZClass ''A'' (Some ''B'')), (''B'', OZClass ''B'' (Some ''A''))]\<rparr>"

lemma demo_module_ok: "module_ok demo_module"
  by (simp add: module_ok_def demo_module_def OZModule_def demo_class_def OZClass_def)

lemma demo_acyclic: "acyclic_module demo_module"
proof -
  have "case validate_hierarchy demo_module of Inr m' \<Rightarrow> True | Inl e \<Rightarrow> False" by code_simp
  then have "\<exists>m'. validate_hierarchy demo_module = Inr m'" by (auto split: sum.splits)
  then show ?thesis using validate_hierarchy_Inr_iff [OF demo_module_ok] by simp
qed

lemma demo_nameable: "all_nameable demo_module"
  by (simp add: all_nameable_def nameable_def demo_module_def demo_class_def OZClass_def
      OZModule_def demo_property_def)

lemma demo_resolves: "\<exists>m'. resolve demo_module = Inr m'"
  by (rule resolve_cases [OF demo_module_ok]) (use demo_acyclic demo_nameable in auto)

subsection \<open>Membership in the reported errors\<close>

lemma class_conformance_iff:
  "e \<in> set (class_conformance_errors m sels cls) \<longleftrightarrow>
     (\<exists>pn proto pm. pn \<in> set (cl_protocols cls) \<and> dget (mo_protocols m) pn = Some proto
        \<and> pm \<in> set (pc_methods proto) \<and> me_selector pm \<notin> set sels
        \<and> e = conformance_error cls pn pm)"
proof -
  have *: "e \<in> set (case x of None \<Rightarrow> [] | Some proto \<Rightarrow> map f (filter P (pc_methods proto)))
      \<longleftrightarrow> (\<exists>proto pm. x = Some proto \<and> pm \<in> set (pc_methods proto) \<and> P pm \<and> e = f pm)" for x f P
    by (cases x) auto
  show ?thesis
    unfolding class_conformance_errors_def set_concat set_map image_image UN_iff * by metis
qed

lemma resolve_numbers_classes_unit:
  assumes "module_ok m" and "resolve m = Inr m'"
  shows "\<exists>ks. distinct ks \<and> set ks = set (dkeys (mo_classes m)) \<and>
     (\<forall>i < length ks. \<exists>c. cls_of m' (ks ! i) = Some c \<and> cl_class_id c = int i \<and>
        (\<forall>s. super_in m' c = Some s \<longrightarrow> s \<in> set (take i ks)))"
  using assms(1)
proof (cases rule: resolve_cases)
  case (resolved m1 ks)
  have m': "m' = resolved_from m1 ks" using resolved(4) assms(2) by simp
  have s1: "shape m1 = shape m"
    using synthesize_properties_shape(1) [OF resolved(3)] by (simp add: shape_def)
  have sm': "shape m' = shape m1"
    unfolding m' using hier_view_shape [OF resolved_hier_view] numbered_module_shape by metis
  have top: "distinct ks" "set ks \<subseteq> set (dkeys (mo_classes m1))"
    "\<And>i s. i < length ks \<Longrightarrow> super_among (mo_classes m1) (ks ! i) = Some s \<Longrightarrow> s \<in> set (take i ks)"
    using resolved(5) by (auto simp: topological_def)
  have "\<exists>c. cls_of m' (ks ! i) = Some c \<and> cl_class_id c = int i \<and>
        (\<forall>s. super_in m' c = Some s \<longrightarrow> s \<in> set (take i ks))" if i: "i < length ks" for i
  proof -
    have "ks ! i \<in> set (dkeys (mo_classes m'))"
      using i top(2) shape_keys [OF sm'] by (metis nth_mem subsetD)
    then obtain c where c: "cls_of m' (ks ! i) = Some c" by (metis in_dkeys_iff not_None_eq)
    from view_get [OF resolved_hier_view [of m1 ks, folded m'] c] obtain d where
      d: "cls_of (numbered_module m1 ks) (ks ! i) = Some d" "hier_view c = hier_view d" by blast
    with numbered_module_get [OF d(1)] dget_ids_of [OF top(1) i] have "cl_class_id c = int i"
      by (auto simp: dget_or_def)
    moreover have "s \<in> set (take i ks)" if "super_in m' c = Some s" for s
    proof (rule top(3) [OF i])
      have "(ks ! i, s) \<in> super_rel m1" "cls_of m' s \<noteq> None"
        using super_in_rel [OF c that] shape_super [OF sm'] by auto
      moreover from this have "cls_of m1 s \<noteq> None" using shape_keys [OF sm'] by (metis in_dkeys_iff)
      ultimately show "super_among (mo_classes m1) (ks ! i) = Some s" by (simp add: super_among_rel)
    qed
    ultimately show ?thesis using c by blast
  qed
  with top(1) resolved(6) show ?thesis using shape_keys [OF s1] by auto
qed (use assms(2) in auto)

subsection \<open>Properties\<close>

text \<open>
  C5. Name resolution always ends, and accepts exactly the modules without an inheritance
  cycle (in which every property that gets a default setter has a name); a cycle is
  reported as the \<open>ValueError\<close> of the check, never by running out of stack.
\<close>

theorem resolve_accepts_acyclic:
  assumes "module_ok m"
  shows "((\<exists>m'. resolve m = Inr m') \<longleftrightarrow> acyclic_module m \<and> all_nameable m)
       \<and> (\<not> acyclic_module m \<longrightarrow> (\<exists>msg. resolve m = Inl (ValueErr msg)))
       \<and> resolve m \<noteq> Inl Diverges"
  by (rule resolve_cases [OF assms]) auto

theorem resolve_accepts_acyclic_witness:
  "resolve demo_module \<noteq> Inl Diverges \<and> (\<exists>m'. resolve demo_module = Inr m')"
  using resolve_accepts_acyclic [OF demo_module_ok] demo_acyclic demo_nameable by blast

text \<open>
  C7. Class ids are a topological numbering: some order \<open>ks\<close> of all classes gives each
  class its position as id, and the superclass of a class stands before it.
\<close>

theorem resolve_numbers_classes:
  assumes "module_ok m" and "resolve m = Inr m'"
  shows "\<exists>ks. distinct ks \<and> set ks = set (dkeys (mo_classes m)) \<and>
     (\<forall>i < length ks. \<exists>c. cls_of m' (ks ! i) = Some c \<and> cl_class_id c = int i \<and>
        (\<forall>s. super_in m' c = Some s \<longrightarrow> s \<in> set (take i ks)))"
  by (rule resolve_numbers_classes_unit [OF assms])

theorem resolve_numbers_classes_witness:
  "\<exists>m' ks. resolve demo_module = Inr m' \<and> distinct ks
     \<and> set ks = set (dkeys (mo_classes demo_module)) \<and>
     (\<forall>i < length ks. \<exists>c. cls_of m' (ks ! i) = Some c \<and> cl_class_id c = int i \<and>
        (\<forall>s. super_in m' c = Some s \<longrightarrow> s \<in> set (take i ks)))"
  using demo_resolves resolve_numbers_classes [OF demo_module_ok] by blast

text \<open>
  C27. The base depth of a class is the number of its proper ancestors that the module
  knows, whatever the cache held when it was computed.
\<close>

theorem resolve_base_depths:
  assumes "module_ok m" and "resolve m = Inr m'" and "cls_of m' n = Some c"
  shows "cl_base_depth c =
     card {y \<in> set (dkeys (mo_classes m)). (n, y) \<in> (super_rel m)\<^sup>+}"
  using assms(1)
proof (cases rule: resolve_cases)
  case (resolved m1 ks)
  then have m': "m' = resolved_from m1 ks" using assms(2) by simp
  have s1: "shape m1 = shape m"
    using synthesize_properties_shape(1) [OF resolved(3)] by (simp add: shape_def)
  from view_get [OF resolved_hier_view [of m1 ks, folded m'] assms(3)] obtain d where
    d: "cls_of (numbered_module m1 ks) n = Some d" "hier_view c = hier_view d" by blast
  with numbered_module_get [OF d(1)] have "cl_base_depth c = rank m1 n" by auto
  also have "\<dots> = rank m n" by (rule shape_rank [OF s1])
  finally show ?thesis by (simp add: rank_def)
qed (use assms(2) in auto)

theorem resolve_base_depths_witness:
  "\<exists>m'. resolve demo_module = Inr m' \<and>
     (\<forall>c. cls_of m' ''Lamp'' = Some c \<longrightarrow>
        cl_base_depth c = card {y \<in> set (dkeys (mo_classes demo_module)).
                                 (''Lamp'', y) \<in> (super_rel demo_module)\<^sup>+})"
  using demo_resolves resolve_base_depths [OF demo_module_ok] by blast

text \<open>
  C26. An instance method is protocol-dispatched after classification exactly when it
  already was, its selector belongs to a protocol or to the always-polymorphic ones, or two
  classes implement it; class methods and everything else of a method stay as they are.
\<close>

theorem classify_dispatch_iff:
  "mo_classes (classify_dispatch m) =
     map (\<lambda>(k, c). (k, c\<lparr>cl_methods := map (\<lambda>me.
        if \<not> me_is_class_method me \<and>
           ((\<exists>p \<in> set (dvals (mo_protocols m)). \<exists>pm \<in> set (pc_methods p). me_selector pm = me_selector me)
            \<or> me_selector me \<in> {''dealloc'', ''init'', ''isEqual:'', ''cDescription:maxLength:''}
            \<or> (\<exists>a \<in> implementers m (me_selector me). \<exists>b \<in> implementers m (me_selector me). a \<noteq> b))
        then me\<lparr>me_dispatch := PROTOCOL\<rparr> else me) (cl_methods c)\<rparr>)) (mo_classes m)"
proof -
  have proto: "sel \<in> set (protocol_selectors m) \<longleftrightarrow>
      (\<exists>p \<in> set (dvals (mo_protocols m)). \<exists>pm \<in> set (pc_methods p). me_selector pm = sel)" for sel
    by (auto simp: protocol_selectors_def)
  have "classify_method (protocol_selectors m) (selector_classes m) = (\<lambda>me.
      if \<not> me_is_class_method me \<and>
           ((\<exists>p \<in> set (dvals (mo_protocols m)). \<exists>pm \<in> set (pc_methods p). me_selector pm = me_selector me)
            \<or> me_selector me \<in> {''dealloc'', ''init'', ''isEqual:'', ''cDescription:maxLength:''}
            \<or> (\<exists>a \<in> implementers m (me_selector me). \<exists>b \<in> implementers m (me_selector me). a \<noteq> b))
      then me\<lparr>me_dispatch := PROTOCOL\<rparr> else me)"
    unfolding classify_method_def two_implementers proto always_protocol_def by (rule ext) simp
  then show ?thesis by (simp add: classify_dispatch_def Let_def map_vals_def)
qed

text \<open>
  C25. The conformance check reports a protocol method of a class exactly when neither the
  class nor any of its known ancestors implements the selector.
\<close>

theorem conformance_errors_iff:
  assumes "module_ok m" and "acyclic_module m"
  shows "\<exists>es. check_protocol_conformance m = Inr (m\<lparr>mo_errors := mo_errors m @ es\<rparr>) \<and>
     (\<forall>e. e \<in> set es \<longleftrightarrow> (\<exists>cls \<in> set (dvals (mo_classes m)). \<exists>pn proto pm.
        pn \<in> set (cl_protocols cls)
        \<and> dget (mo_protocols m) pn = Some proto \<and> pm \<in> set (pc_methods proto)
        \<and> \<not> (\<exists>y d me. (cl_name cls, y) \<in> (super_rel m)\<^sup>* \<and> cls_of m y = Some d
               \<and> me \<in> set (cl_methods d) \<and> me_selector me = me_selector pm)
        \<and> e = conformance_error cls pn pm))"
proof -
  have inherits: "me_selector pm \<in> set (line_selectors m cls) \<longleftrightarrow>
      (\<exists>y d me. (cl_name cls, y) \<in> (super_rel m)\<^sup>* \<and> cls_of m y = Some d
         \<and> me \<in> set (cl_methods d) \<and> me_selector me = me_selector pm)"
    if "cls \<in> set (dvals (mo_classes m))" for cls pm
    unfolding class_line_of_member(2) [OF assms that] by (simp only: mem_Collect_eq) metis
  have reported: "e \<in> set (conformance_errors m) \<longleftrightarrow> (\<exists>cls \<in> set (dvals (mo_classes m)). \<exists>pn proto pm.
        pn \<in> set (cl_protocols cls) \<and> dget (mo_protocols m) pn = Some proto
        \<and> pm \<in> set (pc_methods proto) \<and> me_selector pm \<notin> set (line_selectors m cls)
        \<and> e = conformance_error cls pn pm)" for e
    unfolding conformance_errors_def by (simp add: class_conformance_iff)
  have all: "e \<in> set (conformance_errors m) \<longleftrightarrow> (\<exists>cls \<in> set (dvals (mo_classes m)). \<exists>pn proto pm.
        pn \<in> set (cl_protocols cls) \<and> dget (mo_protocols m) pn = Some proto
        \<and> pm \<in> set (pc_methods proto)
        \<and> \<not> (\<exists>y d me. (cl_name cls, y) \<in> (super_rel m)\<^sup>* \<and> cls_of m y = Some d
               \<and> me \<in> set (cl_methods d) \<and> me_selector me = me_selector pm)
        \<and> e = conformance_error cls pn pm)" for e
    unfolding reported by (rule bex_cong [OF refl]) (simp only: inherits)
  show ?thesis using check_protocol_conformance_ok [OF assms] all by blast
qed

theorem conformance_errors_iff_witness:
  "\<exists>es. check_protocol_conformance demo_module
        = Inr (demo_module\<lparr>mo_errors := mo_errors demo_module @ es\<rparr>) \<and>
     (\<forall>e. e \<in> set es \<longleftrightarrow> (\<exists>cls \<in> set (dvals (mo_classes demo_module)). \<exists>pn proto pm.
        pn \<in> set (cl_protocols cls)
        \<and> dget (mo_protocols demo_module) pn = Some proto \<and> pm \<in> set (pc_methods proto)
        \<and> \<not> (\<exists>y d me. (cl_name cls, y) \<in> (super_rel demo_module)\<^sup>*
               \<and> cls_of demo_module y = Some d
               \<and> me \<in> set (cl_methods d) \<and> me_selector me = me_selector pm)
        \<and> e = conformance_error cls pn pm))"
  by (rule conformance_errors_iff [OF demo_module_ok demo_acyclic])

subsection \<open>Hierarchy queries\<close>

lemma subclass_walk_step:
  "n \<noteq> [] \<Longrightarrow> subclass_walk m t V (Some n) =
     (n \<notin> set V \<and> (n = t \<or> subclass_walk m t (n # V) (up_of m n)))"
  by (auto simp: up_of_def str_truthy_def split: option.splits)

lemma subclass_walk_names:
  "cur \<noteq> Some [] \<Longrightarrow> subclass_walk m t V cur \<longleftrightarrow> t \<in> set (names_up m V cur)"
proof (induction V cur rule: class_walk.loop_induct [where m = m])
  case (Step V n)
  then show ?case
    using up_of_nonempty by (auto simp: subclass_walk_step simp del: subclass_walk.simps(2))
qed (auto simp: subclass_walk_step simp del: subclass_walk.simps(2))

lemma conforms_walk_step:
  "n \<noteq> [] \<Longrightarrow> conforms_walk m p V (Some n) =
     (n \<notin> set V \<and> ((\<exists>c. cls_of m n = Some c \<and> p \<in> set (cl_protocols c))
                  \<or> conforms_walk m p (n # V) (up_of m n)))"
  by (auto simp: up_of_def str_truthy_def split: option.splits)

lemma conforms_walk_names:
  "cur \<noteq> Some [] \<Longrightarrow> conforms_walk m p V cur
     \<longleftrightarrow> (\<exists>y \<in> set (names_up m V cur). \<exists>c. cls_of m y = Some c \<and> p \<in> set (cl_protocols c))"
proof (induction V cur rule: class_walk.loop_induct [where m = m])
  case (Step V n)
  then show ?case
    using up_of_nonempty by (auto simp: conforms_walk_step simp del: conforms_walk.simps(2))
qed (auto simp: conforms_walk_step simp del: conforms_walk.simps(2))

text \<open>
  C37. The constraint check \<open>_is_same_or_subclass\<close> is the reflexive transitive superclass
  relation on the normalised names, on every module, cyclic ones included.
\<close>

theorem is_same_or_subclass_iff:
  "is_same_or_subclass a b m \<longleftrightarrow>
     normalize_class a \<noteq> [] \<and> (normalize_class a, normalize_class b) \<in> (super_rel m)\<^sup>*"
proof (cases "normalize_class a = []")
  case False
  then show ?thesis
    by (simp add: is_same_or_subclass_def subclass_walk_names set_names_up
        del: subclass_walk.simps(2) names_up.simps)
qed (simp add: is_same_or_subclass_def)

text \<open>
  C38. \<open>_class_conforms_to\<close> holds exactly when the class or a class above it declares the
  protocol.
\<close>

theorem class_conforms_to_iff:
  "class_conforms_to a p m \<longleftrightarrow> normalize_class a \<noteq> [] \<and>
     (\<exists>y c. (normalize_class a, y) \<in> (super_rel m)\<^sup>* \<and> cls_of m y = Some c \<and> p \<in> set (cl_protocols c))"
proof (cases "normalize_class a = []")
  case False
  then show ?thesis
    by (simp add: class_conforms_to_def conforms_walk_names set_names_up
        del: conforms_walk.simps(2) names_up.simps)
qed (simp add: class_conforms_to_def)

subsection \<open>Initialize classes\<close>

lemma collect_initialize_fold:
  "mo_initialize_classes (fold (\<lambda>cls m. case initialize_method cls of None \<Rightarrow> m
        | Some me \<Rightarrow> let m1 = check_initialize_guard (cl_name cls) me m in
            m1\<lparr>mo_initialize_classes := mo_initialize_classes m1 @ [cl_name cls]\<rparr>) cs m)
   = mo_initialize_classes m @ map cl_name (filter (\<lambda>c. initialize_method c \<noteq> None) cs)"
proof (induction cs arbitrary: m)
  case (Cons c cs)
  have keep: "mo_initialize_classes (check_initialize_guard n me m) = mo_initialize_classes m" for n me
    by (auto simp: check_initialize_guard_def add_diag_def split: option.splits)
  from Cons keep show ?case by (auto simp: Let_def split: option.splits)
qed simp

text \<open>
  The classes with \<open>+initialize\<close> are exactly those with such a class method, listed in
  the order of their ids, so (ids being topological) every class after its superclasses.
\<close>

theorem initialize_classes_ordered:
  assumes "mo_initialize_classes m = []"
  shows "\<exists>cs. mo_initialize_classes (collect_initialize_classes m) = map cl_name cs \<and>
     sorted (map cl_class_id cs) \<and>
     set cs = {c \<in> set (dvals (mo_classes m)).
        \<exists>me \<in> set (cl_methods c). me_is_class_method me \<and> me_selector me = ''initialize''}"
proof (intro exI conjI)
  let ?cs = "filter (\<lambda>c. initialize_method c \<noteq> None) (sort_key cl_class_id (dvals (mo_classes m)))"
  show "mo_initialize_classes (collect_initialize_classes m) = map cl_name ?cs"
    unfolding collect_initialize_classes_def collect_initialize_fold by (simp add: assms)
  show "sorted (map cl_class_id ?cs)" by (intro sorted_filter) simp
  show "set ?cs = {c \<in> set (dvals (mo_classes m)).
        \<exists>me \<in> set (cl_methods c). me_is_class_method me \<and> me_selector me = ''initialize''}"
    by (auto simp: initialize_method_def find_None_iff)
qed

theorem initialize_classes_ordered_witness:
  "\<exists>cs. mo_initialize_classes (collect_initialize_classes demo_module) = map cl_name cs \<and>
     sorted (map cl_class_id cs) \<and>
     set cs = {c \<in> set (dvals (mo_classes demo_module)).
        \<exists>me \<in> set (cl_methods c). me_is_class_method me \<and> me_selector me = ''initialize''}"
  by (rule initialize_classes_ordered) (simp add: demo_module_def OZModule_def)

subsection \<open>Property accessors\<close>



subsection \<open>Shared type objects\<close>

lemma set_prop_cell_ok:
  assumes "accessors_ok c" and "i < length (cl_properties c)"
  shows "accessors_ok (set_prop_cell i t c)"
proof -
  have "accessor_ok (set_prop_cell i t c) (if me_synth me = Some i
             then (if me_params me = [] then me\<lparr>me_return_type := t\<rparr>
                   else me\<lparr>me_params := map (\<lambda>p. p\<lparr>pa_type := t\<rparr>) (me_params me)\<rparr>)
             else me)" if "accessor_ok c me" for me
    using that assms(2)
    by (auto simp: accessor_ok_def set_prop_cell_def list_all_iff split: option.splits)
  moreover have "cl_methods (set_prop_cell i t c) = map (\<lambda>me. if me_synth me = Some i
             then (if me_params me = [] then me\<lparr>me_return_type := t\<rparr>
                   else me\<lparr>me_params := map (\<lambda>p. p\<lparr>pa_type := t\<rparr>) (me_params me)\<rparr>)
             else me) (cl_methods c)"
    by (simp add: set_prop_cell_def)
  ultimately show ?thesis using assms(1) unfolding accessors_ok_def list_all_iff
    by (simp only: set_map ball_simps) blast
qed

lemma set_prop_cell_lengths [simp]:
  "length (cl_properties (set_prop_cell i t c)) = length (cl_properties c)"
  "length (cl_methods (set_prop_cell i t c)) = length (cl_methods c)"
  by (simp_all add: set_prop_cell_def)

lemma update_method_ok:
  assumes "accessors_ok c" and "accessor_ok c me"
  shows "accessors_ok (c\<lparr>cl_methods := (cl_methods c)[k := me]\<rparr>)"
proof -
  have "accessor_ok (c\<lparr>cl_methods := (cl_methods c)[k := me]\<rparr>) = accessor_ok c"
    by (intro ext accessor_ok_cong) simp
  with assms show ?thesis
    using set_update_subset_insert [of "cl_methods c" k me]
    by (auto simp: accessors_ok_def list_all_iff)
qed

lemma enrich_method_ok:
  assumes "accessors_ok c" and "k < length (cl_methods c)"
  shows "accessors_ok (enrich_method m k c) \<and>
    length (cl_properties (enrich_method m k c)) = length (cl_properties c) \<and>
    length (cl_methods (enrich_method m k c)) = length (cl_methods c)"
proof -
  let ?me = "cl_methods c ! k"
  have ok: "accessor_ok c ?me" using assms by (simp add: accessors_ok_def list_all_length)
  show ?thesis
  proof (cases "me_synth ?me")
    case None
    then have "accessor_ok c (enrich_own_method m ?me)"
      by (simp add: accessor_ok_def enrich_own_method_def)
    with None show ?thesis
      using update_method_ok [OF assms(1)] by (simp add: enrich_method_def Let_def)
  next
    case (Some i)
    with ok have i: "i < length (cl_properties c)" by (simp add: accessor_ok_def)
    show ?thesis
    proof (cases "me_params ?me")
      case Nil
      with Some i assms(1) show ?thesis by (simp add: enrich_method_def Let_def set_prop_cell_ok)
    next
      case (Cons p ps)
      let ?new = "?me\<lparr>me_return_type := t\<rparr>"
      have "accessor_ok c (?me\<lparr>me_return_type := t\<rparr>)" for t
        using ok Some Cons by (simp add: accessor_ok_def)
      then have "accessors_ok (c\<lparr>cl_methods := (cl_methods c)[k := ?me\<lparr>me_return_type := t\<rparr>]\<rparr>)" for t
        using update_method_ok [OF assms(1)] by blast
      with Some Cons i show ?thesis by (simp add: enrich_method_def Let_def set_prop_cell_ok)
    qed
  qed
qed

lemma enrich_class_ok: "accessors_ok c \<Longrightarrow> accessors_ok (enrich_class m c)"
proof -
  assume ok: "accessors_ok c"
  define c1 where "c1 = c\<lparr>cl_ivars := map (\<lambda>iv. iv\<lparr>iv_type := enriched_type m (iv_name iv) (iv_type iv)\<rparr>)
                                 (cl_ivars c)\<rparr>"
  have "accessor_ok c1 = accessor_ok c" by (intro ext accessor_ok_cong) (simp add: c1_def)
  with ok have "accessors_ok c1" by (simp add: accessors_ok_def c1_def)
  then have props: "accessors_ok (fold (enrich_property m) [0..<length (cl_properties c1)] c1)"
    by (intro fold_invariant_set [where P = "\<lambda>c. accessors_ok c \<and>
          length (cl_properties c) = length (cl_properties c1)", THEN conjunct1])
       (auto simp: enrich_property_def Let_def set_prop_cell_ok)
  define c2 where "c2 = fold (enrich_property m) [0..<length (cl_properties c1)] c1"
  have "accessors_ok (fold (enrich_method m) [0..<length (cl_methods c2)] c2)"
    using props enrich_method_ok
    by (intro fold_invariant_set [where P = "\<lambda>c. accessors_ok c \<and>
          length (cl_methods c) = length (cl_methods c2)", THEN conjunct1])
       (auto simp: c2_def)
  then show ?thesis by (simp add: enrich_class_def Let_def c1_def c2_def)
qed

text \<open>
  C31. The accessors of a property keep its type: when synthesis has run on a class as
  collected, and the generic types found in the sources are then written through the shared
  type objects, every synthesized getter returns, and every synthesized setter takes, the
  type its property has now.
\<close>

theorem accessors_share_property_type:
  assumes "\<forall>me \<in> set (cl_methods c). me_synth me = None" and "synth_class c = Inr (c', ds)"
    and "me \<in> set (cl_methods (enrich_class m c'))" and "me_synth me = Some i"
  shows "i < length (cl_properties (enrich_class m c')) \<and>
    (if me_params me = [] then me_return_type me = pr_type (cl_properties (enrich_class m c') ! i)
     else list_all (\<lambda>p. pa_type p = pr_type (cl_properties (enrich_class m c') ! i)) (me_params me))"
proof -
  have "accessors_ok c" using assms(1) by (simp add: accessors_ok_def list_all_iff accessor_ok_def)
  then have "accessors_ok c'" using synth_class_step(1) [OF assms(2)] by (simp add: synth_step_def)
  then have "accessors_ok (enrich_class m c')" by (rule enrich_class_ok)
  then have "accessor_ok (enrich_class m c') me" using assms(3) by (simp add: accessors_ok_def list_all_iff)
  then show ?thesis using assms(4) by (simp add: accessor_ok_def)
qed

definition enriching_module :: oz_module where
  "enriching_module = OZModule\<lparr>mo_generic_types := [(''level'', ''OZArray<OZString *> *'')]\<rparr>"

theorem accessors_share_property_type_witness:
  "\<exists>c' ds me i. synth_class (the (cls_of demo_module ''Led'')) = Inr (c', ds) \<and>
     me \<in> set (cl_methods (enrich_class enriching_module c')) \<and> me_synth me = Some i \<and>
     me_params me = [] \<and>
     me_return_type me = pr_type (cl_properties (enrich_class enriching_module c') ! i)"
proof -
  let ?c = "the (cls_of demo_module ''Led'')"
  have "case synth_class ?c of Inl e \<Rightarrow> False | Inr (c', ds) \<Rightarrow>
     list_ex (\<lambda>me. me_synth me = Some 0 \<and> me_params me = [])
       (cl_methods (enrich_class enriching_module c'))"
    by code_simp
  then obtain c' ds me where c': "synth_class ?c = Inr (c', ds)"
    and me: "me \<in> set (cl_methods (enrich_class enriching_module c'))" "me_synth me = Some 0"
      "me_params me = []"
    by (auto simp: list_ex_iff split: sum.splits)
  have "\<forall>me \<in> set (cl_methods ?c). me_synth me = None"
    by (simp add: demo_module_def demo_class_def OZClass_def OZMethod_def)
  from accessors_share_property_type [OF this c' me(1,2)] me c' show ?thesis by auto
qed

end
