(* ===== verification/Front_End.thy ===== *)
theory Front_End
  imports Collect_Props Resolve_Props
begin

text \<open>
  The driver \<open>main\<close> of \<open>tools/oz_transpile/__main__.py\<close> up to the call of the emitter:
  loading the units (one AST per source), associating free items, linking the units,
  reading the generic annotations from the sources, resolution, and the decision whether
  the module goes to the emitter. What the driver prints is part of the result.
\<close>

record cli_args =
  ca_sources :: "string list"
  ca_verbose :: bool
  ca_strict :: bool

datatype front_result = Failed "string list" | Ready oz_module "string list"

definition error_line :: "string \<Rightarrow> string" where
  "error_line e = ''oz_transpile: error: '' @ e"

definition warning_line :: "string \<Rightarrow> string" where
  "warning_line d = ''oz_transpile: warning: '' @ d"

subsection \<open>Loading\<close>

definition attach_class :: "bool \<Rightarrow> string \<Rightarrow> oz_class \<Rightarrow> oz_class" where
  "attach_class stub stem cls =
     (let cls = (if stub then cls\<lparr>cl_is_foundation := True\<rparr> else cls)
      in if has_impl cls \<and> stem \<noteq> cl_name cls then cls\<lparr>cl_source_stem := stem\<rparr> else cls)"

definition attach_paths :: "world \<Rightarrow> string \<Rightarrow> oz_module \<Rightarrow> oz_module" where
  "attach_paths w src m =
     (if \<not> is_stub_source src
      then let m = (if w_is_file w src then m\<lparr>mo_source_path := Some src\<rparr> else m)
           in case mo_source_path m of
                Some p \<Rightarrow> m\<lparr>mo_source_paths := dput (mo_source_stem m) p (mo_source_paths m)\<rparr>
              | None \<Rightarrow> m
      else if w_is_file w src
      then m\<lparr>mo_source_paths := dput (mo_source_stem m) src (mo_source_paths m)\<rparr>
      else m)"

definition attach_source :: "world \<Rightarrow> string \<Rightarrow> oz_module \<Rightarrow> oz_module" where
  "attach_source w src m =
     (let m = attach_paths w src (m\<lparr>mo_source_stem := source_stem src\<rparr>)
      in m\<lparr>mo_classes := map_vals (attach_class (is_stub_source src) (source_stem src)) (mo_classes m)\<rparr>)"

definition load_unit :: "world \<Rightarrow> string list \<Rightarrow> nat \<Rightarrow> json \<Rightarrow> oz_module" where
  "load_unit w sources i ast_root =
     (let m = collect w ast_root
      in if i < length sources then attach_source w (sources ! i) m else m)"

definition load_units :: "world \<Rightarrow> string list \<Rightarrow> json list \<Rightarrow> oz_module list" where
  "load_units w sources asts = map2 (load_unit w sources) [0..<length asts] asts"

subsection \<open>Linking\<close>

definition link_units :: "oz_module list \<Rightarrow> oz_module outcome" where
  "link_units modules =
     (case map associate_module_items_with_class modules of
        [] \<Rightarrow> Inl IndexErr
      | [m] \<Rightarrow> Inr m
      | ms \<Rightarrow> Inr (merge_modules ms))"

definition add_source_generics :: "world \<Rightarrow> oz_module \<Rightarrow> oz_module" where
  "add_source_generics w m = m\<lparr>mo_generic_types :=
     fold (\<lambda>src gt. dict_update gt (extract_source_generics w src))
       (dvals (mo_source_paths m)) (mo_generic_types m)\<rparr>"

subsection \<open>The decision\<close>

definition front_verdict :: "cli_args \<Rightarrow> oz_module \<Rightarrow> front_result" where
  "front_verdict a m =
     (if mo_errors m \<noteq> [] then Failed (map error_line (mo_errors m))
      else let warned = (if ca_verbose a then map warning_line (mo_diagnostics m) else [])
           in if ca_strict a \<and> mo_diagnostics m \<noteq> []
              then Failed (warned @ map error_line (mo_diagnostics m))
              else Ready m warned)"

definition resolve_verdict :: "cli_args \<Rightarrow> oz_module outcome \<Rightarrow> front_result outcome" where
  "resolve_verdict a r =
     (case r of
        Inl (ValueErr e) \<Rightarrow> Inr (Failed [error_line e])
      | Inl e \<Rightarrow> Inl e
      | Inr m \<Rightarrow> Inr (front_verdict a m))"

definition front_end :: "world \<Rightarrow> cli_args \<Rightarrow> json list \<Rightarrow> front_result outcome" where
  "front_end w a asts =
     ebind (link_units (load_units w (ca_sources a) asts)) (\<lambda>m.
       resolve_verdict a (resolve (add_source_generics w m)))"

subsection \<open>The units are well formed\<close>

lemma attach_paths_tables [simp]:
  "mo_classes (attach_paths w src m) = mo_classes m"
  "mo_protocols (attach_paths w src m) = mo_protocols m"
  by (simp_all add: attach_paths_def Let_def split: option.split)

lemma attach_class_name [simp]: "cl_name (attach_class stub stem c) = cl_name c"
  by (simp add: attach_class_def Let_def)

lemma attach_source_ok: "module_ok m \<Longrightarrow> module_ok (attach_source w src m)"
  by (auto simp: module_ok_alt attach_source_def Let_def dget_map_vals)

lemma load_unit_ok: "module_ok (load_unit w sources i ast_root)"
  by (simp add: load_unit_def Let_def collect_ok attach_source_ok)

lemma load_units_ok: "m \<in> set (load_units w sources asts) \<Longrightarrow> module_ok m"
  by (auto simp: load_units_def load_unit_ok)

lemma load_units_length [simp]: "length (load_units w sources asts) = length asts"
  by (simp add: load_units_def)

lemma link_units_ok:
  assumes "\<And>m. m \<in> set ms \<Longrightarrow> module_ok m" and "link_units ms = Inr m"
  shows "module_ok m"
proof -
  have ok: "module_ok u" if "u \<in> set (map associate_module_items_with_class ms)" for u
    using that assms(1) associate_ok by auto
  with assms(2) merge_modules_ok [of "map associate_module_items_with_class ms"] show ?thesis
    by (auto simp: link_units_def split: list.splits)
qed

lemma link_units_total: "ms \<noteq> [] \<Longrightarrow> \<exists>m. link_units ms = Inr m"
  by (cases ms; cases "tl ms") (auto simp: link_units_def)

lemma add_source_generics_ok: "module_ok m \<Longrightarrow> module_ok (add_source_generics w m)"
  using module_ok_cong [of "add_source_generics w m" m] by (simp add: add_source_generics_def)

lemma front_end_unfold:
  assumes "asts \<noteq> []"
  obtains m where "module_ok m" and "front_end w a asts = resolve_verdict a (resolve m)"
proof -
  from assms have "load_units w (ca_sources a) asts \<noteq> []"
    by (metis length_0_conv load_units_length)
  from link_units_total [OF this] obtain u where
    u: "link_units (load_units w (ca_sources a) asts) = Inr u" by blast
  then have "module_ok u" using load_units_ok link_units_ok by blast
  then have "module_ok (add_source_generics w u)" by (rule add_source_generics_ok)
  with u that show thesis by (simp add: front_end_def)
qed

lemma collect_initialize_classes_protocols:
  "mo_protocols (collect_initialize_classes m) = mo_protocols m"
  unfolding collect_initialize_classes_def
  by (rule fold_invariant_set [where P = "\<lambda>x. mo_protocols x = mo_protocols m"])
     (auto simp: check_initialize_guard_def add_diag_def Let_def split: option.splits)

lemma resolved_protocols [simp]: "mo_protocols (resolved_from m1 ks) = mo_protocols m1"
proof -
  have "mo_protocols (collect_initialize_classes m) = mo_protocols m" for m
    using collect_initialize_classes_protocols .
  then show ?thesis
    by (simp add: resolved_from_def conformance_checked_def validate_generic_types_def
        enrich_model_generics_def Let_def)
qed

lemma resolve_ok:
  assumes "module_ok m" and "resolve m = Inr m'"
  shows "module_ok m' \<and> acyclic_module m' \<and> dkeys (mo_classes m') = dkeys (mo_classes m)"
  using assms(1)
proof (cases rule: resolve_cases)
  case (resolved m1 ks)
  then have m': "m' = resolved_from m1 ks" using assms(2) by simp
  have s1: "shape m1 = shape m" and p1: "mo_protocols m1 = mo_protocols m"
    using synthesize_properties_shape [OF resolved(3)] by (simp_all add: shape_def)
  have "shape m' = shape m1"
    unfolding m' using hier_view_shape [OF resolved_hier_view] numbered_module_shape by metis
  with s1 have s: "shape m' = shape m" by simp
  moreover have "mo_protocols m' = mo_protocols m" by (simp add: m' p1)
  ultimately show ?thesis
    using assms(1) resolved(1) shape_ok shape_acyclic shape_keys by metis
qed (use assms(2) in auto)

subsection \<open>A unit for the concrete instances\<close>

text \<open>An AST with a root class, a subclass and a class method \<open>+initialize\<close>.\<close>

definition unit_args :: cli_args where
  "unit_args = \<lparr>ca_sources = [''/app/Led.m''], ca_verbose = False, ca_strict = True\<rparr>"

definition unit_ast :: json where
  "unit_ast = JObj [(''kind'', JStr ''TranslationUnitDecl''), (''inner'', JArr
     [JObj [(''kind'', JStr ''ObjCInterfaceDecl''), (''name'', JStr ''OZObject'')],
      JObj [(''kind'', JStr ''ObjCInterfaceDecl''), (''name'', JStr ''Led''),
            (''super'', JObj [(''name'', JStr ''OZObject'')])],
      JObj [(''kind'', JStr ''ObjCImplementationDecl''), (''name'', JStr ''Led''), (''inner'', JArr
        [JObj [(''kind'', JStr ''ObjCMethodDecl''), (''name'', JStr ''initialize''), (''instance'', JBool False),
               (''inner'', JArr [JObj [(''kind'', JStr ''CompoundStmt'')]])]])]])]"

lemma unit_ready: "\<exists>m out. front_end empty_world unit_args [unit_ast] = Inr (Ready m out)"
proof -
  have "(case front_end empty_world unit_args [unit_ast] of
     Inr (Ready m out) \<Rightarrow> mo_initialize_classes m = [''Led''] | _ \<Rightarrow> False)"
    by code_simp
  then show ?thesis by (auto split: sum.splits front_result.splits)
qed

subsection \<open>Properties\<close>



lemma front_end_resolved:
  assumes "front_end w a asts = Inr (Ready m out)"
  obtains m0 where "module_ok m0" and "resolve m0 = Inr m"
    and "mo_errors m = []" and "ca_strict a \<longrightarrow> mo_diagnostics m = []"
proof -
  have "asts \<noteq> []" using assms by (auto simp: front_end_def load_units_def link_units_def)
  from front_end_unfold [OF this, of w a] obtain m0 where
    ok: "module_ok m0" and front: "front_end w a asts = resolve_verdict a (resolve m0)" by blast
  from front assms have "resolve m0 = Inr m" "mo_errors m = []" "ca_strict a \<longrightarrow> mo_diagnostics m = []"
    by (auto simp: resolve_verdict_def front_verdict_def Let_def split: sum.splits exn.splits if_splits)
  with ok that show ?thesis by blast
qed

text \<open>
  C2. What the emitter relies on holds of every module the driver hands to it: the tables
  are well formed, there is no inheritance cycle, no error is pending (no diagnostic either
  under \<open>--strict\<close>), and the class ids number all classes with superclasses first.
\<close>

theorem front_end_ready:
  assumes "front_end w a asts = Inr (Ready m out)"
  shows "module_ok m \<and> acyclic_module m \<and> mo_errors m = [] \<and>
     (ca_strict a \<longrightarrow> mo_diagnostics m = []) \<and>
     (\<exists>ks. distinct ks \<and> set ks = set (dkeys (mo_classes m)) \<and>
        (\<forall>i < length ks. \<exists>c. cls_of m (ks ! i) = Some c \<and> cl_class_id c = int i \<and>
           (\<forall>s. super_in m c = Some s \<longrightarrow> s \<in> set (take i ks))))"
proof -
  obtain m0 where ok: "module_ok m0" and res: "resolve m0 = Inr m"
    and ready: "mo_errors m = []" "ca_strict a \<longrightarrow> mo_diagnostics m = []"
    using front_end_resolved [OF assms] .
  from resolve_ok [OF ok res] resolve_numbers_classes_unit [OF ok res] ready show ?thesis by simp
qed

theorem front_end_ready_witness:
  "\<exists>m out. front_end empty_world unit_args [unit_ast] = Inr (Ready m out) \<and>
     module_ok m \<and> acyclic_module m \<and> mo_errors m = [] \<and>
     (ca_strict unit_args \<longrightarrow> mo_diagnostics m = []) \<and>
     (\<exists>ks. distinct ks \<and> set ks = set (dkeys (mo_classes m)) \<and>
        (\<forall>i < length ks. \<exists>c. cls_of m (ks ! i) = Some c \<and> cl_class_id c = int i \<and>
           (\<forall>s. super_in m c = Some s \<longrightarrow> s \<in> set (take i ks))))"
  using unit_ready front_end_ready [of empty_world unit_args "[unit_ast]"] by blast

end
