(* ===== verification/Emit_Lookup.thy ===== *)
theory Emit_Lookup
  imports Hierarchy_Facts
begin

text \<open>
  The lookups of the emitter (\<open>tools/oz_transpile/emit.py\<close>): C names of selectors and
  methods, the class that implements or defines a selector, the \<open>base.\<close> chains that reach
  inherited fields, ivar access control, and the class of a receiver. Loops up the
  hierarchy return \<open>Inl Diverges\<close> where the Python loop has no end.
\<close>

subsection \<open>Walking up\<close>

definition walked :: "'a option \<Rightarrow> 'a outcome" where
  "walked x = (case x of None \<Rightarrow> Inl Diverges | Some r \<Rightarrow> Inr r)"

lemma walked_simps [simp]: "walked None = Inl Diverges" "walked (Some r) = Inr r"
  by (simp_all add: walked_def)

text \<open>
  \<open>while name: c = module.classes.get(name); if not c: break; ...; name = c.superclass\<close>,
  whose body may return.
\<close>

fun names_until :: "nat \<Rightarrow> oz_module \<Rightarrow> (string \<Rightarrow> oz_class \<Rightarrow> 'r option) \<Rightarrow> string \<Rightarrow> 'r option option" where
  "names_until 0 m body n = None"
| "names_until (Suc fuel) m body n =
     (case cls_of m n of
        None \<Rightarrow> Some None
      | Some c \<Rightarrow>
          (case body n c of
             Some r \<Rightarrow> Some (Some r)
           | None \<Rightarrow>
               (case up_of m n of
                  None \<Rightarrow> Some None
                | Some s \<Rightarrow> names_until fuel m body s)))"

definition no_super :: "oz_module \<Rightarrow> oz_class \<Rightarrow> bool" where
  "no_super m c \<longleftrightarrow> super_in m c = None"

text \<open>A list comprehension whose element expression may raise.\<close>

fun emap :: "('a \<Rightarrow> 'b outcome) \<Rightarrow> 'a list \<Rightarrow> 'b list outcome" where
  "emap f [] = Inr []"
| "emap f (x # xs) = ebind (f x) (\<lambda>y. ebind (emap f xs) (\<lambda>ys. Inr (y # ys)))"

lemma emap_total:
  "(\<And>x. x \<in> set xs \<Longrightarrow> f x = Inr (g x)) \<Longrightarrow> emap f xs = Inr (map g xs)"
  by (induction xs) auto

subsection \<open>C names\<close>

definition selector_to_c :: "string \<Rightarrow> string" where
  "selector_to_c selector = str_replace '':'' ''_'' selector"

definition inline_accessor_name :: "string \<Rightarrow> string \<Rightarrow> string \<Rightarrow> string" where
  "inline_accessor_name cls c_sel suffix =
     cls @ ''_'' @ c_sel @ (if endswith c_sel ''_'' then [] else ''_'') @ suffix"

definition header_stem :: "oz_class \<Rightarrow> string" where
  "header_stem cls = (if cl_source_stem cls \<noteq> [] then cl_source_stem cls else cl_name cls)"

definition struct_ptr :: "string \<Rightarrow> string" where
  "struct_ptr n = ''struct '' @ n @ '' *''"

definition param_decls :: "oz_param list \<Rightarrow> string list" where
  "param_decls ps = map (\<lambda>p. c_param_decl (pa_type p) (pa_name p)) ps"

definition params_or_void :: "oz_param list \<Rightarrow> string" where
  "params_or_void ps = (if ps = [] then ''void'' else str_join '', '' (param_decls ps))"

definition is_init_family :: "string \<Rightarrow> bool" where
  "is_init_family sel \<longleftrightarrow> sel = ''init'' \<or> startswith sel ''init:'' \<or> startswith sel ''initWith''"

definition method_return :: "oz_class \<Rightarrow> oz_method \<Rightarrow> string" where
  "method_return cls m =
     (let raw_ret = strip (raw_qual_type (me_return_type m))
      in if raw_ret = ''instancetype'' \<or> (raw_ret = ''id'' \<and> is_init_family (me_selector m))
         then struct_ptr (cl_name cls)
         else c_type (me_return_type m))"

definition method_prototype :: "oz_class \<Rightarrow> oz_method \<Rightarrow> string" where
  "method_prototype cls m =
     (let prefix = (if me_is_class_method m then ''cls_'' else []);
          params_str =
            (if me_is_class_method m then params_or_void (me_params m)
             else struct_ptr (cl_name cls) @ ''self''
                  @ concat (map ((@) '', '') (param_decls (me_params m))))
      in method_return cls m @ '' '' @ cl_name cls @ ''_'' @ prefix
         @ selector_to_c (me_selector m) @ ''('' @ params_str @ '')'')"

text \<open>The C signature of a free function.\<close>

definition function_signature :: "oz_function \<Rightarrow> string" where
  "function_signature f =
     c_type (fn_return_type f) @ '' '' @ fn_name f @ ''('' @ params_or_void (fn_params f) @ '')''"

subsection \<open>Which class a selector comes from\<close>

definition object_ivars :: "oz_class \<Rightarrow> oz_ivar list" where
  "object_ivars cls = filter (\<lambda>iv. is_object (iv_type iv) \<and> \<not> is_unretained (iv_type iv)) (cl_ivars cls)"

definition has_auto_dealloc :: "oz_class \<Rightarrow> oz_module \<Rightarrow> bool" where
  "has_auto_dealloc cls m \<longleftrightarrow> object_ivars cls \<noteq> [] \<or> \<not> no_super m cls"

definition declares :: "string \<Rightarrow> oz_class \<Rightarrow> bool" where
  "declares sel c \<longleftrightarrow> list_ex (\<lambda>me. me_selector me = sel) (cl_methods c)"

definition find_implementing_class :: "oz_class \<Rightarrow> string \<Rightarrow> oz_module \<Rightarrow> oz_class option outcome" where
  "find_implementing_class cls selector m =
     (if selector = ''dealloc'' \<and> has_auto_dealloc cls m then Inr (Some cls)
      else walked (climb_until (hier_fuel m) m
             (\<lambda>cur. if declares selector cur then Some cur else None) cls))"

definition ROOT_INTROSPECTION_SELS :: "string list" where
  "ROOT_INTROSPECTION_SELS =
     [''isEqual:'', ''cDescription:maxLength:'', ''retain'', ''release'', ''retainCount'']"

definition defines_selector :: "string \<Rightarrow> string \<Rightarrow> oz_class \<Rightarrow> string option" where
  "defines_selector sel name c =
     (if declares sel c then Some name
      else if \<not> str_truthy (cl_superclass c) \<and> sel \<in> set ROOT_INTROSPECTION_SELS then Some name
      else None)"

definition find_defining_class :: "string \<Rightarrow> string \<Rightarrow> oz_module \<Rightarrow> string outcome" where
  "find_defining_class cls selector m =
     (if cls = [] then Inr cls
      else ebind (walked (names_until (hier_fuel m) m (defines_selector selector) cls)) (\<lambda>r.
             Inr (case r of Some name \<Rightarrow> name | None \<Rightarrow> cls)))"

definition find_dispatch_kind :: "string \<Rightarrow> oz_module \<Rightarrow> dispatch_kind" where
  "find_dispatch_kind selector m =
     (case find (\<lambda>me. me_selector me = selector) (concat (map cl_methods (dvals (mo_classes m)))) of
        Some me \<Rightarrow> me_dispatch me
      | None \<Rightarrow> STATIC)"

subsection \<open>Fields through the base chain\<close>

definition bases :: "nat \<Rightarrow> string" where
  "bases n = concat (replicate n ''base.'')"

text \<open>The number of superclass steps of \<open>while cur.superclass and cur.superclass in classes\<close>.\<close>

definition super_steps :: "oz_class \<Rightarrow> oz_module \<Rightarrow> nat outcome" where
  "super_steps cls m = ebind (walked (class_line m cls)) (\<lambda>line. Inr (length line - 1))"

definition base_chain :: "string \<Rightarrow> oz_module \<Rightarrow> string outcome" where
  "base_chain cls m =
     (case cls_of m cls of
        None \<Rightarrow> Inr ''obj->''
      | Some c \<Rightarrow> ebind (super_steps c m) (\<lambda>n. Inr (''obj->'' @ bases n)))"

definition self_lock_chain :: "oz_class \<Rightarrow> oz_module \<Rightarrow> string outcome" where
  "self_lock_chain cls m =
     ebind (super_steps cls m) (\<lambda>n. Inr (''self->'' @ bases n @ ''_oz_prop_lock''))"

definition has_ivar :: "string \<Rightarrow> oz_class \<Rightarrow> bool" where
  "has_ivar iv c \<longleftrightarrow> list_ex (\<lambda>i. iv_name i = iv) (cl_ivars c)"

text \<open>The loop of \<open>_ivar_base_chain\<close>: \<open>depth\<close> at the class that declares the ivar.\<close>

fun ivar_depth :: "nat \<Rightarrow> oz_module \<Rightarrow> string \<Rightarrow> nat \<Rightarrow> oz_class \<Rightarrow> nat option option" where
  "ivar_depth 0 m iv d cur = None"
| "ivar_depth (Suc fuel) m iv d cur =
     (case super_in m cur of
        None \<Rightarrow> Some None
      | Some s \<Rightarrow>
          let cur = the (cls_of m s)
          in if has_ivar iv cur then Some (Some (Suc d)) else ivar_depth fuel m iv (Suc d) cur)"

definition ivar_base_chain :: "string \<Rightarrow> oz_class \<Rightarrow> oz_module \<Rightarrow> string outcome" where
  "ivar_base_chain iv cls m =
     (if has_ivar iv cls then Inr []
      else ebind (walked (ivar_depth (hier_fuel m) m iv 0 cls)) (\<lambda>r.
             Inr (case r of Some d \<Rightarrow> bases d | None \<Rightarrow> [])))"

definition find_ivar_owner :: "string \<Rightarrow> oz_module \<Rightarrow> (oz_class \<times> oz_ivar) option" where
  "find_ivar_owner iv m =
     first_return (\<lambda>c. map_option (Pair c) (find (\<lambda>i. iv_name i = iv) (cl_ivars c)))
       (dvals (mo_classes m))"

subsection \<open>Access control\<close>

definition is_subclass :: "string \<Rightarrow> string \<Rightarrow> oz_module \<Rightarrow> bool outcome" where
  "is_subclass cls parent m =
     ebind (walked (names_until (hier_fuel m) m
              (\<lambda>n c. if str_truthy (cl_superclass c) \<and> cl_superclass c = Some parent
                     then Some () else None) cls))
       (\<lambda>r. Inr (r \<noteq> None))"

definition check_ivar_access :: "oz_ivar \<Rightarrow> oz_class \<Rightarrow> oz_class \<Rightarrow> oz_module \<Rightarrow> bool outcome" where
  "check_ivar_access ivar owner accessor m =
     (if iv_access ivar = ''public'' then Inr True
      else if iv_access ivar = ''private'' then Inr (cl_name accessor = cl_name owner)
      else if cl_name accessor = cl_name owner then Inr True
      else is_subclass (cl_name accessor) (cl_name owner) m)"

subsection \<open>The class of a receiver\<close>

text \<open>\<open>while x.kind in kinds\<close> and it has children: the first child.\<close>

fun unwrap_kinds :: "string list \<Rightarrow> json \<Rightarrow> json" where
  "unwrap_kinds kinds node =
     (if jkind node \<in> set kinds
      then (case jinner node of [] \<Rightarrow> node | c # _ \<Rightarrow> unwrap_kinds kinds c)
      else node)"

declare unwrap_kinds.simps [simp del]

text \<open>The class a type names, \<open>None\<close> for \<open>id\<close> and \<open>instancetype\<close>.\<close>

definition named_object :: "string \<Rightarrow> string option" where
  "named_object qt =
     (let oz = OZType qt; name = rstrip_ptr (strip_qualifiers oz)
      in if is_object oz \<and> name \<noteq> [] \<and> name \<notin> {''id'', ''instancetype''} then Some name else None)"

definition message_class :: "json \<Rightarrow> oz_module \<Rightarrow> string option" where
  "message_class node m =
     (let u = unwrap_kinds [''ImplicitCastExpr'', ''ParenExpr''] node;
          ct = jstr (jobj u ''classType'') ''qualType'' []
      in if jkind u = ''ObjCMessageExpr'' \<and> ct \<noteq> [] \<and> cls_of m ct \<noteq> None then Some ct else None)"

definition infer_receiver_class :: "json \<Rightarrow> oz_class \<Rightarrow> oz_module \<Rightarrow> string" where
  "infer_receiver_class node cls m =
     (case named_object (qual_type node []) of
        Some name \<Rightarrow> name
      | None \<Rightarrow> (case message_class node m of Some ct \<Rightarrow> ct | None \<Rightarrow> cl_name cls))"

definition try_infer_concrete_class :: "json \<Rightarrow> oz_module \<Rightarrow> string option" where
  "try_infer_concrete_class node m =
     (if \<not> jtrue node then None
      else case named_object (qual_type node []) of
             Some name \<Rightarrow> if cls_of m name \<noteq> None then Some name else message_class node m
           | None \<Rightarrow> message_class node m)"

definition collect_msg_args :: "json list \<Rightarrow> json list" where
  "collect_msg_args inner = (if length inner \<le> 1 then [] else drop 1 inner)"

end
