(* ===== verification/Emit_Ownership.thy ===== *)
theory Emit_Ownership
  imports Emit_Lookup
begin

text \<open>
  The analyses the emitter (\<open>tools/oz_transpile/emit.py\<close>) makes before it writes code:
  which expressions and methods return an owned (+1) reference, which borrow, how many
  objects and item slots the bodies allocate; and the preparation of the module
  (association of free items, the synthetic \<open>OZSpinLock\<close> class, Foundation tags).
\<close>

subsection \<open>Owned and borrowed expressions\<close>

definition literal_kinds :: "string list" where
  "literal_kinds =
     [''ObjCBoxedExpr'', ''ObjCArrayLiteral'', ''ObjCDictionaryLiteral'', ''ObjCStringLiteral'']"

definition cast_kinds :: "string list" where
  "cast_kinds =
     [''ImplicitCastExpr'', ''ExprWithCleanups'', ''ParenExpr'', ''CStyleCastExpr'', ''ExplicitCastExpr'']"

definition allocating_sels :: "string list" where
  "allocating_sels = [''alloc'', ''new'', ''copy'', ''mutableCopy'']"

fun is_fresh_alloc :: "json \<Rightarrow> bool" where
  "is_fresh_alloc node =
     (if jkind node \<in> set literal_kinds then True
      else if jkind node = ''ImplicitCastExpr''
      then (case jinner node of [] \<Rightarrow> False | c # _ \<Rightarrow> is_fresh_alloc c)
      else False)"

declare is_fresh_alloc.simps [simp del]

text \<open>An owning message: \<open>alloc\<close> and friends, the \<open>init\<close> family, class factory methods.\<close>

definition owning_message :: "json \<Rightarrow> bool" where
  "owning_message node \<longleftrightarrow>
     (let sel = jstr node ''selector'' []
      in sel \<in> set allocating_sels \<or> startswith sel ''init'' \<or> jstr node ''receiverKind'' [] = ''class'')"

fun is_owning_expr :: "json \<Rightarrow> bool" where
  "is_owning_expr node =
     (if jkind node \<in> set literal_kinds then True
      else if jkind node \<in> set cast_kinds
      then (case jinner node of [] \<Rightarrow> False | c # _ \<Rightarrow> is_owning_expr c)
      else jkind node = ''ObjCMessageExpr'' \<and> owning_message node)"

declare is_owning_expr.simps [simp del]

text \<open>\<open>qt.split("*")[0].strip().split()[-1] if "*" in qt else ""\<close>.\<close>

definition receiver_class_name :: "string \<Rightarrow> string outcome" where
  "receiver_class_name qt =
     (if CHR ''*'' \<notin> set qt then Inr []
      else let s = strip (takeWhile (\<lambda>c. c \<noteq> CHR ''*'') qt)
           in if s = [] then Inl IndexErr else Inr (rev (takeWhile (\<lambda>c. \<not> is_space c) (rev s))))"

definition owned_by_analysis :: "(string \<times> string) list \<Rightarrow> json \<Rightarrow> bool outcome" where
  "owned_by_analysis owning node =
     (if jstr node ''receiverKind'' [] \<noteq> ''instance'' then Inr False
      else case jinner node of
             [] \<Rightarrow> Inr False
           | recv # _ \<Rightarrow>
               ebind (receiver_class_name (qual_type recv [])) (\<lambda>cls.
                 Inr (cls \<noteq> [] \<and> (cls, jstr node ''selector'' []) \<in> set owning)))"

fun is_borrowed_object_expr :: "(string \<times> string) list \<Rightarrow> json \<Rightarrow> bool outcome" where
  "is_borrowed_object_expr owning node =
     (if jkind node \<in> set cast_kinds
      then (case jinner node of [] \<Rightarrow> Inr False | c # _ \<Rightarrow> is_borrowed_object_expr owning c)
      else if jkind node = ''ObjCMessageExpr''
      then (if owning_message node then Inr False
            else ebind (owned_by_analysis owning node) (\<lambda>b. Inr (\<not> b)))
      else if jkind node = ''DeclRefExpr'' then Inr (is_object (OZType (qual_type node [])))
      else Inr False)"

declare is_borrowed_object_expr.simps [simp del]

fun is_bridge_cast_expr :: "json \<Rightarrow> bool" where
  "is_bridge_cast_expr node =
     (if jkind node = ''ObjCBridgedCastExpr'' then True
      else if jkind node \<in> {''ImplicitCastExpr'', ''ExprWithCleanups'', ''ParenExpr''}
      then (case jinner node of [] \<Rightarrow> False | c # _ \<Rightarrow> is_bridge_cast_expr c)
      else False)"

declare is_bridge_cast_expr.simps [simp del]

text \<open>The variable a return expression names, through casts (\<open>None\<close> also for no name).\<close>

fun find_returned_var :: "json \<Rightarrow> string option" where
  "find_returned_var node =
     (if \<not> jtrue node then None
      else if jkind node = ''DeclRefExpr'' then jstr_opt (jobj node ''referencedDecl'') ''name''
      else if jkind node \<in> {''ImplicitCastExpr'', ''CStyleCastExpr'', ''ParenExpr''}
      then (case jinner node of [] \<Rightarrow> None | c # _ \<Rightarrow> find_returned_var c)
      else None)"

declare find_returned_var.simps [simp del]

subsection \<open>Methods that return owned references\<close>

definition find_returns :: "json \<Rightarrow> json list" where
  "find_returns node = filter (\<lambda>n. jkind n = ''ReturnStmt'') (nodes node)"

text \<open>The first child of a \<open>ExprWithCleanups\<close>, any other node itself.\<close>

definition drop_cleanups :: "json \<Rightarrow> json" where
  "drop_cleanups node =
     (if jkind node = ''ExprWithCleanups''
      then (case jinner node of [] \<Rightarrow> node | c # _ \<Rightarrow> c) else node)"

definition owning_return :: "json \<Rightarrow> bool" where
  "owning_return ret =
     (case jinner ret of [] \<Rightarrow> False | e # _ \<Rightarrow> is_owning_expr (drop_cleanups e))"

definition returns_owned :: "oz_method \<Rightarrow> bool" where
  "returns_owned me \<longleftrightarrow>
     is_object (me_return_type me) \<and> body_truthy (me_body_ast me)
     \<and> me_selector me \<notin> set allocating_sels \<and> \<not> startswith (me_selector me) ''init''
     \<and> (let returns = find_returns (the (me_body_ast me))
        in returns \<noteq> [] \<and> list_all owning_return returns)"

definition find_owning_return_methods :: "oz_module \<Rightarrow> (string \<times> string) list" where
  "find_owning_return_methods m =
     concat (map (\<lambda>cls. map (\<lambda>me. (cl_name cls, me_selector me)) (filter returns_owned (cl_methods cls)))
       (dvals (mo_classes m)))"

subsection \<open>Allocation counts\<close>

text \<open>The bodies a module holds, in the order the counting walks visit them.\<close>

definition truthy_bodies :: "json option list \<Rightarrow> json list" where
  "truthy_bodies bs = map the (filter body_truthy bs)"

definition module_bodies :: "oz_module \<Rightarrow> json list" where
  "module_bodies m =
     concat (map (\<lambda>c. truthy_bodies (map me_body_ast (cl_methods c))
                      @ truthy_bodies (map fn_body_ast (cl_functions c))) (dvals (mo_classes m)))
     @ truthy_bodies (map fn_body_ast (mo_functions m))
     @ concat (map (\<lambda>os. truthy_bodies (map fn_body_ast (os_functions os))) (mo_orphan_sources m))"

definition item_slots :: "json \<Rightarrow> nat" where
  "item_slots node =
     (if jkind node \<in> {''ObjCArrayLiteral'', ''ObjCDictionaryLiteral''} then length (jinner node) else 0)"

definition count_item_slots :: "oz_module \<Rightarrow> nat" where
  "count_item_slots m = sum_list (map item_slots (concat (map nodes (module_bodies m))))"

text \<open>The class a node allocates an object of.\<close>

definition allocates :: "json \<Rightarrow> string option" where
  "allocates node =
     (if jkind node = ''ObjCMessageExpr'' \<and> jstr node ''selector'' [] = ''alloc''
         \<and> jstr node ''receiverKind'' [] = ''class''
      then let cls = jstr (jobj node ''classType'') ''qualType'' []
           in if cls \<noteq> [] then Some cls else None
      else if jkind node = ''ObjCArrayLiteral'' then Some ''OZArray''
      else if jkind node = ''ObjCDictionaryLiteral'' then Some ''OZDictionary''
      else if jkind node = ''ObjCBoxedExpr'' then Some ''OZQ31''
      else if jkind node = ''ObjCAtSynchronizedStmt'' then Some ''OZSpinLock''
      else None)"

definition tally :: "json \<Rightarrow> (string, nat) dict \<Rightarrow> (string, nat) dict" where
  "tally node counts =
     (case allocates node of
        None \<Rightarrow> counts
      | Some cls \<Rightarrow> dput cls (dget_or counts cls 0 + 1) counts)"

definition count_alloc_calls :: "oz_module \<Rightarrow> (string, nat) dict" where
  "count_alloc_calls m = fold tally (concat (map nodes (module_bodies m))) []"

subsection \<open>Preparation of the module\<close>

definition inject_oz_spinlock :: "string \<Rightarrow> oz_module \<Rightarrow> oz_module" where
  "inject_oz_spinlock root_class m =
     (if dget_or (count_alloc_calls m) ''OZSpinLock'' 0 = 0 \<or> cls_of m ''OZSpinLock'' \<noteq> None then m
      else let max_id = (if mo_classes m = [] then -1
                         else Max (set (map cl_class_id (dvals (mo_classes m)))));
               ivar = (\<lambda>n t. \<lparr>iv_name = n, iv_type = OZType t, iv_access = ''protected''\<rparr>)
           in m\<lparr>mo_classes := dput ''OZSpinLock'' ((OZClass ''OZSpinLock'' (Some root_class))
                 \<lparr>cl_ivars := [ivar ''_lock'' ''oz_spinlock_t'', ivar ''_key'' ''oz_spinlock_key_t'',
                               ivar ''_obj'' ''OZObject *''],
                  cl_class_id := max_id + 1, cl_base_depth := 1, cl_is_foundation := True\<rparr>)
                (mo_classes m)\<rparr>)"

definition emit_primary :: "oz_class list \<Rightarrow> string option" where
  "emit_primary classes =
     (case primary_class classes None of
        Some p \<Rightarrow> Some p
      | None \<Rightarrow>
          (case find (\<lambda>c. cl_methods c \<noteq> [] \<or> cl_ivars c \<noteq> []) classes of
             Some c \<Rightarrow> Some (cl_name c)
           | None \<Rightarrow> (case classes of [] \<Rightarrow> None | c # _ \<Rightarrow> Some (cl_name c))))"

definition associate_module_items :: "oz_module \<Rightarrow> oz_module" where
  "associate_module_items m =
     (if mo_classes m = [] \<or> \<not> has_items m then m
      else case emit_primary (dvals (mo_classes m)) of
             Some p \<Rightarrow> clear_items (modify_class p (give_items m) m)
           | None \<Rightarrow> m)"

definition tag_foundation :: "oz_class \<Rightarrow> oz_class" where
  "tag_foundation c =
     (if \<not> cl_is_foundation c \<and> cl_name c \<in> set FOUNDATION_NAMES then c\<lparr>cl_is_foundation := True\<rparr> else c)"

definition ensure_foundation_tags :: "string \<Rightarrow> oz_module \<Rightarrow> oz_module" where
  "ensure_foundation_tags root_class m =
     (let m = m\<lparr>mo_classes := map_vals tag_foundation (mo_classes m)\<rparr>
      in modify_class root_class (\<lambda>c. c\<lparr>cl_is_foundation := True\<rparr>) m)"

definition prepare_module :: "string \<Rightarrow> oz_module \<Rightarrow> oz_module" where
  "prepare_module root_class m =
     ensure_foundation_tags root_class (inject_oz_spinlock root_class (associate_module_items m))"

end
