(* ===== verification/Emit_State.thy ===== *)
theory Emit_State
  imports Emit_Ownership "HOL-Library.Product_Lexorder"
begin

text \<open>
  The machinery of body emission in \<open>tools/oz_transpile/emit.py\<close>. The fields of \<open>_EmitCtx\<close>
  that never change while a body is emitted are the record \<open>emit_env\<close>, the others (and the
  error and diagnostic logs of the module) are \<open>emit_state\<close>. What a function writes to its
  buffer is its result: an emitter takes a state to a text and a state, or raises.

  The emitters are built from a few combinators; \<open>Emit_Logic\<close> proves properties of emission
  by rules for the combinators.
\<close>

subsection \<open>Context\<close>

record emit_env =
  ee_cls :: oz_class
  ee_module :: oz_module
  ee_root :: string
  ee_method :: "oz_method option"
  ee_has_item_pool :: bool
  ee_source :: "string option"
  ee_owning :: "(string \<times> string) list"

type_synonym frame = "(string, oz_type) dict"

record emit_state =
  es_scope_vars :: "frame list"
  es_consumed :: "string list"
  es_loops :: "nat list"
  es_pre :: "string list"
  es_strings :: "string list"
  es_blocks :: "string list"
  es_tmp :: nat
  es_sync :: nat
  es_dedup :: "(string, string) dict"
  es_errors :: "string list"
  es_diags :: "string list"

definition fresh_state :: emit_state where
  "fresh_state =
     \<lparr>es_scope_vars = [], es_consumed = [], es_loops = [], es_pre = [], es_strings = [],
      es_blocks = [], es_tmp = 0, es_sync = 0, es_dedup = [], es_errors = [], es_diags = []\<rparr>"

type_synonym emitter = "emit_state \<Rightarrow> (string \<times> emit_state) outcome"

subsection \<open>Combinators\<close>

definition out :: "string \<Rightarrow> emitter" where
  "out t s = Inr (t, s)"

definition raise :: "exn \<Rightarrow> emitter" where
  "raise e s = Inl e"

definition upd :: "(emit_state \<Rightarrow> emit_state) \<Rightarrow> emitter" where
  "upd f s = Inr ([], f s)"

definition with_state :: "(emit_state \<Rightarrow> emitter) \<Rightarrow> emitter" where
  "with_state k s = k s s"

definition lift :: "'a outcome \<Rightarrow> ('a \<Rightarrow> emitter) \<Rightarrow> emitter" where
  "lift x k s = ebind x (\<lambda>a. k a s)"

text \<open>Write into a buffer of its own, then go on with the text.\<close>

definition buffered :: "emitter \<Rightarrow> (string \<Rightarrow> emitter) \<Rightarrow> emitter" where
  "buffered a k s = ebind (a s) (\<lambda>(t, s'). k t s')"

fun eseq :: "emitter list \<Rightarrow> emitter" where
  "eseq [] s = Inr ([], s)"
| "eseq (a # as) s = ebind (a s) (\<lambda>(t, s'). ebind (eseq as s') (\<lambda>(u, s''). Inr (t @ u, s'')))"

text \<open>One buffer per element.\<close>

fun buffers :: "emitter list \<Rightarrow> (string list \<Rightarrow> emitter) \<Rightarrow> emitter" where
  "buffers [] k s = k [] s"
| "buffers (a # as) k s = buffered a (\<lambda>t. buffers as (\<lambda>ts. k (t # ts))) s"

text \<open>\<open>for i, x in enumerate(xs): if i > 0: out.write(", "); ...\<close>.\<close>

definition comma_separated :: "emitter list \<Rightarrow> emitter" where
  "comma_separated as =
     (case as of [] \<Rightarrow> out [] | a # bs \<Rightarrow> eseq (a # concat (map (\<lambda>b. [out '', '', b]) bs)))"

lemmas emit_defs = out_def raise_def upd_def with_state_def lift_def buffered_def

subsection \<open>Small steps of the source\<close>

definition line :: "nat \<Rightarrow> string \<Rightarrow> emitter" where
  "line indent text = out (tabs indent @ text @ [nl])"

definition log_error :: "string \<Rightarrow> emitter" where
  "log_error msg = upd (\<lambda>s. s\<lparr>es_errors := es_errors s @ [msg]\<rparr>)"

definition log_diag :: "string \<Rightarrow> emitter" where
  "log_diag msg = upd (\<lambda>s. s\<lparr>es_diags := es_diags s @ [msg]\<rparr>)"

definition add_pre :: "string \<Rightarrow> emitter" where
  "add_pre stmt = upd (\<lambda>s. s\<lparr>es_pre := es_pre s @ [stmt]\<rparr>)"

text \<open>\<open>ctx._tmp_counter\<close> read and incremented.\<close>

definition next_tmp :: "(nat \<Rightarrow> emitter) \<Rightarrow> emitter" where
  "next_tmp k = with_state (\<lambda>s. eseq [upd (\<lambda>s. s\<lparr>es_tmp := Suc (es_tmp s)\<rparr>), k (es_tmp s)])"

definition cast_root :: "string \<Rightarrow> string \<Rightarrow> string" where
  "cast_root root x = ''(struct '' @ root @ '' *)'' @ x"

definition retain_call :: "string \<Rightarrow> string \<Rightarrow> string" where
  "retain_call root x = root @ ''_retain('' @ cast_root root x @ '')''"

definition release_call :: "string \<Rightarrow> string \<Rightarrow> string" where
  "release_call root x = root @ ''_release('' @ cast_root root x @ '')''"

definition retain_line :: "string \<Rightarrow> nat \<Rightarrow> string \<Rightarrow> string" where
  "retain_line root indent x = tabs indent @ retain_call root x @ '';'' @ [nl]"

definition release_line :: "string \<Rightarrow> nat \<Rightarrow> string \<Rightarrow> string" where
  "release_line root indent x = tabs indent @ release_call root x @ '';'' @ [nl]"

definition flush_pre_stmts :: "nat \<Rightarrow> emitter" where
  "flush_pre_stmts indent = with_state (\<lambda>s.
     eseq [out (concat (map (\<lambda>p. tabs indent @ p) (es_pre s))), upd (\<lambda>s. s\<lparr>es_pre := []\<rparr>)])"

subsection \<open>Scopes\<close>

definition push_frame :: "frame \<Rightarrow> emit_state \<Rightarrow> emit_state" where
  "push_frame f s = s\<lparr>es_scope_vars := es_scope_vars s @ [f]\<rparr>"

definition pop_frame :: "emit_state \<Rightarrow> emit_state" where
  "pop_frame s = s\<lparr>es_scope_vars := butlast (es_scope_vars s)\<rparr>"

text \<open>\<open>ctx.scope_vars[-1][name] = t\<close>.\<close>

definition track :: "string \<Rightarrow> oz_type \<Rightarrow> emit_state \<Rightarrow> emit_state" where
  "track name t s = s\<lparr>es_scope_vars :=
     butlast (es_scope_vars s) @ [dput name t (last (es_scope_vars s))]\<rparr>"

text \<open>\<open>scope_vars.append(f)\<close>, \<open>a\<close>, \<open>scope_vars.pop()\<close>; the same for a loop.\<close>

definition in_frame :: "frame \<Rightarrow> emitter \<Rightarrow> emitter" where
  "in_frame f a = eseq [upd (push_frame f), a, upd pop_frame]"

definition push_loop :: "emit_state \<Rightarrow> emit_state" where
  "push_loop s = s\<lparr>es_loops := es_loops s @ [length (es_scope_vars s)]\<rparr>"

definition pop_loop :: "emit_state \<Rightarrow> emit_state" where
  "pop_loop s = s\<lparr>es_loops := butlast (es_loops s)\<rparr>"

definition in_loop :: "emitter \<Rightarrow> emitter" where
  "in_loop a = eseq [upd push_loop, a, upd pop_loop]"

definition in_scope :: "string \<Rightarrow> emit_state \<Rightarrow> bool" where
  "in_scope name s \<longleftrightarrow> list_ex (\<lambda>f. dget f name \<noteq> None) (es_scope_vars s)"

definition consume :: "string \<Rightarrow> emit_state \<Rightarrow> emit_state" where
  "consume name s = (if in_scope name s then s\<lparr>es_consumed := add_new name (es_consumed s)\<rparr> else s)"

definition unconsume :: "string \<Rightarrow> emit_state \<Rightarrow> emit_state" where
  "unconsume name s = s\<lparr>es_consumed := removeAll name (es_consumed s)\<rparr>"

definition flatten_scope_vars :: "emit_state \<Rightarrow> string list" where
  "flatten_scope_vars s = concat (map dkeys (es_scope_vars s))"

definition release_vars :: "string \<Rightarrow> nat \<Rightarrow> emit_state \<Rightarrow> string list \<Rightarrow> string" where
  "release_vars root indent s names =
     concat (map (release_line root indent) (filter (\<lambda>n. n \<notin> set (es_consumed s)) names))"

definition emit_scope_releases :: "emit_env \<Rightarrow> nat \<Rightarrow> emitter" where
  "emit_scope_releases e indent = with_state (\<lambda>s.
     if es_scope_vars s = [] then out []
     else out (release_vars (ee_root e) indent s (dkeys (last (es_scope_vars s)))))"

definition emit_break_continue_releases :: "emit_env \<Rightarrow> nat \<Rightarrow> emitter" where
  "emit_break_continue_releases e indent = with_state (\<lambda>s.
     if es_loops s = [] then out []
     else out (release_vars (ee_root e) indent s
            (concat (map dkeys (rev (drop (last (es_loops s)) (es_scope_vars s)))))))"

definition is_param_name :: "emit_env \<Rightarrow> string \<Rightarrow> bool" where
  "is_param_name e name =
     (case ee_method e of None \<Rightarrow> False | Some m \<Rightarrow> list_ex (\<lambda>p. pa_name p = name) (me_params m))"

definition object_params :: "oz_param list \<Rightarrow> oz_param list" where
  "object_params ps = filter (\<lambda>p. is_object (pa_type p)) ps"

text \<open>\<open>node.get("inner", [d])[0]\<close>.\<close>

definition first_inner :: "json \<Rightarrow> json \<Rightarrow> json outcome" where
  "first_inner d node =
     (if \<not> jhas node ''inner'' then Inr d
      else case jinner node of [] \<Rightarrow> Inl IndexErr | c # _ \<Rightarrow> Inr c)"

text \<open>Assignment targets and sources, through implicit casts.\<close>

definition is_object_ivar_assign :: "emit_env \<Rightarrow> json \<Rightarrow> bool" where
  "is_object_ivar_assign e lhs \<longleftrightarrow>
     (let u = unwrap_kinds [''ImplicitCastExpr''] lhs
      in jkind u = ''ObjCIvarRefExpr''
         \<and> list_ex (\<lambda>iv. iv_name iv = jname (jobj u ''decl'') \<and> is_object (iv_type iv)
                        \<and> \<not> is_unretained (iv_type iv)) (cl_ivars (ee_cls e)))"

text \<open>\<open>_is_object_local_assign\<close> and \<open>_is_local_var_rhs\<close>, which have the same body.\<close>

definition is_tracked_ref :: "json \<Rightarrow> emit_state \<Rightarrow> bool" where
  "is_tracked_ref node s \<longleftrightarrow>
     (let u = unwrap_kinds [''ImplicitCastExpr''] node;
          name = jname (jobj u ''referencedDecl'')
      in jkind u = ''DeclRefExpr'' \<and> name \<noteq> [] \<and> name \<noteq> ''self'' \<and> in_scope name s)"

end
