(* ===== verification/Emit_Expr.thy ===== *)
theory Emit_Expr
  imports Emit_State Collect_Walk
begin

text \<open>
  Expression emission of \<open>tools/oz_transpile/emit.py\<close>: \<open>_emit_expr\<close> and what it calls. The
  recursion is open: a handler takes the expression emitter \<open>ex\<close> and the statement emitter
  \<open>st\<close> it calls as arguments; \<open>Emit_Body\<close> ties the knot.
\<close>

type_synonym expr_emitter = "json \<Rightarrow> emitter"
type_synonym stmt_emitter = "json \<Rightarrow> nat \<Rightarrow> emitter"

subsection \<open>Macro passthrough\<close>

definition OBJC_NODE_KINDS :: "string list" where
  "OBJC_NODE_KINDS =
     [''ObjCMessageExpr'', ''ObjCIvarRefExpr'', ''ObjCStringLiteral'', ''ObjCArrayLiteral'',
      ''ObjCDictionaryLiteral'', ''ObjCBoxedExpr'', ''ObjCSelectorExpr'', ''ObjCProtocolExpr'',
      ''PseudoObjectExpr'']"

definition TRIVIAL_LITERAL_KINDS :: "string list" where
  "TRIVIAL_LITERAL_KINDS =
     [''IntegerLiteral'', ''FloatingLiteral'', ''CharacterLiteral'', ''ObjCBoolLiteralExpr'',
      ''GNUNullExpr'', ''CXXNullPtrLiteralExpr'', ''CXXBoolLiteralExpr'']"

fun is_trivial_macro_expansion :: "json \<Rightarrow> bool" where
  "is_trivial_macro_expansion node =
     (if jkind node \<in> set TRIVIAL_LITERAL_KINDS then True
      else if jkind node \<in> {''ImplicitCastExpr'', ''CStyleCastExpr'', ''ParenExpr''}
      then (case jinner node of [c] \<Rightarrow> is_trivial_macro_expansion c | _ \<Rightarrow> False)
      else False)"

declare is_trivial_macro_expansion.simps [simp del]

text \<open>The length of the text up to the parenthesis that closes \<open>depth\<close> open ones.\<close>

fun paren_len :: "nat \<Rightarrow> string \<Rightarrow> nat" where
  "paren_len 0 s = 0"
| "paren_len (Suc d) [] = 0"
| "paren_len (Suc d) (c # cs) =
     Suc (paren_len (if c = CHR ''('' then Suc (Suc d) else if c = CHR '')'' then d else Suc d) cs)"

definition extract_macro_text :: "string \<Rightarrow> nat \<Rightarrow> nat \<Rightarrow> string" where
  "extract_macro_text source offset tok_len =
     (let end_pos = offset + tok_len;
          rest = drop end_pos source;
          ws = length (takeWhile (\<lambda>c. c \<in> {CHR '' '', tab, nl, CHR 0x0D}) rest)
      in case drop ws rest of
           c # cs \<Rightarrow> if c = CHR ''(''
                     then slice source offset (end_pos + (ws + 1 + paren_len 1 cs))
                     else slice source offset end_pos
         | [] \<Rightarrow> slice source offset end_pos)"

type_synonym patch = "int \<times> int \<times> string"

definition range_begin :: "json \<Rightarrow> json" where
  "range_begin node = jobj (jobj node ''range'') ''begin''"

definition range_end :: "json \<Rightarrow> json" where
  "range_end node = jobj (jobj node ''range'') ''end''"

definition int_or :: "json \<Rightarrow> string \<Rightarrow> int \<Rightarrow> int" where
  "int_or j k d = (case jint_opt j k of Some i \<Rightarrow> i | None \<Rightarrow> d)"

text \<open>The source range a node of Objective-C was spelled at.\<close>

definition patch_range :: "json \<Rightarrow> (int \<times> int) option" where
  "patch_range node =
     (let b = jobj (range_begin node) ''spellingLoc''; en = jobj (range_end node) ''spellingLoc''
      in if jkind node \<in> set OBJC_NODE_KINDS
         then map_option (\<lambda>soff. (soff, int_or en ''offset'' soff + int_or en ''tokLen'' 1))
                (jint_opt b ''offset'')
         else None)"

fun collect_objc_patches :: "expr_emitter \<Rightarrow> int \<Rightarrow> json
    \<Rightarrow> ((int \<times> int) list \<times> patch list) \<times> emit_state
    \<Rightarrow> (((int \<times> int) list \<times> patch list) \<times> emit_state) outcome" where
  "collect_objc_patches ex start node acc =
     (case patch_range node of
        Some key \<Rightarrow>
          if key \<in> set (fst (fst acc))
          then efold (collect_objc_patches ex start) (jinner node) acc
          else ebind (ex node (snd acc)) (\<lambda>(t, s).
                 Inr ((key # fst (fst acc),
                       snd (fst acc) @ [(fst key - start, snd key - start, t)]), s))
      | None \<Rightarrow> efold (collect_objc_patches ex start) (jinner node) acc)"

declare collect_objc_patches.simps [simp del]

definition apply_patch :: "patch \<Rightarrow> string \<Rightarrow> string" where
  "apply_patch = (\<lambda>(rel_start, rel_end, transpiled) result.
     if 0 \<le> rel_start \<and> rel_start < rel_end \<and> rel_end \<le> int (length result)
     then take (nat rel_start) result @ transpiled @ drop (nat rel_end) result else result)"

definition patched_macro :: "expr_emitter \<Rightarrow> int \<Rightarrow> string \<Rightarrow> json \<Rightarrow> emitter" where
  "patched_macro ex offset macro_text node s =
     ebind (collect_objc_patches ex offset node (([], []), s)) (\<lambda>((seen, patches), s').
       Inr (fold apply_patch (rev (sort patches)) macro_text, s'))"

text \<open>The macro a node expands from: offset and length of its name, if it is not an argument.\<close>

definition expansion_site :: "json \<Rightarrow> (int \<times> int) option" where
  "expansion_site node =
     (let ex = jobj (range_begin node) ''expansionLoc''
      in if \<not> jtrue ex \<or> jflag ex ''isMacroArgExpansion'' then None
         else case (jint_opt ex ''offset'', jint_opt ex ''tokLen'') of
                (Some off, Some len) \<Rightarrow> Some (off, len)
              | _ \<Rightarrow> None)"

text \<open>
  Whether its text is kept: not for an object-like macro of a header that expands to a
  trivial constant.
\<close>

definition kept_macro_text :: "string \<Rightarrow> int \<times> int \<Rightarrow> json \<Rightarrow> string option" where
  "kept_macro_text source site node =
     (let macro_text = extract_macro_text source (nat (fst site)) (nat (snd site));
          spelling = jobj (range_begin node) ''spellingLoc''
      in if jflag spelling ''includedFrom'' \<and> \<not> int (length macro_text) > snd site
            \<and> is_trivial_macro_expansion node
         then None else Some macro_text)"

definition expr_macro :: "emit_env \<Rightarrow> json \<Rightarrow> (int \<times> string) option" where
  "expr_macro e node =
     (case (ee_source e, expansion_site node) of
        (Some source, Some site) \<Rightarrow> map_option (Pair (fst site)) (kept_macro_text source site node)
      | _ \<Rightarrow> None)"

subsection \<open>Literals\<close>

definition bool_literal :: "json \<Rightarrow> string" where
  "bool_literal node =
     (case jget node ''value'' of
        Some (JStr v) \<Rightarrow> if contains ''no'' (str_lower v) then ''0'' else ''1''
      | Some v \<Rightarrow> if jtrue v then ''1'' else ''0''
      | None \<Rightarrow> ''0'')"

definition char_literal :: "json \<Rightarrow> string" where
  "char_literal node =
     (let val = int_or node ''value'' 0
      in if 32 \<le> val \<and> val < 127 \<and> val \<noteq> 39 \<and> val \<noteq> 92
         then quoted [char_of (nat val)] else str_of_int val)"

definition null_pointer :: string where
  "null_pointer = ''((void *)0)''"

text \<open>Literals that are written as they stand.\<close>

definition plain_literal :: "json \<Rightarrow> string option" where
  "plain_literal node =
     (let kind = jkind node in
      if kind = ''IntegerLiteral'' then Some (jstr node ''value'' ''0'')
      else if kind = ''FloatingLiteral'' then Some (jstr node ''value'' ''0.0'')
      else if kind = ''CharacterLiteral'' then Some (char_literal node)
      else if kind = ''StringLiteral'' then Some (jstr node ''value'' [dquote, dquote])
      else if kind = ''ObjCBoolLiteralExpr'' then Some (bool_literal node)
      else if kind \<in> {''GNUNullExpr'', ''CXXNullPtrLiteralExpr''} then Some null_pointer
      else None)"

text \<open>A name made from a source location.\<close>

definition located_name :: "string \<Rightarrow> json \<Rightarrow> string option" where
  "located_name prefix node =
     (let loc = jobj node ''loc'' in
      case (jshow_opt loc ''line'', jshow_opt loc ''col'') of
        (Some ln, Some col) \<Rightarrow> Some (prefix @ ''L'' @ ln @ ''_C'' @ col)
      | _ \<Rightarrow> None)"

definition string_constant :: "string \<Rightarrow> string \<Rightarrow> string" where
  "string_constant name val =
     ''static struct OZString '' @ name
     @ '' = {{{.class_id = OZ_CLASS_OZString, .immortal = 1}, 1}, ''
     @ str_of_nat (length (butlast (drop 1 val))) @ '', 0, '' @ val @ ''};''"

definition declare_string :: "string \<Rightarrow> string \<Rightarrow> emitter" where
  "declare_string val name = upd (\<lambda>s. s
     \<lparr>es_dedup := dput val name (es_dedup s),
      es_strings := es_strings s @ [string_constant name val]\<rparr>)"

definition emit_string_literal :: "json \<Rightarrow> emitter" where
  "emit_string_literal node =
     (let val = (case jinner node of [] \<Rightarrow> [dquote, dquote] | c # _ \<Rightarrow> jstr c ''value'' [dquote, dquote]);
          ref = (\<lambda>name. out (''(struct OZString *)&'' @ name))
      in with_state (\<lambda>s.
           case dget (es_dedup s) val of
             Some name \<Rightarrow> ref name
           | None \<Rightarrow>
               (case located_name ''_oz_str_'' node of
                  Some name \<Rightarrow> eseq [declare_string val name, ref name]
                | None \<Rightarrow>
                    let name = ''_oz_str_L0_C'' @ str_of_nat (length (es_dedup s))
                    in eseq [log_diag ''warning: ObjCStringLiteral without source location'',
                             declare_string val name, ref name])))"

definition BOXED_FLOAT_TYPES :: "string list" where
  "BOXED_FLOAT_TYPES = [''float'', ''double'', ''long double'']"

definition BOXED_INT_TYPES :: "string list" where
  "BOXED_INT_TYPES =
     [''int'', ''int8_t'', ''int16_t'', ''int32_t'', ''signed int'', ''signed char'', ''char'',
      ''short'', ''signed short'', ''long'', ''uint8_t'', ''uint16_t'', ''uint32_t'',
      ''unsigned int'', ''unsigned char'', ''unsigned short'', ''unsigned long'', ''BOOL'', ''_Bool'']"

text \<open>Whether a boxed value goes through float, and whether it warns.\<close>

definition boxed_type_category :: "string \<Rightarrow> bool \<times> bool" where
  "boxed_type_category qt =
     (if qt \<in> set BOXED_FLOAT_TYPES then (True, qt \<in> {''double'', ''long double''})
      else if qt \<in> set BOXED_INT_TYPES then (False, False)
      else if startswith qt ''enum '' then (False, False)
      else (False, True))"

text \<open>\<open>while kind == "ImplicitCastExpr": child = child.get("inner", [{}])[0]\<close>.\<close>

function boxed_leaf :: "json \<Rightarrow> json outcome" where
  "boxed_leaf child =
     (if jkind child \<noteq> ''ImplicitCastExpr'' then Inr child
      else if \<not> jhas child ''inner'' then Inr (JObj [])
      else case jinner child of [] \<Rightarrow> Inl IndexErr | c # _ \<Rightarrow> boxed_leaf c)"
  by pat_completeness auto
termination by (relation "measure size") (auto intro: size_jinner_Cons)

declare boxed_leaf.simps [simp del]

definition boxed_literal :: "json \<Rightarrow> string option" where
  "boxed_literal child =
     (let kind = jkind child in
      if kind = ''IntegerLiteral''
      then Some (''OZQ31_fixedWithInt32_('' @ jstr child ''value'' ''0'' @ '')'')
      else if kind = ''FloatingLiteral''
      then let val = jstr child ''value'' ''0.0''
           in Some (''OZQ31_fixedWithFloat_('' @ (if endswith val ''f'' \<or> endswith val ''F'' then val else val @ ''f'') @ '')'')
      else if kind = ''CharacterLiteral''
      then Some (''OZQ31_fixedWithInt32_('' @ jshow child ''value'' ''0'' @ '')'')
      else if kind = ''ObjCBoolLiteralExpr''
      then Some (''OZQ31_fixedWithBool_('' @ bool_literal child @ '')'')
      else None)"

definition emit_boxed_number :: "expr_emitter \<Rightarrow> json \<Rightarrow> emitter" where
  "emit_boxed_number ex node =
     (case jinner node of
        [] \<Rightarrow> eseq [log_error (''boxed expression @(...) is not supported; '' @
                    ''use [OZQ31 fixedWithInt32:] or [OZQ31 fixedWithFloat:]''), out null_pointer]
      | original_child # _ \<Rightarrow>
          let inner_qt = qual_type original_child [] in
          lift (boxed_leaf original_child) (\<lambda>child.
            case boxed_literal child of
              Some t \<Rightarrow> out t
            | None \<Rightarrow>
                if contains ''char *'' inner_qt \<or> contains ''NSString'' inner_qt \<or> contains ''OZString'' inner_qt
                then eseq [log_error (''boxed string expression @(expr) is not supported; '' @
                           ''use OZString literals instead''), out null_pointer]
                else let (is_float, warn) = boxed_type_category inner_qt in
                  eseq [if warn
                        then log_diag (''warning: @(expr) with type '' @ quoted inner_qt @
                               '' boxed to OZQ31 via int32; verify no precision loss'')
                        else out [],
                        buffered (ex original_child) (\<lambda>t.
                          if is_float then out (''OZQ31_fixedWithFloat_((float)('' @ t @ ''))'')
                          else out (''OZQ31_fixedWithInt32_((int32_t)('' @ t @ ''))''))]))"

text \<open>An element of a collection literal: retained unless it is a fresh object.\<close>

definition owned_ref :: "string \<Rightarrow> json \<Rightarrow> string \<Rightarrow> string" where
  "owned_ref root child ref =
     (if is_fresh_alloc child then cast_root root ref else cast_root root (retain_call root ref))"

definition pre_array :: "string \<Rightarrow> string \<Rightarrow> string list \<Rightarrow> string" where
  "pre_array root buf_name refs =
     ''struct '' @ root @ '' *'' @ buf_name @ ''[] = {'' @ str_join '', '' refs @ ''};'' @ [nl]"

definition emit_array_literal :: "expr_emitter \<Rightarrow> emit_env \<Rightarrow> json \<Rightarrow> emitter" where
  "emit_array_literal ex e node = next_tmp (\<lambda>n.
     let buf_name = ''_oz_arr_'' @ str_of_nat n @ ''_buf''; inner = jinner node in
     buffers (map ex inner) (\<lambda>ts.
       eseq [add_pre (pre_array (ee_root e) buf_name (map2 (owned_ref (ee_root e)) inner ts)),
             out (''OZArray_initWithItems('' @ buf_name @ '', '' @ str_of_nat (length inner) @ '')'')]))"

fun evens :: "'a list \<Rightarrow> 'a list" where
  "evens [] = []"
| "evens [x] = [x]"
| "evens (x # y # zs) = x # evens zs"

definition odds :: "'a list \<Rightarrow> 'a list" where
  "odds xs = evens (drop 1 xs)"

text \<open>Keys stand at the even positions; a key without a value is an \<open>IndexError\<close>.\<close>

definition emit_dict_literal :: "expr_emitter \<Rightarrow> emit_env \<Rightarrow> json \<Rightarrow> emitter" where
  "emit_dict_literal ex e node = next_tmp (\<lambda>n.
     let buf_name = ''_oz_dict_'' @ str_of_nat n @ ''_kv''; inner = jinner node in
     buffers (map ex inner) (\<lambda>ts.
       if odd (length inner) then raise IndexErr
       else let refs = map2 (owned_ref (ee_root e)) inner ts in
         eseq [add_pre (pre_array (ee_root e) buf_name (evens refs @ odds refs)),
               out (''OZDictionary_initWithKeysValues('' @ buf_name @ '', ''
                    @ str_of_nat (length (evens refs)) @ '')'')]))"

subsection \<open>Blocks\<close>

definition block_capture :: "json list \<Rightarrow> string option" where
  "block_capture block_inner =
     map_option (\<lambda>c. jstr (jobj c ''var'') ''name'' ''?'')
       (find (\<lambda>c. jkind c = ''Capture'' \<and> \<not> jflag c ''byref'') block_inner)"

definition block_return :: "string \<Rightarrow> string" where
  "block_return block_qt =
     (case str_find ''(^)'' block_qt of
        Some i \<Rightarrow> if 0 < i then c_type (OZType (strip (take i block_qt))) else ''void''
      | None \<Rightarrow>
          (case str_find ''('' block_qt of
             Some i \<Rightarrow> if 0 < i then c_type (OZType (strip (take i block_qt))) else ''void''
           | None \<Rightarrow> ''void''))"

definition block_params :: "json list \<Rightarrow> string" where
  "block_params block_inner =
     (let parts = map (\<lambda>c. c_type (OZType (qual_type c [])) @ '' '' @ jname c)
                    (filter (\<lambda>c. jkind c = ''ParmVarDecl'') block_inner)
      in if parts = [] then ''void'' else str_join '', '' parts)"

definition rstrip_nl :: "string \<Rightarrow> string" where
  "rstrip_nl = rstrip_of (\<lambda>c. c = nl)"

text \<open>
  The body of a block is emitted in a context of its own that shares the string constants,
  block functions, deduplication table and the counter of the enclosing one.
\<close>

definition block_state :: "emit_state \<Rightarrow> emit_state" where
  "block_state s = s\<lparr>es_scope_vars := [], es_consumed := [], es_loops := [], es_pre := [], es_sync := 0\<rparr>"

definition after_block :: "emit_state \<Rightarrow> emit_state \<Rightarrow> emit_state" where
  "after_block s b = b\<lparr>es_scope_vars := es_scope_vars s, es_consumed := es_consumed s,
     es_loops := es_loops s, es_pre := es_pre s, es_sync := es_sync s\<rparr>"

definition in_block_context :: "emitter \<Rightarrow> emitter" where
  "in_block_context a s =
     ebind (a (block_state s)) (\<lambda>(t, b). Inr (t, after_block s b))"

definition emit_block_function :: "(json \<Rightarrow> emitter) \<Rightarrow> json list \<Rightarrow> string \<Rightarrow> string \<Rightarrow> emitter" where
  "emit_block_function body block_inner ret_type func_name =
     (let header = ''static '' @ ret_type @ '' '' @ func_name @ ''('' @ block_params block_inner @ '')'' @ [nl]
      in buffered
           (case find (\<lambda>c. jkind c = ''CompoundStmt'') (rev block_inner) of
              Some b \<Rightarrow> in_block_context (body b)
            | None \<Rightarrow> out (''{'' @ [nl] @ ''}'' @ [nl]))
           (\<lambda>t. eseq [upd (\<lambda>s. s\<lparr>es_blocks := es_blocks s @ [rstrip_nl (header @ t)]\<rparr>), out func_name]))"

definition emit_block_expr :: "(json \<Rightarrow> emitter) \<Rightarrow> json \<Rightarrow> emitter" where
  "emit_block_expr body node =
     (case jinner node of
        [] \<Rightarrow> out ''/* TODO: empty BlockExpr */''
      | block_decl # _ \<Rightarrow>
          if jkind block_decl \<noteq> ''BlockDecl'' then out ''/* TODO: BlockExpr without BlockDecl */''
          else let block_inner = jinner block_decl in
            case block_capture block_inner of
              Some v \<Rightarrow> eseq [log_error (''capturing blocks not supported (block captures '' @ quoted v @ ''). '' @
                          ''Use a non-capturing block or a file-scope static variable instead.''),
                          out null_pointer]
            | None \<Rightarrow>
                let ret_type = block_return (qual_type node []) in
                case located_name ''_oz_block_'' node of
                  Some name \<Rightarrow> emit_block_function body block_inner ret_type name
                | None \<Rightarrow> with_state (\<lambda>s.
                    eseq [log_diag ''warning: BlockExpr without source location'',
                          emit_block_function body block_inner ret_type
                            (''_oz_block_L0_C'' @ str_of_nat (length (es_blocks s)))]))"

end
