(* ===== verification/Emit_Message.thy ===== *)
theory Emit_Message
  imports Emit_Expr
begin

text \<open>
  Message sends (\<open>_emit_msg_expr\<close> of \<open>tools/oz_transpile/emit.py\<close>): sends to \<open>super\<close>, class
  messages, inline accessors, compile-time dispatch to the defining class, and dispatch
  through the vtable of a protocol selector.
\<close>

subsection \<open>Parts of a send\<close>

definition emit_args :: "expr_emitter \<Rightarrow> json list \<Rightarrow> emitter" where
  "emit_args ex args = eseq (concat (map (\<lambda>a. [out '', '', ex a]) args))"

definition return_type_of :: "json \<Rightarrow> oz_type" where
  "return_type_of node = OZType (qual_type node ''void'')"

text \<open>The cast of a result to its static type, when the called function returns another.\<close>

definition ret_cast :: "json \<Rightarrow> string \<Rightarrow> string" where
  "ret_cast node target =
     (let ret = return_type_of node
      in if is_object ret \<and> c_type ret \<noteq> struct_ptr target then ''('' @ c_type ret @ '')'' else [])"

text \<open>An explicit \<open>[obj release]\<close> of a tracked variable consumes it.\<close>

definition released_var :: "json \<Rightarrow> string option outcome" where
  "released_var recv =
     ebind (if jkind recv = ''ImplicitCastExpr'' then first_inner (JObj []) recv else Inr recv) (\<lambda>r.
       let name = jname (jobj r ''referencedDecl'')
       in Inr (if jkind r = ''DeclRefExpr'' \<and> name \<noteq> [] \<and> name \<noteq> ''self'' then Some name else None))"

definition note_release :: "string \<Rightarrow> json list \<Rightarrow> emitter" where
  "note_release selector inner =
     (case inner of
        recv # _ \<Rightarrow>
          if selector = ''release''
          then lift (released_var recv) (\<lambda>v. case v of Some name \<Rightarrow> upd (consume name) | None \<Rightarrow> out [])
          else out []
      | [] \<Rightarrow> out [])"

subsection \<open>Kinds of send\<close>

definition emit_super_send :: "expr_emitter \<Rightarrow> emit_env \<Rightarrow> json \<Rightarrow> emitter" where
  "emit_super_send ex e node =
     (let cls = ee_cls e;
          parent = (if str_truthy (cl_superclass cls) then the (cl_superclass cls) else ee_root e);
          c_sel = selector_to_c (jstr node ''selector'' [])
      in eseq [out (if is_object (return_type_of node) then ''('' @ struct_ptr (cl_name cls) @ '')'' else []),
               out (parent @ ''_'' @ c_sel @ ''(''),
               out (cast_root parent ''self''),
               emit_args ex (jinner node),
               out '')''])"

definition is_class_selector :: "oz_module \<Rightarrow> string \<Rightarrow> string \<Rightarrow> bool" where
  "is_class_selector m cls sel \<longleftrightarrow>
     (case cls_of m cls of
        Some c \<Rightarrow> list_ex (\<lambda>me. me_selector me = sel \<and> me_is_class_method me) (cl_methods c)
      | None \<Rightarrow> False)"

definition emit_class_send :: "expr_emitter \<Rightarrow> emit_env \<Rightarrow> json \<Rightarrow> emitter" where
  "emit_class_send ex e node =
     (let class_type = jstr (jobj node ''classType'') ''qualType'' [];
          selector = jstr node ''selector'' []
      in if selector = ''initialize''
         then log_error (''explicit call ['' @ class_type @ '' initialize] is not allowed; '' @
                ''+initialize is automatically called before main()'')
         else eseq
           [out (class_type @ ''_'' @ (if is_class_selector (ee_module e) class_type selector then ''cls_'' else [])
                 @ selector_to_c selector @ ''(''),
            comma_separated (map ex (jinner node)),
            out '')''])"

definition emit_inline_send :: "expr_emitter \<Rightarrow> json \<Rightarrow> inline_accessor \<Rightarrow> json \<Rightarrow> json list \<Rightarrow> emitter" where
  "emit_inline_send ex node acc receiver args =
     (let cls = ac_class_name acc
      in eseq [out (ret_cast node cls),
               out (inline_accessor_name cls (selector_to_c (ac_selector acc)) (ac_func_suffix acc) @ ''(''),
               out (''('' @ struct_ptr cls @ '')''),
               ex receiver, emit_args ex args, out '')''])"

text \<open>A call of the function of the class \<open>defining\<close> on a receiver of class \<open>static\<close>.\<close>

definition emit_direct_call ::
  "expr_emitter \<Rightarrow> string \<Rightarrow> string \<Rightarrow> string \<Rightarrow> json option \<Rightarrow> json list \<Rightarrow> emitter" where
  "emit_direct_call ex defining static c_sel receiver args =
     eseq [out (defining @ ''_'' @ c_sel @ ''(''),
           (case receiver of
              Some r \<Rightarrow> eseq [out (if defining \<noteq> static then ''('' @ struct_ptr defining @ '')'' else []), ex r]
            | None \<Rightarrow> out []),
           emit_args ex args, out '')'']"

definition emit_vtable_send :: "expr_emitter \<Rightarrow> emit_env \<Rightarrow> json \<Rightarrow> string \<Rightarrow> json option \<Rightarrow> json list \<Rightarrow> emitter" where
  "emit_vtable_send ex e node c_sel receiver args =
     eseq [out (ret_cast node (ee_root e)),
           (case receiver of
              Some r \<Rightarrow> buffered (ex r) (\<lambda>recv_str. next_tmp (\<lambda>n.
                let tmp = ''_oz_recv'' @ str_of_nat n in
                eseq [add_pre (''struct '' @ ee_root e @ '' *'' @ tmp @ '' = ''
                               @ cast_root (ee_root e) recv_str @ '';'' @ [nl]),
                      out (''OZ_PROTOCOL_SEND_'' @ c_sel @ ''('' @ tmp)]))
            | None \<Rightarrow> out (''OZ_PROTOCOL_SEND_'' @ c_sel @ ''('')),
           emit_args ex args, out '')'']"

definition emit_protocol_send :: "expr_emitter \<Rightarrow> emit_env \<Rightarrow> json \<Rightarrow> string \<Rightarrow> json option \<Rightarrow> json list \<Rightarrow> emitter" where
  "emit_protocol_send ex e node selector receiver args =
     (let c_sel = selector_to_c selector; m = ee_module e;
          concrete = Option.bind receiver (\<lambda>r. try_infer_concrete_class r m)
      in case concrete of
           Some cls \<Rightarrow>
             lift (find_defining_class cls selector m) (\<lambda>defining.
               eseq [out (ret_cast node defining), emit_direct_call ex defining cls c_sel receiver args])
         | None \<Rightarrow> emit_vtable_send ex e node c_sel receiver args)"

definition missing_method_warning :: "string \<Rightarrow> string \<Rightarrow> string" where
  "missing_method_warning selector cls =
     ''warning: method '' @ quoted selector @ '' not found on class '' @ quoted cls
     @ '' or its superclasses''"

definition emit_static_send :: "expr_emitter \<Rightarrow> emit_env \<Rightarrow> string \<Rightarrow> json option \<Rightarrow> json list \<Rightarrow> emitter" where
  "emit_static_send ex e selector receiver args =
     (let m = ee_module e; cls = ee_cls e;
          inferred = (case receiver of Some r \<Rightarrow> infer_receiver_class r cls m | None \<Rightarrow> cl_name cls)
      in lift (find_defining_class inferred selector m) (\<lambda>defining.
           eseq [(case cls_of m inferred of
                    Some c \<Rightarrow> if defining = inferred \<and> \<not> declares selector c
                              then log_diag (missing_method_warning selector inferred) else out []
                  | None \<Rightarrow> out []),
                 emit_direct_call ex defining inferred (selector_to_c selector) receiver args]))"

definition emit_instance_send :: "expr_emitter \<Rightarrow> emit_env \<Rightarrow> json \<Rightarrow> emitter" where
  "emit_instance_send ex e node =
     (let selector = jstr node ''selector'' []; inner = jinner node; m = ee_module e;
          args = collect_msg_args inner;
          receiver = (case inner of r # _ \<Rightarrow> if jtrue r then Some r else None | [] \<Rightarrow> None);
          inline = Option.bind receiver (\<lambda>r. Option.bind (try_infer_concrete_class r m)
                     (\<lambda>cls. inline_accessor_for cls selector))
      in case (receiver, inline) of
           (Some r, Some acc) \<Rightarrow> emit_inline_send ex node acc r args
         | _ \<Rightarrow> if find_dispatch_kind selector m = PROTOCOL
                then emit_protocol_send ex e node selector receiver args
                else emit_static_send ex e selector receiver args)"

definition emit_msg_expr :: "expr_emitter \<Rightarrow> emit_env \<Rightarrow> json \<Rightarrow> emitter" where
  "emit_msg_expr ex e node =
     eseq [note_release (jstr node ''selector'' []) (jinner node),
           (let kind = jstr node ''receiverKind'' [] in
            if startswith kind ''super'' then emit_super_send ex e node
            else if kind = ''class'' then emit_class_send ex e node
            else emit_instance_send ex e node)]"

end
