(* ===== verification/Emit_Body.thy ===== *)
theory Emit_Body
  imports Emit_Message
begin

text \<open>
  The emitters of expressions and statements of \<open>tools/oz_transpile/emit.py\<close>, with the knot
  tied: \<open>emit_expr\<close>, \<open>emit_stmt\<close> and \<open>emit_if\<close> call each other with one unit of fuel less. On
  a body without macro passthrough every call goes to a child of the node, except that an
  expression statement is emitted by \<open>emit_expr\<close> on the same node; \<open>body_fuel\<close> is twice the
  size of the node plus one and is always enough there.
\<close>

subsection \<open>Expressions\<close>

definition emit_first :: "expr_emitter \<Rightarrow> json \<Rightarrow> emitter" where
  "emit_first ex node = (case jinner node of [] \<Rightarrow> out [] | c # _ \<Rightarrow> ex c)"

text \<open>The declaration an ivar reference goes through, below \<open>LValueToRValue\<close> casts.\<close>

function ivar_base :: "json \<Rightarrow> json outcome" where
  "ivar_base base =
     (if \<not> (jkind base = ''ImplicitCastExpr'' \<and> jstr base ''castKind'' [] = ''LValueToRValue'') then Inr base
      else if \<not> jhas base ''inner'' then Inr (JObj [])
      else case jinner base of [] \<Rightarrow> Inl IndexErr | c # _ \<Rightarrow> ivar_base c)"
  by pat_completeness auto
termination by (relation "measure size") (auto intro: size_jinner_Cons)

declare ivar_base.simps [simp del]

text \<open>Access control on \<open>other->ivar\<close>; a free function counts as no class.\<close>

definition ivar_accessible :: "emit_env \<Rightarrow> string \<Rightarrow> (bool \<times> string) outcome" where
  "ivar_accessible e iv =
     (case find_ivar_owner iv (ee_module e) of
        None \<Rightarrow> Inr (True, [])
      | Some (owner, ivar) \<Rightarrow>
          let accessor = (case ee_method e of None \<Rightarrow> OZClass ''__free_function__'' None | Some _ \<Rightarrow> ee_cls e)
          in ebind (check_ivar_access ivar owner accessor (ee_module e)) (\<lambda>ok. Inr (ok, iv_access ivar)))"

definition emit_self_ivar :: "emit_env \<Rightarrow> string \<Rightarrow> emitter" where
  "emit_self_ivar e iv =
     lift (ivar_base_chain iv (ee_cls e) (ee_module e)) (\<lambda>prefix. out (''self->'' @ prefix @ iv))"

definition emit_ivar_ref :: "expr_emitter \<Rightarrow> emit_env \<Rightarrow> json \<Rightarrow> emitter" where
  "emit_ivar_ref ex e node =
     (let iv = jname (jobj node ''decl'') in
      case jinner node of
        [] \<Rightarrow> emit_self_ivar e iv
      | base # _ \<Rightarrow>
          if jflag node ''isFreeIvar'' then emit_self_ivar e iv
          else lift (ivar_base base) (\<lambda>b.
            let ref_name = jname (jobj b ''referencedDecl'') in
            if ref_name = [] \<or> ref_name = ''self'' then emit_self_ivar e iv
            else lift (ivar_accessible e iv) (\<lambda>(ok, access).
              if ok then eseq [ex base, out (''->'' @ iv)]
              else eseq [log_error (''instance variable '' @ quoted iv @ '' is '' @ access),
                         out (''/* access error: '' @ iv @ '' */'')])))"

definition emit_recovery :: "json \<Rightarrow> emitter" where
  "emit_recovery node =
     (let loc = loc_or_begin node in
      eseq [log_error (''RecoveryExpr at line '' @ jshow loc ''line'' ''?'' @ '', col '' @ jshow loc ''col'' ''?''
              @ '' '' @ em_dash @ '' Clang could not analyze this expression. Ensure -fblocks is enabled, or ''
              @ ''use Apple Clang on macOS / a full LLVM Clang with ObjC support on Linux.''),
            out ''0''])"

definition emit_implicit_cast :: "expr_emitter \<Rightarrow> json \<Rightarrow> emitter" where
  "emit_implicit_cast ex node =
     (case jinner node of
        [] \<Rightarrow> out []
      | c # _ \<Rightarrow>
          let target = OZType (qual_type node [])
          in eseq [out (if jstr node ''castKind'' [] = ''BitCast'' \<and> is_object target
                        then ''('' @ c_type target @ '')'' else []), ex c])"

definition emit_explicit_cast :: "expr_emitter \<Rightarrow> json \<Rightarrow> emitter" where
  "emit_explicit_cast ex node =
     eseq [out (''('' @ c_type (OZType (qual_type node [])) @ '')''), emit_first ex node]"

text \<open>\<open>a op b\<close>, \<open>op a\<close>, \<open>a op\<close>, \<open>a ? b : c\<close>.\<close>

definition emit_binary :: "expr_emitter \<Rightarrow> json \<Rightarrow> emitter" where
  "emit_binary ex node =
     (case jinner node of
        [a, b] \<Rightarrow> eseq [ex a, out ('' '' @ jstr node ''opcode'' [] @ '' ''), ex b]
      | _ \<Rightarrow> out [])"

definition emit_unary :: "expr_emitter \<Rightarrow> json \<Rightarrow> emitter" where
  "emit_unary ex node =
     (case jinner node of
        [] \<Rightarrow> out []
      | c # _ \<Rightarrow> if jflag node ''isPostfix'' then eseq [ex c, out (jstr node ''opcode'' [])]
                 else eseq [out (jstr node ''opcode'' []), ex c])"

definition emit_conditional :: "expr_emitter \<Rightarrow> json \<Rightarrow> emitter" where
  "emit_conditional ex node =
     (case jinner node of
        [a, b, c] \<Rightarrow> eseq [ex a, out '' ? '', ex b, out '' : '', ex c]
      | _ \<Rightarrow> out [])"

text \<open>Property and subscript syntax: the last child that is a message, else the first.\<close>

definition emit_pseudo :: "expr_emitter \<Rightarrow> json \<Rightarrow> emitter" where
  "emit_pseudo ex node =
     (case jinner node of
        [] \<Rightarrow> out []
      | c # _ \<Rightarrow>
          (case find (\<lambda>x. jkind (unwrap_kinds [''ImplicitCastExpr'', ''ExprWithCleanups''] x) = ''ObjCMessageExpr'')
                  (rev (jinner node)) of
             Some msg \<Rightarrow> ex msg
           | None \<Rightarrow> ex c))"

definition emit_call :: "expr_emitter \<Rightarrow> json \<Rightarrow> emitter" where
  "emit_call ex node =
     (case jinner node of
        [] \<Rightarrow> out []
      | f # args \<Rightarrow> eseq [ex f, out ''('', comma_separated (map ex args), out '')''])"

definition emit_sizeof :: "expr_emitter \<Rightarrow> json \<Rightarrow> emitter" where
  "emit_sizeof ex node =
     (let op_name = jstr node ''name'' ''sizeof'';
          arg_type = jstr (jobj node ''argType'') ''qualType'' []
      in if arg_type \<noteq> [] then out (op_name @ ''('' @ arg_type @ '')'')
         else case jinner node of
                c # _ \<Rightarrow> eseq [out (op_name @ ''(''), ex c, out '')'']
              | [] \<Rightarrow> out (op_name @ ''(/* unknown */)''))"

definition emit_expr_kind ::
  "expr_emitter \<Rightarrow> (json \<Rightarrow> emitter) \<Rightarrow> emit_env \<Rightarrow> json \<Rightarrow> emitter" where
  "emit_expr_kind ex block_body e node =
     (let kind = jkind node in
      if kind = ''ExprWithCleanups'' then emit_first ex node
      else if kind = ''BlockExpr'' then emit_block_expr block_body node
      else if kind = ''ImplicitCastExpr'' then emit_implicit_cast ex node
      else if kind = ''ObjCBridgedCastExpr'' then emit_explicit_cast ex node
      else if kind = ''CStyleCastExpr''
      then (if jstr node ''castKind'' [] = ''NullToPointer'' then out null_pointer
            else emit_explicit_cast ex node)
      else if kind = ''ParenExpr'' then eseq [out ''('', emit_first ex node, out '')'']
      else if kind = ''ObjCMessageExpr'' then emit_msg_expr ex e node
      else if kind = ''ObjCIvarRefExpr'' then emit_ivar_ref ex e node
      else if kind = ''DeclRefExpr'' then out (jname (jobj node ''referencedDecl''))
      else if kind = ''MemberExpr''
      then eseq [emit_first ex node, out ((if jflag node ''isArrow'' then ''->'' else ''.'') @ jname node)]
      else if kind \<in> {''BinaryOperator'', ''CompoundAssignOperator''} then emit_binary ex node
      else if kind = ''UnaryOperator'' then emit_unary ex node
      else if kind = ''ConditionalOperator'' then emit_conditional ex node
      else if kind = ''ConstantExpr''
      then (if jinner node \<noteq> [] then emit_first ex node else out (jstr node ''value'' ''0''))
      else if plain_literal node \<noteq> None then out (the (plain_literal node))
      else if kind = ''ObjCStringLiteral'' then emit_string_literal node
      else if kind = ''ObjCBoxedExpr'' then emit_boxed_number ex node
      else if kind = ''ObjCArrayLiteral'' then emit_array_literal ex e node
      else if kind = ''ObjCDictionaryLiteral'' then emit_dict_literal ex e node
      else if kind = ''PseudoObjectExpr'' then emit_pseudo ex node
      else if kind = ''OpaqueValueExpr'' then emit_first ex node
      else if kind = ''CallExpr'' then emit_call ex node
      else if kind = ''ArraySubscriptExpr''
      then (case jinner node of [a, b] \<Rightarrow> eseq [ex a, out ''['', ex b, out '']''] | _ \<Rightarrow> out [])
      else if kind = ''CompoundLiteralExpr''
      then eseq [out (''('' @ qual_type node [] @ '')''), emit_first ex node]
      else if kind = ''InitListExpr''
      then eseq [out ''{'', comma_separated (map ex (jinner node)), out ''}'']
      else if kind = ''UnaryExprOrTypeTraitExpr'' then emit_sizeof ex node
      else case jinner node of
             c # _ \<Rightarrow> ex c
           | [] \<Rightarrow> out (''/* TODO: '' @ kind @ '' */''))"

definition emit_expr_step ::
  "expr_emitter \<Rightarrow> (json \<Rightarrow> emitter) \<Rightarrow> emit_env \<Rightarrow> json \<Rightarrow> emitter" where
  "emit_expr_step ex block_body e node =
     (if jkind node = ''RecoveryExpr'' then emit_recovery node
      else case expr_macro e node of
             Some (off, text) \<Rightarrow> patched_macro ex off text node
           | None \<Rightarrow> emit_expr_kind ex block_body e node)"

subsection \<open>Compound statements\<close>

definition last_is_return :: "json list \<Rightarrow> bool" where
  "last_is_return children \<longleftrightarrow> children \<noteq> [] \<and> jkind (last children) = ''ReturnStmt''"

text \<open>The statements of a block in a frame of their own, released at its end.\<close>

definition emit_scoped :: "stmt_emitter \<Rightarrow> emit_env \<Rightarrow> emitter \<Rightarrow> json list \<Rightarrow> bool \<Rightarrow> nat \<Rightarrow> emitter" where
  "emit_scoped st e entry children returns indent =
     in_frame []
       (eseq [entry, eseq (map (\<lambda>c. st c indent) children),
              if returns then out [] else emit_scope_releases e indent])"

definition retain_params :: "emit_env \<Rightarrow> nat \<Rightarrow> oz_param list \<Rightarrow> emitter" where
  "retain_params e indent ps = eseq (map (\<lambda>p.
     eseq [out (retain_line (ee_root e) indent (pa_name p)), upd (track (pa_name p) (pa_type p))]) ps)"

definition emit_compound_stmt ::
  "stmt_emitter \<Rightarrow> emit_env \<Rightarrow> nat \<Rightarrow> bool \<Rightarrow> oz_param list \<Rightarrow> json \<Rightarrow> emitter" where
  "emit_compound_stmt st e indent inline param_retains node =
     eseq [out ((if inline then [] else tabs indent) @ ''{'' @ [nl]),
           emit_scoped st e (retain_params e (Suc indent) param_retains) (jinner node)
             (last_is_return (jinner node)) (Suc indent),
           line indent ''}'']"

text \<open>A body that may be a single statement: always in braces.\<close>

definition emit_braced :: "stmt_emitter \<Rightarrow> emit_env \<Rightarrow> nat \<Rightarrow> json \<Rightarrow> emitter" where
  "emit_braced st e indent body =
     (if jkind body = ''CompoundStmt'' then emit_compound_stmt st e indent True [] body
      else eseq [out (''{'' @ [nl]), st body (Suc indent), line indent ''}''])"

definition sync_name :: "nat \<Rightarrow> string" where
  "sync_name n = (if n = 1 then ''_sync'' else ''_sync'' @ str_of_nat n)"

definition emit_synchronized_stmt :: "expr_emitter \<Rightarrow> stmt_emitter \<Rightarrow> emit_env \<Rightarrow> nat \<Rightarrow> json \<Rightarrow> emitter" where
  "emit_synchronized_stmt ex st e indent node =
     (case jinner node of
        obj_expr # body # _ \<Rightarrow>
          eseq [upd (\<lambda>s. s\<lparr>es_sync := Suc (es_sync s)\<rparr>),
            with_state (\<lambda>s0. let name = sync_name (es_sync s0) in
              buffered (ex obj_expr) (\<lambda>obj.
                eseq [flush_pre_stmts indent, line indent ''{'',
                      emit_scoped st e
                        (eseq [line (Suc indent) (''struct OZSpinLock *'' @ name
                                 @ '' = OZSpinLock_initWithObject(OZSpinLock_alloc(), ''
                                 @ cast_root (ee_root e) obj @ '');''),
                               upd (track name (OZType ''OZSpinLock *''))])
                        (if jkind body = ''CompoundStmt'' then jinner body else [])
                        (last_is_return (jinner body)) (Suc indent),
                      line indent ''}'']))]
      | _ \<Rightarrow> out [])"

subsection \<open>Declarations and assignments\<close>

definition emit_var_decl :: "expr_emitter \<Rightarrow> emit_env \<Rightarrow> nat \<Rightarrow> json \<Rightarrow> emitter" where
  "emit_var_decl ex e indent node =
     (let oz = OZType (qual_type node ''int''); name = jstr node ''name'' ''_anon'';
          init = find (\<lambda>c. jkind c \<noteq> ''FullComment'') (jinner node);
          bridge = (case init of Some i \<Rightarrow> is_bridge_cast_expr i | None \<Rightarrow> False);
          decl_str = c_param_decl oz name;
          managed = (\<lambda>s. is_object oz \<and> name \<noteq> ''self'' \<and> es_scope_vars s \<noteq> [])
      in if has_blocks_attr node then out []
         else eseq
           [with_state (\<lambda>s. if managed s \<and> \<not> is_unretained oz \<and> \<not> bridge then upd (track name oz) else out []),
            (case init of
               Some i \<Rightarrow>
                 if jtrue i
                 then buffered (ex i) (\<lambda>t. eseq
                   [flush_pre_stmts indent, line indent (decl_str @ '' = '' @ t @ '';''),
                    with_state (\<lambda>s.
                      if managed s \<and> dget (last (es_scope_vars s)) name \<noteq> None
                      then lift (is_borrowed_object_expr (ee_owning e) i) (\<lambda>borrowed.
                             if borrowed then out (retain_line (ee_root e) indent name) else out [])
                      else out [])])
                 else line indent (decl_str @ '';'')
             | None \<Rightarrow> line indent (decl_str @ '';''))])"

text \<open>Both assignments are only emitted for a target found through implicit casts.\<close>

definition assigned_target :: "json list \<Rightarrow> json" where
  "assigned_target inner = unwrap_kinds [''ImplicitCastExpr''] (hd inner)"

definition emit_strong_local_assign :: "expr_emitter \<Rightarrow> emit_env \<Rightarrow> nat \<Rightarrow> json list \<Rightarrow> emitter" where
  "emit_strong_local_assign ex e indent inner =
     (let rhs = inner ! 1; root = ee_root e;
          var_name = jname (jobj (assigned_target inner) ''referencedDecl'')
      in buffered (ex rhs) (\<lambda>t. eseq
           [flush_pre_stmts indent,
            with_state (\<lambda>s. out (if is_tracked_ref rhs s then retain_line root indent t else [])),
            out (release_line root indent var_name),
            line indent (var_name @ '' = '' @ t @ '';''),
            upd (unconsume var_name)]))"

definition emit_strong_ivar_assign :: "expr_emitter \<Rightarrow> emit_env \<Rightarrow> nat \<Rightarrow> json list \<Rightarrow> emitter" where
  "emit_strong_ivar_assign ex e indent inner =
     (let rhs = inner ! 1; root = ee_root e; lhs = assigned_target inner;
          iv = jname (jobj lhs ''decl'');
          store = (\<lambda>val. eseq [out (release_line root indent (''self->'' @ iv)),
                               line indent (''self->'' @ iv @ '' = '' @ val @ '';'')])
      in buffered (ex rhs) (\<lambda>t. eseq
           [flush_pre_stmts indent,
            (case find_returned_var rhs of
               Some v \<Rightarrow>
                 if v \<noteq> [] \<and> v \<noteq> ''self''
                 then (if is_param_name e v
                       then eseq [out (retain_line root indent t), store t]
                       else eseq [store t, upd (consume v)])
                 else next_tmp (\<lambda>n. let tmp = ''_oz_recv'' @ str_of_nat n in
                        eseq [line indent (c_type (OZType (qual_type lhs ''id'')) @ tmp @ '' = '' @ t @ '';''), store tmp])
             | None \<Rightarrow> next_tmp (\<lambda>n. let tmp = ''_oz_recv'' @ str_of_nat n in
                        eseq [line indent (c_type (OZType (qual_type lhs ''id'')) @ tmp @ '' = '' @ t @ '';''), store tmp]))]))"

definition emit_expr_stmt :: "expr_emitter \<Rightarrow> nat \<Rightarrow> json \<Rightarrow> emitter" where
  "emit_expr_stmt ex indent node =
     buffered (ex node) (\<lambda>t. eseq [flush_pre_stmts indent, line indent (t @ '';'')])"

definition emit_assign_stmt :: "expr_emitter \<Rightarrow> emit_env \<Rightarrow> nat \<Rightarrow> json \<Rightarrow> emitter" where
  "emit_assign_stmt ex e indent node =
     (let inner = jinner node in
      with_state (\<lambda>s.
        if length inner = 2 \<and> is_object_ivar_assign e (hd inner) then emit_strong_ivar_assign ex e indent inner
        else if length inner = 2 \<and> is_tracked_ref (hd inner) s then emit_strong_local_assign ex e indent inner
        else emit_expr_stmt ex indent node))"

subsection \<open>Control flow\<close>

text \<open>A return releases every variable in scope except the returned one.\<close>

definition return_releases :: "emit_env \<Rightarrow> nat \<Rightarrow> json list \<Rightarrow> emitter" where
  "return_releases e indent inner =
     (let returned = (case inner of r # _ \<Rightarrow> find_returned_var r | [] \<Rightarrow> None)
      in with_state (\<lambda>s. out (release_vars (ee_root e) indent s
           (filter (\<lambda>n. returned \<noteq> Some n) (flatten_scope_vars s)))))"

text \<open>The returned expression without cleanups and without a cast to \<open>id\<close>.\<close>

definition returned_expr :: "json \<Rightarrow> json" where
  "returned_expr r =
     (let r = drop_cleanups r
      in if jkind r = ''ImplicitCastExpr'' \<and> jstr r ''castKind'' [] = ''BitCast''
            \<and> (qual_type r [] \<in> {''id'', ''instancetype''}
               \<or> jstr (jobj r ''type'') ''desugaredQualType'' [] = ''id'')
         then (case jinner r of [] \<Rightarrow> r | c # _ \<Rightarrow> c) else r)"

definition emit_return_stmt :: "expr_emitter \<Rightarrow> emit_env \<Rightarrow> nat \<Rightarrow> json \<Rightarrow> emitter" where
  "emit_return_stmt ex e indent node =
     eseq [return_releases e indent (jinner node),
           (case jinner node of
              [] \<Rightarrow> line indent ''return;''
            | r # _ \<Rightarrow> buffered (ex (returned_expr r)) (\<lambda>t.
                eseq [flush_pre_stmts indent, line indent (''return '' @ t @ '';'')]))]"

definition emit_if_stmt ::
  "expr_emitter \<Rightarrow> stmt_emitter \<Rightarrow> stmt_emitter \<Rightarrow> emit_env \<Rightarrow> nat \<Rightarrow> json \<Rightarrow> emitter" where
  "emit_if_stmt ex st ifs e indent node =
     (case jinner node of
        [] \<Rightarrow> out []
      | cond # rest \<Rightarrow>
          buffered (ex cond) (\<lambda>t. eseq
            [flush_pre_stmts indent, out (tabs indent @ ''if ('' @ t @ '') ''),
             (case rest of
                then_body # _ \<Rightarrow> if jtrue then_body then emit_braced st e indent then_body else out []
              | [] \<Rightarrow> out []),
             (case rest of
                _ # else_body # _ \<Rightarrow>
                  if \<not> jflag node ''hasElse'' \<or> \<not> jtrue else_body then out []
                  else if jkind else_body = ''IfStmt''
                  then eseq [out (tabs indent @ ''else ''), ifs else_body indent]
                  else eseq [out (tabs indent @ ''else ''), emit_braced st e indent else_body]
              | _ \<Rightarrow> out [])]))"

definition emit_switch_stmt :: "expr_emitter \<Rightarrow> stmt_emitter \<Rightarrow> nat \<Rightarrow> json \<Rightarrow> emitter" where
  "emit_switch_stmt ex st indent node =
     (case jinner node of
        cond # body # _ \<Rightarrow> buffered (ex cond) (\<lambda>t. eseq
          [flush_pre_stmts indent, line indent (''switch ('' @ t @ '') {''),
           (if jkind body = ''CompoundStmt'' then eseq (map (\<lambda>c. st c indent) (jinner body)) else st body indent),
           line indent ''}''])
      | _ \<Rightarrow> out [])"

definition emit_case_stmt :: "expr_emitter \<Rightarrow> stmt_emitter \<Rightarrow> nat \<Rightarrow> json \<Rightarrow> emitter" where
  "emit_case_stmt ex st indent node =
     (case jinner node of
        [] \<Rightarrow> out []
      | case_val # body \<Rightarrow> buffered (ex case_val) (\<lambda>t. eseq
          [line indent (''case '' @ t @ '':''), eseq (map (\<lambda>c. st c (Suc indent)) body)]))"

definition emit_while_stmt :: "expr_emitter \<Rightarrow> stmt_emitter \<Rightarrow> emit_env \<Rightarrow> nat \<Rightarrow> json \<Rightarrow> emitter" where
  "emit_while_stmt ex st e indent node =
     (case jinner node of
        cond # body # _ \<Rightarrow> buffered (ex cond) (\<lambda>t. eseq
          [flush_pre_stmts indent, out (tabs indent @ ''while ('' @ t @ '') ''),
           in_loop (emit_braced st e indent body)])
      | _ \<Rightarrow> out [])"

definition emit_do_stmt :: "expr_emitter \<Rightarrow> stmt_emitter \<Rightarrow> emit_env \<Rightarrow> nat \<Rightarrow> json \<Rightarrow> emitter" where
  "emit_do_stmt ex st e indent node =
     (case jinner node of
        body # cond # _ \<Rightarrow> eseq
          [out (tabs indent @ ''do ''), in_loop (emit_braced st e indent body),
           out (tabs indent @ ''while (''), ex cond, out ('');'' @ [nl])]
      | _ \<Rightarrow> out [])"

definition is_null_stmt :: "json \<Rightarrow> bool" where
  "is_null_stmt node \<longleftrightarrow> jkind node \<in> {''NullStmt'', ''<<<NULL>>>''}"

text \<open>The first clause of a \<open>for\<close>: of a declaration, its first declarator.\<close>

definition emit_for_init :: "expr_emitter \<Rightarrow> json \<Rightarrow> emitter" where
  "emit_for_init ex node =
     (if is_null_stmt node then out []
      else if jkind node = ''DeclStmt''
      then (case jinner node of
              vd # _ \<Rightarrow>
                if jkind vd = ''VarDecl''
                then eseq [out (c_type (OZType (qual_type vd ''int'')) @ '' '' @ jstr vd ''name'' ''i''),
                           (case find (\<lambda>c. jkind c \<noteq> ''FullComment'') (jinner vd) of
                              Some i \<Rightarrow> eseq [out '' = '', ex i]
                            | None \<Rightarrow> out [])]
                else out []
            | [] \<Rightarrow> out [])
      else ex node)"

definition emit_for_clause :: "expr_emitter \<Rightarrow> json list \<Rightarrow> nat \<Rightarrow> emitter" where
  "emit_for_clause ex inner i =
     (if i < length inner \<and> \<not> is_null_stmt (inner ! i) then ex (inner ! i) else out [])"

definition emit_for_stmt :: "expr_emitter \<Rightarrow> stmt_emitter \<Rightarrow> emit_env \<Rightarrow> nat \<Rightarrow> json \<Rightarrow> emitter" where
  "emit_for_stmt ex st e indent node =
     (let inner = jinner node; full = 4 < length inner;
          body = inner ! (if full then 4 else length inner - 1)
      in if length inner < 2 then out []
         else buffered (emit_for_init ex (hd inner)) (\<lambda>init.
              buffered (emit_for_clause ex inner (if full then 2 else 1)) (\<lambda>cond.
              buffered (emit_for_clause ex inner (if full then 3 else 2)) (\<lambda>inc. eseq
                [flush_pre_stmts indent,
                 out (tabs indent @ ''for ('' @ init @ ''; '' @ cond @ ''; '' @ inc @ '') ''),
                 in_loop (if jtrue body then emit_braced st e indent body else out (''{}'' @ [nl]))]))))"

text \<open>\<open>re.sub(r'\*\s*const\b', '*', qt)\<close>.\<close>

function drop_pointer_const :: "string \<Rightarrow> string" where
  "drop_pointer_const [] = []"
| "drop_pointer_const (c # cs) =
     (let rest = lstrip cs; after = drop 5 rest
      in if c = CHR ''*'' \<and> startswith rest ''const'' \<and> \<not> (after \<noteq> [] \<and> is_word_char (hd after))
         then c # drop_pointer_const after else c # drop_pointer_const cs)"
  by pat_completeness auto
termination
proof (relation "measure length")
  fix c cs rest after
  assume "rest = lstrip cs" "after = drop 5 rest"
  then have "length after \<le> length cs"
    using length_dropWhile [of is_space cs] by (simp add: lstrip_def)
  then show "(after, c # cs) \<in> measure length" by simp
qed auto

declare drop_pointer_const.simps [simp del]

text \<open>
  Fast enumeration: an iterator, a receiver temporary, and a loop whose variable lives in
  a frame between the loop and its body.
\<close>

definition emit_forin_stmt :: "expr_emitter \<Rightarrow> stmt_emitter \<Rightarrow> emit_env \<Rightarrow> nat \<Rightarrow> json \<Rightarrow> emitter" where
  "emit_forin_stmt ex st e indent node =
     (case jinner node of
        decl_stmt # collection # body # _ \<Rightarrow>
          lift (first_inner (JObj []) decl_stmt) (\<lambda>vd.
            let var_name = jstr vd ''name'' ''obj'';
                qt = drop_pointer_const (qual_type vd ''id'');
                ct = c_type (OZType qt)
            in buffered (ex collection) (\<lambda>coll. eseq
              [flush_pre_stmts indent,
               next_tmp (\<lambda>i. next_tmp (\<lambda>r.
                 let iter_tmp = ''_oz_iter'' @ str_of_nat i; next_recv = ''_oz_recv'' @ str_of_nat r;
                     send = ''OZ_PROTOCOL_SEND_next('' @ next_recv @ '')'';
                     next_call = (if ct \<noteq> ''struct OZObject *'' then ''('' @ ct @ '')'' @ send else send)
                 in eseq
                   [line indent ''{'',
                    line (Suc indent) (''struct OZObject *'' @ iter_tmp
                      @ '' = (struct OZObject *)OZ_PROTOCOL_SEND_iter((struct OZObject *)'' @ coll @ '');''),
                    line (Suc indent) (''struct OZObject *'' @ next_recv @ '' = '' @ iter_tmp @ '';''),
                    out (tabs (Suc indent) @ ''for ('' @ ct @ '' '' @ var_name @ '' = '' @ next_call @ ''; ''
                      @ var_name @ '' != ((void *)0); '' @ var_name @ '' = '' @ next_call @ '') ''),
                    in_frame [(var_name, OZType qt)] (in_loop (emit_braced st e (Suc indent) body)),
                    line indent ''}'']))]))
      | _ \<Rightarrow> out [])"

subsection \<open>Statements\<close>

definition stmt_macro_site :: "json \<Rightarrow> (int \<times> int) option" where
  "stmt_macro_site node =
     (if jtrue (jobj (range_end node) ''expansionLoc'') then expansion_site node else None)"

definition emit_stmt_kind ::
  "expr_emitter \<Rightarrow> stmt_emitter \<Rightarrow> stmt_emitter \<Rightarrow> emit_env \<Rightarrow> nat \<Rightarrow> json \<Rightarrow> emitter" where
  "emit_stmt_kind ex st ifs e indent node =
     (let kind = jkind node; inner = jinner node in
      if kind = ''ExprWithCleanups'' then (case inner of c # _ \<Rightarrow> st c indent | [] \<Rightarrow> out [])
      else if kind = ''ReturnStmt'' then emit_return_stmt ex e indent node
      else if kind = ''DeclStmt''
      then eseq (map (emit_var_decl ex e indent) (filter (\<lambda>d. jkind d = ''VarDecl'') inner))
      else if kind = ''IfStmt'' then emit_if_stmt ex st ifs e indent node
      else if kind = ''ForStmt'' then emit_for_stmt ex st e indent node
      else if kind = ''WhileStmt'' then emit_while_stmt ex st e indent node
      else if kind = ''DoStmt'' then emit_do_stmt ex st e indent node
      else if kind = ''CompoundStmt'' then emit_compound_stmt st e indent False [] node
      else if kind = ''ObjCAutoreleasePoolStmt''
      then (case inner of
              c # _ \<Rightarrow> if jkind c = ''CompoundStmt'' then emit_compound_stmt st e indent False [] c else out []
            | [] \<Rightarrow> out [])
      else if kind = ''ObjCAtSynchronizedStmt'' then emit_synchronized_stmt ex st e indent node
      else if kind = ''ObjCForCollectionStmt'' then emit_forin_stmt ex st e indent node
      else if kind = ''SwitchStmt'' then emit_switch_stmt ex st indent node
      else if kind = ''CaseStmt'' then emit_case_stmt ex st indent node
      else if kind = ''DefaultStmt''
      then eseq [line indent ''default:'', eseq (map (\<lambda>c. st c (Suc indent)) inner)]
      else if kind = ''NullStmt'' then line indent '';''
      else if kind = ''BreakStmt'' then eseq [emit_break_continue_releases e indent, line indent ''break;'']
      else if kind = ''ContinueStmt''
      then eseq [emit_break_continue_releases e indent, line indent ''continue;'']
      else if kind = ''BinaryOperator'' \<and> jstr node ''opcode'' [] = ''='' then emit_assign_stmt ex e indent node
      else emit_expr_stmt ex indent node)"

definition emit_stmt_step ::
  "expr_emitter \<Rightarrow> stmt_emitter \<Rightarrow> stmt_emitter \<Rightarrow> emit_env \<Rightarrow> nat \<Rightarrow> json \<Rightarrow> emitter" where
  "emit_stmt_step ex st ifs e indent node =
     (case stmt_macro_site node of
        None \<Rightarrow> emit_stmt_kind ex st ifs e indent node
      | Some site \<Rightarrow>
          (case ee_source e of
             None \<Rightarrow> eseq
               [log_diag (''warning: macro-expanded statement cannot be preserved (source unavailable) ''
                          @ em_dash @ '' reconstructing from AST''),
                emit_stmt_kind ex st ifs e indent node]
           | Some source \<Rightarrow>
               (case kept_macro_text source site node of
                  None \<Rightarrow> emit_stmt_kind ex st ifs e indent node
                | Some text \<Rightarrow>
                    eseq [out (tabs indent), patched_macro ex (fst site) text node, out ('';'' @ [nl])])))"

subsection \<open>The knot\<close>

fun emit_expr :: "nat \<Rightarrow> emit_env \<Rightarrow> json \<Rightarrow> emitter"
  and emit_stmt :: "nat \<Rightarrow> emit_env \<Rightarrow> json \<Rightarrow> nat \<Rightarrow> emitter"
  and emit_if :: "nat \<Rightarrow> emit_env \<Rightarrow> json \<Rightarrow> nat \<Rightarrow> emitter" where
  "emit_expr 0 e node = raise Diverges"
| "emit_expr (Suc n) e node =
     emit_expr_step (\<lambda>x. emit_expr n e x)
       (\<lambda>b. emit_compound_stmt (\<lambda>c i. emit_stmt n e c i) e 0 False [] b) e node"
| "emit_stmt 0 e node indent = raise Diverges"
| "emit_stmt (Suc n) e node indent =
     emit_stmt_step (\<lambda>x. emit_expr n e x) (\<lambda>c i. emit_stmt n e c i) (\<lambda>c i. emit_if n e c i) e indent node"
| "emit_if 0 e node indent = raise Diverges"
| "emit_if (Suc n) e node indent =
     emit_if_stmt (\<lambda>x. emit_expr n e x) (\<lambda>c i. emit_stmt n e c i) (\<lambda>c i. emit_if n e c i) e indent node"

declare emit_expr.simps [simp del] emit_stmt.simps [simp del] emit_if.simps [simp del]

definition body_fuel :: "json \<Rightarrow> nat" where
  "body_fuel node = Suc (2 * size node)"

text \<open>A method or function body, from its compound statement.\<close>

definition emit_body :: "nat \<Rightarrow> emit_env \<Rightarrow> oz_param list \<Rightarrow> json \<Rightarrow> emitter" where
  "emit_body fuel e params body =
     emit_compound_stmt (emit_stmt fuel e) e 0 False (object_params params) body"

end
