(* ===== verification/Emit_Lookup_Facts.thy ===== *)
theory Emit_Lookup_Facts
  imports Emit_Lookup
begin

text \<open>
  The lookups of the emitter on modules without inheritance cycles: every walk ends and is
  the search of a finite line of classes. From that follow that compile-time dispatch and
  the vtables agree, what the access check accepts, and where \<open>base.\<close> chains lead.
\<close>

subsection \<open>Walks end\<close>

lemma rank_known:
  assumes "acyclic_module m" and "cls_of m n \<noteq> None"
  shows "rank m n < length (mo_classes m)"
proof -
  let ?K = "set (dkeys (mo_classes m))"
  have "n \<in> ?K" using assms(2) unfolding in_dkeys_iff .
  moreover have "(n, n) \<notin> (super_rel m)\<^sup>+"
    using assms(1) by (simp add: acyclic_module_def acyclic_def)
  ultimately have "rank m n < card ?K"
    unfolding rank_def by (intro psubset_card_mono) auto
  also have "\<dots> \<le> length (mo_classes m)" using card_length [of "dkeys (mo_classes m)"] by simp
  finally show ?thesis .
qed

lemma class_line_ends:
  assumes "acyclic_module m"
  obtains line where "class_line m c = Some line"
proof (cases "super_in m c")
  case None
  then show ?thesis using that by (simp add: class_line_def hier_fuel_def)
next
  case (Some s)
  then obtain d where d: "cls_of m s = Some d" by (auto simp: super_in_def split: option.splits if_splits)
  then have "rank m s < length (mo_classes m)" by (intro rank_known assms) simp
  with climb_total [OF assms d] obtain line where "climb (length (mo_classes m)) m d = Some line" by auto
  with that Some d show ?thesis by (simp add: class_line_def hier_fuel_def)
qed

lemma class_line_Cons: "class_line m c = Some line \<Longrightarrow> \<exists>rest. line = c # rest"
  by (auto simp: class_line_def hier_fuel_def split: option.splits)

lemma names_until_step:
  "cls_of m n = Some c \<Longrightarrow> body n c = None \<Longrightarrow>
   names_until (Suc fuel) m body n
   = (case up_of m n of None \<Rightarrow> Some None | Some s \<Rightarrow> names_until fuel m body s)"
  by simp

lemma up_of_super_in:
  "cls_of m n = Some c \<Longrightarrow>
   super_in m c = (case up_of m n of None \<Rightarrow> None | Some s \<Rightarrow> if cls_of m s \<noteq> None then Some s else None)"
  by (auto simp: super_in_def up_of_def str_truthy_def split: option.splits)

text \<open>The loop over names searches the line of classes, each under its key.\<close>

lemma names_until_line:
  assumes "module_ok m"
  shows "climb fuel m c = Some line \<Longrightarrow> cls_of m n = Some c \<Longrightarrow>
    names_until (Suc fuel) m body n = Some (first_return (\<lambda>c. body (cl_name c) c) line)"
proof (induction fuel arbitrary: n c line)
  case 0
  then show ?case by simp
next
  case (Suc fuel)
  have name: "cl_name c = n" by (rule module_ok_name [OF assms Suc.prems(2)])
  note up = up_of_super_in [OF Suc.prems(2)]
  show ?case
  proof (cases "body n c")
    case (Some r)
    with Suc.prems name show ?thesis by (auto split: option.splits)
  next
    case None
    show ?thesis
    proof (cases "super_in m c")
      case top: None
      from top up Suc.prems None name show ?thesis
        by (auto split: option.splits if_splits)
    next
      case s: (Some s)
      then obtain d where d: "cls_of m s = Some d" "up_of m n = Some s"
        using up by (auto split: option.splits if_splits)
      from Suc.prems(1) s d obtain rest where rest: "climb fuel m d = Some rest" "line = c # rest" by auto
      from Suc.IH [OF rest(1) d(1)] d Suc.prems(2) None name rest(2) show ?thesis by simp
    qed
  qed
qed

lemma names_until_mono:
  "names_until fuel m body n = Some r \<Longrightarrow> fuel \<le> fuel' \<Longrightarrow> names_until fuel' m body n = Some r"
proof (induction fuel arbitrary: n fuel')
  case (Suc fuel)
  from Suc.prems(2) obtain k where "fuel' = Suc k" "fuel \<le> k" by (cases fuel') auto
  with Suc show ?case by (auto split: option.splits)
qed simp

lemma names_until_ends:
  assumes "acyclic_module m"
  shows "\<exists>r. names_until (hier_fuel m) m body n = Some r"
proof -
  have "\<exists>r. names_until fuel m body n = Some r"
    if "0 < fuel" "cls_of m n \<noteq> None \<Longrightarrow> rank m n + 2 \<le> fuel" for fuel
    using that
  proof (induction fuel arbitrary: n)
    case (Suc fuel)
    show ?case
    proof (cases "cls_of m n")
      case (Some c)
      with Suc.prems(2) have fuel: "rank m n + 1 \<le> fuel" by simp
      have "\<exists>r. names_until fuel m body s = Some r" if "up_of m n = Some s" for s
      proof (rule Suc.IH)
        assume "cls_of m s \<noteq> None"
        with assms that have "rank m s < rank m n" by (intro rank_less) (auto simp: super_rel_def)
        with fuel show "rank m s + 2 \<le> fuel" by simp
      qed (use fuel in simp)
      with Some show ?thesis by (auto split: option.splits)
    qed simp
  qed simp
  from this [of "hier_fuel m"] show ?thesis
    using rank_known [OF assms, of n] by (fastforce simp: hier_fuel_def simp del: names_until.simps)
qed

lemma names_until_class_line:
  assumes "module_ok m" and "acyclic_module m" and "cls_of m n = Some c" and "class_line m c = Some line"
  shows "names_until (hier_fuel m) m body n = Some (first_return (\<lambda>c. body (cl_name c) c) line)"
proof -
  obtain r where "names_until (hier_fuel m) m body n = Some r"
    using names_until_ends [OF assms(2)] by blast
  moreover have "names_until (Suc (hier_fuel m)) m body n = Some (first_return (\<lambda>c. body (cl_name c) c) line)"
    using names_until_line [OF assms(1) assms(4) [unfolded class_line_def] assms(3)] .
  ultimately show ?thesis using names_until_mono [of "hier_fuel m" m body n r "Suc (hier_fuel m)"] by simp
qed

lemma ivar_depth_line:
  "climb fuel m c = Some line \<Longrightarrow>
   ivar_depth fuel m iv d c =
     Some (if list_ex (has_ivar iv) (drop 1 line)
           then Some (d + Suc (length (takeWhile (\<lambda>c. \<not> has_ivar iv c) (drop 1 line)))) else None)"
proof (induction fuel arbitrary: c line d)
  case 0
  then show ?case by simp
next
  case (Suc fuel)
  show ?case
  proof (cases "super_in m c")
    case None
    with Suc.prems show ?thesis by auto
  next
    case (Some s)
    with Suc.prems obtain rest where rest: "climb fuel m (the (cls_of m s)) = Some rest" "line = c # rest"
      by auto
    then obtain more where more: "rest = the (cls_of m s) # more" by (cases fuel) (auto split: option.splits)
    from Suc.IH [OF rest(1), of "Suc d"] Some rest(2) more show ?thesis
      by (auto simp: Let_def)
  qed
qed

subsection \<open>No lookup diverges\<close>

lemma walked_ends: "\<exists>r. x = Some r \<Longrightarrow> walked x \<noteq> Inl Diverges"
  by auto

lemma lookups_end:
  assumes "acyclic_module m"
  shows "find_defining_class n sel m \<noteq> Inl Diverges"
    and "is_subclass n p m \<noteq> Inl Diverges"
    and "check_ivar_access iv owner acc m \<noteq> Inl Diverges"
    and "ivar_base_chain nm c m \<noteq> Inl Diverges"
    and "base_chain n m \<noteq> Inl Diverges"
    and "self_lock_chain c m \<noteq> Inl Diverges"
proof -
  show sub: "is_subclass n p m \<noteq> Inl Diverges" for n p
    using names_until_ends [OF assms, of "\<lambda>n c. if str_truthy (cl_superclass c) \<and> cl_superclass c = Some p
                     then Some () else None" n]
    by (auto simp: is_subclass_def)
  show "find_defining_class n sel m \<noteq> Inl Diverges"
    using names_until_ends [OF assms, of "defines_selector sel" n]
    by (auto simp: find_defining_class_def)
  show "check_ivar_access iv owner acc m \<noteq> Inl Diverges"
    using sub by (simp add: check_ivar_access_def)
  show "ivar_base_chain nm c m \<noteq> Inl Diverges"
  proof -
    from class_line_ends [OF assms, of c] obtain line where "climb (hier_fuel m) m c = Some line"
      unfolding class_line_def by blast
    from ivar_depth_line [OF this, of nm 0] show ?thesis
      by (simp add: ivar_base_chain_def)
  qed
  have steps: "super_steps c m \<noteq> Inl Diverges" for c
    by (rule class_line_ends [OF assms, of c]) (simp add: super_steps_def)
  show "base_chain n m \<noteq> Inl Diverges" "self_lock_chain c m \<noteq> Inl Diverges"
    using steps by (auto simp: base_chain_def self_lock_chain_def ebind_Inl_iff split: option.splits)
qed

subsection \<open>A hierarchy of three classes\<close>

text \<open>The concrete module the theorems on emission are applied to.\<close>

definition kennel_class :: "string \<Rightarrow> string option \<Rightarrow> string list \<Rightarrow> string list \<Rightarrow> oz_class" where
  "kennel_class name super ivs sels =
     (OZClass name super)
       \<lparr>cl_ivars := map (\<lambda>n. \<lparr>iv_name = n, iv_type = OZType ''int'', iv_access = ''protected''\<rparr>) ivs,
        cl_methods := map (\<lambda>sel. (OZMethod sel (OZType ''void''))
           \<lparr>me_dispatch := if sel = ''speak'' then PROTOCOL else STATIC\<rparr>) sels\<rparr>"

definition kennel :: oz_module where
  "kennel = OZModule
     \<lparr>mo_classes :=
        [(''OZObject'', kennel_class ''OZObject'' None [] [''init'', ''dealloc'']),
         (''Animal'', kennel_class ''Animal'' (Some ''OZObject'') [''_age''] [''speak'']),
         (''Dog'', kennel_class ''Dog'' (Some ''Animal'') [''_tail''] [''wag''])]\<rparr>"

lemmas kennel_defs = kennel_def kennel_class_def OZModule_def OZClass_def OZMethod_def

lemma kennel_ok: "module_ok kennel"
  by (simp add: module_ok_def kennel_defs)

lemma kennel_acyclic: "acyclic_module kennel"
proof -
  have "case validate_hierarchy kennel of Inr m' \<Rightarrow> True | Inl e \<Rightarrow> False" by code_simp
  then have "\<exists>m'. validate_hierarchy kennel = Inr m'" by (auto split: sum.splits)
  then show ?thesis using validate_hierarchy_Inr_iff [OF kennel_ok] by simp
qed

subsection \<open>Vtables and compile-time dispatch\<close>

lemma first_return_map:
  "first_return (\<lambda>x. map_option g (f x)) xs = map_option g (first_return f xs)"
  by (induction xs) (auto split: option.splits)

text \<open>
  C3. The class whose function the vtable of a class holds for a selector is the class whose
  function a compile-time dispatched send on the same class calls, for every selector but
  \<open>dealloc\<close> and the ones the root class gets from the generator.
\<close>

theorem vtable_is_compile_time_dispatch:
  assumes "module_ok m" and "acyclic_module m" and "cls_of m n = Some c" and "n \<noteq> []"
    and "sel \<noteq> ''dealloc''" and "sel \<notin> set ROOT_INTROSPECTION_SELS"
  shows "\<exists>r. find_implementing_class c sel m = Inr r
           \<and> find_defining_class n sel m = Inr (case r of Some i \<Rightarrow> cl_name i | None \<Rightarrow> n)"
proof -
  obtain line where line: "class_line m c = Some line" using class_line_ends [OF assms(2)] .
  let ?body = "\<lambda>cur. if declares sel cur then Some cur else None"
  have impl: "find_implementing_class c sel m = Inr (first_return ?body line)"
    using assms(5) climb_until_line [OF line [unfolded class_line_def], of ?body]
    by (simp add: find_implementing_class_def)
  have "(\<lambda>c. defines_selector sel (cl_name c) c) = (\<lambda>c. map_option cl_name (?body c))"
    using assms(6) by (auto simp: defines_selector_def)
  then have "find_defining_class n sel m
      = Inr (case map_option cl_name (first_return ?body line) of Some k \<Rightarrow> k | None \<Rightarrow> n)"
    using assms(4) names_until_class_line [OF assms(1-3) line, of "defines_selector sel"]
    by (simp add: find_defining_class_def first_return_map)
  with impl show ?thesis by (auto split: option.splits)
qed

theorem vtable_is_compile_time_dispatch_witness:
  "\<exists>r. find_implementing_class (the (cls_of kennel ''Dog'')) ''speak'' kennel = Inr r
     \<and> find_defining_class ''Dog'' ''speak'' kennel = Inr (case r of Some i \<Rightarrow> cl_name i | None \<Rightarrow> ''Dog'')"
  by (rule vtable_is_compile_time_dispatch [OF kennel_ok kennel_acyclic])
     (simp_all add: kennel_defs ROOT_INTROSPECTION_SELS_def)

subsection \<open>Chains of base fields\<close>

lemma dget_keyed: "dget (map (\<lambda>(k, v). (k, f k v)) d) k = map_option (f k) (dget d k)"
  by (induction d) auto

text \<open>
  C29. The chain of \<open>base\<close> fields a class header uses to reach the root object has as many
  steps as the base depth that name resolution stored in the class.
\<close>

theorem base_chain_is_base_depth:
  assumes "module_ok m" and "acyclic_module m" and "compute_base_depths m = Inr m'"
    and "cls_of m' n = Some c"
  shows "base_chain n m' = Inr (''obj->'' @ bases (cl_base_depth c))"
proof -
  have m': "mo_classes m' = map (\<lambda>(k, c). (k, c\<lparr>cl_base_depth := rank m k\<rparr>)) (mo_classes m)"
    using assms(3) compute_base_depths_ok [OF assms(1,2)] by auto
  have get: "cls_of m' k = map_option (\<lambda>c. c\<lparr>cl_base_depth := rank m k\<rparr>) (cls_of m k)" for k
    unfolding m' by (rule dget_keyed)
  have rel: "super_rel m' = super_rel m" by (rule hierarchy_cong) (simp add: get option.map_comp comp_def)
  have keys: "dkeys (mo_classes m') = dkeys (mo_classes m)"
    unfolding m' by (simp add: case_prod_unfold comp_def)
  have rank: "rank m' n = rank m n" by (simp add: rank_def rel keys)
  have "acyclic_module m'" using assms(2) by (simp add: acyclic_module_def rel)
  then obtain line where "class_line m' c = Some line" "length line = Suc (rank m' n)"
    by (rule class_line_known [OF _ assms(4)])
  moreover have "cl_base_depth c = rank m n" using assms(4) by (auto simp: get)
  ultimately show ?thesis using assms(4) rank by (simp add: base_chain_def super_steps_def)
qed

theorem base_chain_is_base_depth_witness:
  "\<exists>m' c. compute_base_depths kennel = Inr m' \<and> cls_of m' ''Dog'' = Some c
     \<and> base_chain ''Dog'' m' = Inr (''obj->'' @ bases (cl_base_depth c))"
proof -
  note ok = compute_base_depths_ok [OF kennel_ok kennel_acyclic]
  from ok obtain m' where m': "compute_base_depths kennel = Inr m'" by blast
  with ok have "cls_of m' ''Dog'' \<noteq> None" by (auto simp: dget_keyed) (simp add: kennel_defs)
  with m' base_chain_is_base_depth [OF kennel_ok kennel_acyclic m'] show ?thesis by auto
qed

text \<open>
  C22. The chain of \<open>base\<close> fields written before an inherited instance variable leads to the
  nearest class of the line that declares the variable.
\<close>

theorem ivar_base_chain_nearest:
  assumes "acyclic_module m" and "class_line m c = Some line" and "list_ex (has_ivar iv) line"
  shows "\<exists>d < length line. ivar_base_chain iv c m = Inr (bases d) \<and> has_ivar iv (line ! d)
           \<and> list_all (\<lambda>k. \<not> has_ivar iv k) (take d line)"
proof (intro exI conjI)
  let ?d = "length (takeWhile (\<lambda>k. \<not> has_ivar iv k) line)"
  obtain rest where rest: "line = c # rest" using class_line_Cons [OF assms(2)] by blast
  show "?d < length line"
    using assms(3) takeWhile_eq_all_conv [of "\<lambda>k. \<not> has_ivar iv k" line]
      takeWhile_eq_take [of "\<lambda>k. \<not> has_ivar iv k" line]
    by (fastforce simp: list_ex_iff not_less)
  then show "has_ivar iv (line ! ?d)"
    using nth_length_takeWhile [of "\<lambda>k. \<not> has_ivar iv k" line] by simp
  show "list_all (\<lambda>k. \<not> has_ivar iv k) (take ?d line)"
    unfolding takeWhile_eq_take [symmetric] list_all_iff by (auto dest: set_takeWhileD)
  show "ivar_base_chain iv c m = Inr (bases ?d)"
    using ivar_depth_line [OF assms(2) [unfolded class_line_def], of iv 0] assms(3) rest
    by (auto simp: ivar_base_chain_def bases_def)
qed

theorem ivar_base_chain_nearest_witness:
  "let line = the (class_line kennel (the (cls_of kennel ''Dog'')))
   in \<exists>d < length line. ivar_base_chain ''_age'' (the (cls_of kennel ''Dog'')) kennel = Inr (bases d)
        \<and> has_ivar ''_age'' (line ! d) \<and> list_all (\<lambda>k. \<not> has_ivar ''_age'' k) (take d line)"
proof -
  have "class_line kennel (the (cls_of kennel ''Dog'')) \<noteq> None
      \<and> list_ex (has_ivar ''_age'') (the (class_line kennel (the (cls_of kennel ''Dog''))))"
    by code_simp
  then obtain line where "class_line kennel (the (cls_of kennel ''Dog'')) = Some line"
    "list_ex (has_ivar ''_age'') line" by auto
  with ivar_base_chain_nearest [OF kennel_acyclic this] show ?thesis by (simp add: Let_def)
qed

subsection \<open>Access control\<close>

lemma is_subclass_walk:
  "names_until fuel m (\<lambda>n c. if str_truthy (cl_superclass c) \<and> cl_superclass c = Some p
       then Some () else None) n = Some r
   \<Longrightarrow> r \<noteq> None \<longleftrightarrow> (n, p) \<in> (super_rel m)\<^sup>+"
proof (induction fuel arbitrary: n)
  case (Suc fuel)
  show ?case
  proof (cases "up_of m n")
    case None
    then have "(n, p) \<notin> (super_rel m)\<^sup>+" by (auto simp: super_rel_def dest: tranclD)
    with None Suc.prems show ?thesis by (auto simp: up_of_def split: option.splits if_splits)
  next
    case (Some s)
    then have rel: "(n, s) \<in> super_rel m" by (simp add: super_rel_def)
    from Some obtain c where c: "cls_of m n = Some c" "str_truthy (cl_superclass c)" "cl_superclass c = Some s"
      by (auto simp: up_of_def split: option.splits if_splits)
    show ?thesis
    proof (cases "s = p")
      case True
      with c Suc.prems rel show ?thesis by auto
    next
      case False
      with rel super_rel_trancl_step [of n p m s]
      have "(n, p) \<in> (super_rel m)\<^sup>+ \<longleftrightarrow> (s, p) \<in> (super_rel m)\<^sup>+"
        by (metis rtranclD trancl_into_trancl2)
      with c Some False Suc show ?thesis by simp
    qed
  qed
qed simp

lemma is_subclass_iff:
  assumes "acyclic_module m"
  shows "is_subclass n p m = Inr ((n, p) \<in> (super_rel m)\<^sup>+)"
  using names_until_ends [OF assms] is_subclass_walk [of "hier_fuel m" m p n]
  by (fastforce simp: is_subclass_def)

text \<open>
  C23. An access to an instance variable of another object is accepted exactly when the
  variable is public, or the accessing class is its owner, or it is not private and the
  accessing class is below its owner in the hierarchy.
\<close>

theorem check_ivar_access_iff:
  assumes "acyclic_module m"
  shows "check_ivar_access iv owner acc m =
         Inr (iv_access iv = ''public'' \<or> cl_name acc = cl_name owner
              \<or> iv_access iv \<noteq> ''private'' \<and> (cl_name acc, cl_name owner) \<in> (super_rel m)\<^sup>+)"
  using is_subclass_iff [OF assms] by (auto simp: check_ivar_access_def)

theorem check_ivar_access_iff_witness:
  "let iv = hd (cl_ivars (the (cls_of kennel ''Animal''))); owner = the (cls_of kennel ''Animal'');
       acc = the (cls_of kennel ''Dog'')
   in check_ivar_access iv owner acc kennel =
        Inr (iv_access iv = ''public'' \<or> cl_name acc = cl_name owner
             \<or> iv_access iv \<noteq> ''private'' \<and> (cl_name acc, cl_name owner) \<in> (super_rel kennel)\<^sup>+)"
  unfolding Let_def by (rule check_ivar_access_iff [OF kennel_acyclic])

subsection \<open>C names of selectors\<close>

lemma selector_to_c_map: "selector_to_c sel = map (\<lambda>c. if c = CHR '':'' then CHR ''_'' else c) sel"
  by (induction sel) (auto simp: selector_to_c_def startswith_def)

text \<open>
  C30. Two selectors get the same C name exactly when they agree up to exchanging colons and
  underscores at the same positions; so \<open>a:b\<close> and \<open>a_b\<close> clash, and no two selectors
  without underscores do.
\<close>

theorem selector_to_c_clash_iff:
  "selector_to_c s = selector_to_c t \<longleftrightarrow>
     list_all2 (\<lambda>a b. a = b \<or> a = CHR '':'' \<and> b = CHR ''_'' \<or> a = CHR ''_'' \<and> b = CHR '':'') s t"
  unfolding selector_to_c_map
  by (auto simp: list_all2_conv_all_nth list_eq_iff_nth_eq split: if_splits)

end
