(* ===== verification/Emit_Logic.thy ===== *)
theory Emit_Logic
  imports Emit_Body Emit_Lookup_Facts
begin

text \<open>
  Proof rules for emitters. A relation between emitters that the combinators preserve is
  preserved by every handler of expressions and statements; the locales state what has to
  hold of the combinators and prove the rest once. Three relations are used: an emitter does
  not diverge, a second one returns what the first returns unless that diverges, an emitter
  keeps a relation between the states before and after it.
\<close>

subsection \<open>Relations that the combinators preserve\<close>

lemma eseq_Cons_buffered: "eseq (a # as) = buffered a (\<lambda>t. buffered (eseq as) (\<lambda>u. out (t @ u)))"
  by (simp add: fun_eq_iff emit_defs)

lemma eseq_Nil_out: "eseq [] = out []"
  by (simp add: fun_eq_iff emit_defs)

lemma buffers_Nil: "buffers [] k = k []"
  by (simp add: fun_eq_iff)

lemma buffers_Cons: "buffers (a # as) k = buffered a (\<lambda>t. buffers as (\<lambda>ts. k (t # ts)))"
  by (simp add: fun_eq_iff)

text \<open>
  \<open>strict\<close> relations may not be told anything of a computation that diverges.
\<close>

locale emitter_rel =
  fixes E :: "emitter \<Rightarrow> emitter \<Rightarrow> bool" and strict :: bool
  assumes emits: "E (out t) (out t)"
    and raises: "(strict \<Longrightarrow> x \<noteq> Diverges) \<Longrightarrow> E (raise x) (raise x)"
    and reads: "(\<And>s. E (k s) (k' s)) \<Longrightarrow> E (with_state k) (with_state k')"
    and buffs: "E a a' \<Longrightarrow> (\<And>t. E (h t) (h' t)) \<Longrightarrow> E (buffered a h) (buffered a' h')"
begin

lemma raises_index: "E (raise IndexErr) (raise IndexErr)"
  by (rule raises) simp

lemma lifts:
  assumes "strict \<Longrightarrow> x \<noteq> Inl Diverges" and "\<And>a. x = Inr a \<Longrightarrow> E (l a) (l' a)"
  shows "E (lift x l) (lift x l')"
proof (cases x)
  case (Inl exn)
  then have "lift x l = raise exn" "lift x l' = raise exn" by (simp_all add: fun_eq_iff emit_defs)
  then show ?thesis using Inl assms(1) raises [of exn] by simp
next
  case (Inr a)
  then have "lift x l = l a" "lift x l' = l' a" by (simp_all add: fun_eq_iff emit_defs)
  then show ?thesis using Inr assms(2) by simp
qed

lemma seq_Nil: "E (eseq []) (eseq [])"
  by (simp add: eseq_Nil_out emits)

lemma seq_Cons: "E a a' \<Longrightarrow> E (eseq as) (eseq as') \<Longrightarrow> E (eseq (a # as)) (eseq (a' # as'))"
  unfolding eseq_Cons_buffered by (intro buffs emits)

lemma seq_map: "(\<And>x. x \<in> set xs \<Longrightarrow> E (f x) (g x)) \<Longrightarrow> E (eseq (map f xs)) (eseq (map g xs))"
  by (induction xs) (auto intro: seq_Nil seq_Cons)

lemma seq_args:
  "(\<And>x. x \<in> set xs \<Longrightarrow> E (f x) (g x))
   \<Longrightarrow> E (eseq (concat (map (\<lambda>x. [out t, f x]) xs))) (eseq (concat (map (\<lambda>x. [out t, g x]) xs)))"
  by (induction xs) (auto intro: seq_Nil seq_Cons emits)

lemma commas:
  assumes "\<And>x. x \<in> set xs \<Longrightarrow> E (f x) (g x)"
  shows "E (comma_separated (map f xs)) (comma_separated (map g xs))"
  using assms seq_args [of "drop 1 xs" f g "'', ''"]
  by (cases xs) (auto simp: comma_separated_def comp_def intro!: emits seq_Cons)

lemma buffs_map:
  "(\<And>x. x \<in> set xs \<Longrightarrow> E (f x) (g x)) \<Longrightarrow> (\<And>ts. E (k ts) (k' ts))
   \<Longrightarrow> E (buffers (map f xs) k) (buffers (map g xs) k')"
proof (induction xs arbitrary: k k')
  case Nil
  then show ?case by (simp add: buffers_Nil)
next
  case (Cons x xs)
  then show ?case unfolding list.map buffers_Cons by (intro buffs Cons.IH) auto
qed

lemma cond: "(b \<Longrightarrow> E a a') \<Longrightarrow> (\<not> b \<Longrightarrow> E c c') \<Longrightarrow> E (if b then a else c) (if b then a' else c')"
  by simp

lemma case_list:
  "(xs = [] \<Longrightarrow> E a a') \<Longrightarrow> (\<And>y ys. xs = y # ys \<Longrightarrow> E (f y ys) (g y ys))
   \<Longrightarrow> E (case xs of [] \<Rightarrow> a | y # ys \<Rightarrow> f y ys) (case xs of [] \<Rightarrow> a' | y # ys \<Rightarrow> g y ys)"
  by (cases xs) auto

lemma case_opt:
  "(x = None \<Longrightarrow> E a a') \<Longrightarrow> (\<And>y. x = Some y \<Longrightarrow> E (f y) (g y))
   \<Longrightarrow> E (case x of None \<Rightarrow> a | Some y \<Rightarrow> f y) (case x of None \<Rightarrow> a' | Some y \<Rightarrow> g y)"
  by (cases x) auto

lemma case_pair: "(\<And>a b. p = (a, b) \<Longrightarrow> E (f a b) (g a b)) \<Longrightarrow> E (case_prod f p) (case_prod g p)"
  by (cases p) auto

lemma writes_line: "E (line indent t) (line indent t)"
  by (simp add: line_def emits)

lemmas rules = emits raises_index reads buffs seq_map seq_args seq_Cons seq_Nil commas buffs_map cond
  case_list case_opt case_pair writes_line

end

subsection \<open>What a step keeps of the state\<close>

text \<open>
  Logs, block functions and string constants only grow, counters do not fall, and every new
  entry of the deduplication table comes with its string constant.
\<close>

definition new_strings :: "(string, string) dict \<Rightarrow> emit_state \<Rightarrow> emit_state \<Rightarrow> bool" where
  "new_strings new s s' \<longleftrightarrow>
     es_dedup s' = es_dedup s @ new
     \<and> es_strings s' = es_strings s @ map (\<lambda>(val, name). string_constant name val) new
     \<and> distinct (dkeys new) \<and> set (dkeys new) \<inter> set (dkeys (es_dedup s)) = {}"

definition grows :: "emit_state \<Rightarrow> emit_state \<Rightarrow> bool" where
  "grows s s' \<longleftrightarrow>
     (\<exists>e. es_errors s' = es_errors s @ e) \<and> (\<exists>d. es_diags s' = es_diags s @ d)
     \<and> (\<exists>b. es_blocks s' = es_blocks s @ b) \<and> (\<exists>new. new_strings new s s')
     \<and> es_tmp s \<le> es_tmp s' \<and> es_sync s \<le> es_sync s' \<and> es_loops s' = es_loops s"

text \<open>An expression leaves the scopes alone; a statement may add to the innermost one.\<close>

definition same_scopes :: "emit_state \<Rightarrow> emit_state \<Rightarrow> bool" where
  "same_scopes s s' \<longleftrightarrow> grows s s' \<and> es_scope_vars s' = es_scope_vars s"

definition adds_to_scope :: "emit_state \<Rightarrow> emit_state \<Rightarrow> bool" where
  "adds_to_scope s s' \<longleftrightarrow>
     grows s s' \<and>
     (es_scope_vars s \<noteq> [] \<longrightarrow>
        (\<exists>f. es_scope_vars s' = butlast (es_scope_vars s) @ [f]
           \<and> set (dkeys (last (es_scope_vars s))) \<subseteq> set (dkeys f)))"

lemma grows_refl: "grows s s"
  unfolding grows_def new_strings_def by (intro conjI exI [of _ "[]"]) auto

lemma grows_trans: "grows s t \<Longrightarrow> grows t u \<Longrightarrow> grows s u"
proof -
  assume "grows s t" "grows t u"
  then obtain new1 new2 where "new_strings new1 s t" "new_strings new2 t u"
    unfolding grows_def by blast
  then have "new_strings (new1 @ new2) s u" by (auto simp: new_strings_def)
  with \<open>grows s t\<close> \<open>grows t u\<close> show "grows s u" unfolding grows_def by auto
qed

lemma same_scopes_adds: "same_scopes s s' \<Longrightarrow> adds_to_scope s s'"
  unfolding same_scopes_def adds_to_scope_def
  by (auto intro!: exI [of _ "last (es_scope_vars s)"])

text \<open>Updates that any expression may make.\<close>

definition quiet :: "(emit_state \<Rightarrow> emit_state) \<Rightarrow> bool" where
  "quiet f \<longleftrightarrow> (\<forall>s. same_scopes s (f s))"

lemma quietI:
  assumes "\<And>s. es_scope_vars (f s) = es_scope_vars s" "\<And>s. es_loops (f s) = es_loops s"
    "\<And>s. es_dedup (f s) = es_dedup s" "\<And>s. es_strings (f s) = es_strings s"
    "\<And>s. es_tmp s \<le> es_tmp (f s)" "\<And>s. es_sync s \<le> es_sync (f s)"
    "\<And>s. \<exists>e. es_errors (f s) = es_errors s @ e" "\<And>s. \<exists>d. es_diags (f s) = es_diags s @ d"
    "\<And>s. \<exists>b. es_blocks (f s) = es_blocks s @ b"
  shows "quiet f"
  using assms by (auto simp: quiet_def same_scopes_def grows_def new_strings_def intro: exI [of _ "[]"])

lemma quiet_updates:
  "quiet (\<lambda>s. s\<lparr>es_errors := es_errors s @ [msg]\<rparr>)" "quiet (\<lambda>s. s\<lparr>es_diags := es_diags s @ [msg]\<rparr>)"
  "quiet (\<lambda>s. s\<lparr>es_pre := h s\<rparr>)" "quiet (\<lambda>s. s\<lparr>es_tmp := Suc (es_tmp s)\<rparr>)"
  "quiet (\<lambda>s. s\<lparr>es_sync := Suc (es_sync s)\<rparr>)" "quiet (\<lambda>s. s\<lparr>es_blocks := es_blocks s @ [b]\<rparr>)"
  "quiet (consume v)" "quiet (unconsume v)"
  by (rule quietI; simp add: consume_def unconsume_def)+

lemma boxed_leaf_ends: "boxed_leaf node \<noteq> Inl Diverges"
  by (induction node rule: boxed_leaf.induct) (subst boxed_leaf.simps, auto split: list.splits)

lemma ivar_base_ends: "ivar_base node \<noteq> Inl Diverges"
  by (induction node rule: ivar_base.induct) (subst ivar_base.simps, auto split: list.splits)

lemma first_inner_ends: "first_inner d node \<noteq> Inl Diverges"
  by (simp add: first_inner_def split: list.splits)

lemma released_var_ends: "released_var r \<noteq> Inl Diverges"
  using first_inner_ends by (auto simp: released_var_def Let_def ebind_Inl_iff)

lemma borrowed_ends: "is_borrowed_object_expr owning node \<noteq> Inl Diverges"
  by (induction owning node rule: is_borrowed_object_expr.induct)
     (subst is_borrowed_object_expr.simps, auto simp: owned_by_analysis_def receiver_class_name_def
        Let_def ebind_Inl_iff split: list.splits if_splits)

subsection \<open>The interface of a property of emission\<close>

text \<open>The proper descendants of a node, and a pair of handlers related on them.\<close>

definition beneath :: "json \<Rightarrow> json \<Rightarrow> bool" where
  "beneath c node \<longleftrightarrow> (\<exists>p \<in> set (jinner node). c \<in> set (nodes p))"

definition below :: "('e \<Rightarrow> 'e \<Rightarrow> bool) \<Rightarrow> (json \<Rightarrow> 'e) \<Rightarrow> (json \<Rightarrow> 'e) \<Rightarrow> json \<Rightarrow> bool" where
  "below R h h' node \<longleftrightarrow> (\<forall>c. beneath c node \<longrightarrow> R (h c) (h' c))"

lemma nodes_beneath: "c \<in> set (nodes node) \<longleftrightarrow> c = node \<or> beneath c node"
  by (auto simp: beneath_def set_nodes [of node])

lemma child_beneath: "c \<in> set (jinner node) \<Longrightarrow> beneath c node"
  unfolding beneath_def using self_in_nodes by blast

lemma beneath_trans: "beneath c p \<Longrightarrow> beneath p node \<Longrightarrow> beneath c node"
  unfolding beneath_def using nodes_trans nodes_beneath beneath_def by meson

lemma beneath_size: "beneath c node \<Longrightarrow> size c < size node"
  unfolding beneath_def using size_nodes size_jinner by (meson le_less_trans)

lemma below_child: "below R h h' node \<Longrightarrow> c \<in> set (jinner node) \<Longrightarrow> R (h c) (h' c)"
  by (simp add: below_def child_beneath)

lemma below_at: "below R h h' node \<Longrightarrow> c \<in> set (jinner node) \<Longrightarrow> below R h h' c"
  using beneath_trans [of _ c node] child_beneath [of c node] by (auto simp: below_def)

lemma below_grandchild:
  "below R h h' node \<Longrightarrow> p \<in> set (jinner node) \<Longrightarrow> c \<in> set (jinner p) \<Longrightarrow> R (h c) (h' c)"
  by (rule below_child [OF below_at])

lemma find_in_set: "find P xs = Some x \<Longrightarrow> x \<in> set xs"
  by (auto simp: find_Some_iff)

text \<open>
  \<open>E\<close> is the relation for expressions, the weaker \<open>S\<close> the one for statements. A macro is
  emitted with patches for the Objective-C nodes of its expansion.
\<close>

locale emission =
  expr: emitter_rel E strict + stmt: emitter_rel S strict
  for E S :: "emitter \<Rightarrow> emitter \<Rightarrow> bool" and strict :: bool +
  assumes weaken: "E a a' \<Longrightarrow> S a a'"
    and updates: "quiet f \<Longrightarrow> E (upd f) (upd f)"
    and tracks: "S (upd (track name t)) (upd (track name t))"
    and strings: "E (emit_string_literal node) (emit_string_literal node)"
    and blocks: "S a a' \<Longrightarrow> E (in_block_context a) (in_block_context a')"
    and frames: "S a a' \<Longrightarrow> E (in_frame fr a) (in_frame fr a')"
    and loops: "S a a' \<Longrightarrow> S (in_loop a) (in_loop a')"
    and macros: "(\<And>c. c \<in> set (nodes node) \<Longrightarrow> patch_range c \<noteq> None \<Longrightarrow> E (ex c) (ex' c))
                 \<Longrightarrow> E (patched_macro ex off text node) (patched_macro ex' off text node)"
begin

lemmas child = below_child [where R = E] and grandchild = below_grandchild [where R = E]

lemmas block_child = below_grandchild [where R = S]

lemma logs:
  "E (log_error msg) (log_error msg)" "E (log_diag msg) (log_diag msg)" "E (add_pre p) (add_pre p)"
  "E (flush_pre_stmts indent) (flush_pre_stmts indent)"
  unfolding log_error_def log_diag_def add_pre_def flush_pre_stmts_def
  by (intro expr.rules updates quiet_updates)+

lemma temps: "(\<And>n. E (k n) (k' n)) \<Longrightarrow> E (next_tmp k) (next_tmp k')"
  unfolding next_tmp_def by (intro expr.rules updates quiet_updates)

lemma temps_stmt: "(\<And>n. S (k n) (k' n)) \<Longrightarrow> S (next_tmp k) (next_tmp k')"
  unfolding next_tmp_def by (intro stmt.rules weaken [OF updates] quiet_updates)

lemmas steps = expr.rules logs temps strings blocks frames updates quiet_updates
lemmas stmt_steps = stmt.rules weaken [OF logs(1)] weaken [OF logs(2)] weaken [OF logs(3)]
  weaken [OF logs(4)] temps_stmt tracks loops weaken [OF frames] weaken [OF updates] quiet_updates

subsection \<open>Expressions\<close>

lemma first_child: "below E ex ex' node \<Longrightarrow> E (emit_first ex node) (emit_first ex' node)"
  unfolding emit_first_def Let_def
  by (intro steps) (auto intro: child)

lemma boxed_numbers:
  "below E ex ex' node \<Longrightarrow> E (emit_boxed_number ex node) (emit_boxed_number ex' node)"
  unfolding emit_boxed_number_def Let_def
   by (intro steps expr.lifts boxed_leaf_ends) (auto intro: child)

lemma array_literals:
  "below E ex ex' node \<Longrightarrow> E (emit_array_literal ex e node) (emit_array_literal ex' e node)"
  unfolding emit_array_literal_def Let_def
  by (intro steps) (auto intro: child)

lemma dict_literals:
  "below E ex ex' node \<Longrightarrow> E (emit_dict_literal ex e node) (emit_dict_literal ex' e node)"
  unfolding emit_dict_literal_def Let_def
  by (intro steps) (auto intro: child)

lemma block_functions:
  assumes "\<And>b. b \<in> set inner \<Longrightarrow> S (body b) (body' b)"
  shows "E (emit_block_function body inner r n) (emit_block_function body' inner r n)"
  unfolding emit_block_function_def Let_def
   by (intro steps assms) (auto dest: find_in_set)

lemma block_exprs:
  "below S body body' node \<Longrightarrow> E (emit_block_expr body node) (emit_block_expr body' node)"
  unfolding emit_block_expr_def Let_def
  by (intro steps block_functions) (auto intro: block_child)

lemma args: "below E ex ex' node \<Longrightarrow> set xs \<subseteq> set (jinner node)
   \<Longrightarrow> E (emit_args ex xs) (emit_args ex' xs)"
  unfolding emit_args_def Let_def
  by (intro steps) (auto intro: child)

lemma super_sends:
  "below E ex ex' node \<Longrightarrow> E (emit_super_send ex e node) (emit_super_send ex' e node)"
  unfolding emit_super_send_def Let_def
  by (intro steps args) auto

lemma class_sends:
  "below E ex ex' node \<Longrightarrow> E (emit_class_send ex e node) (emit_class_send ex' e node)"
  unfolding emit_class_send_def Let_def
  by (intro steps args) (auto intro: child)

lemma inline_sends:
  "below E ex ex' node \<Longrightarrow> r \<in> set (jinner node) \<Longrightarrow> set xs \<subseteq> set (jinner node)
   \<Longrightarrow> E (emit_inline_send ex node acc r xs) (emit_inline_send ex' node acc r xs)"
  unfolding emit_inline_send_def Let_def
  by (intro steps args child) 

lemma direct_calls:
  "below E ex ex' node \<Longrightarrow> (\<And>r. recv = Some r \<Longrightarrow> r \<in> set (jinner node))
   \<Longrightarrow> set xs \<subseteq> set (jinner node)
   \<Longrightarrow> E (emit_direct_call ex d c sel recv xs) (emit_direct_call ex' d c sel recv xs)"
  unfolding emit_direct_call_def by (intro steps args child) auto

lemma vtable_sends:
  "below E ex ex' node \<Longrightarrow> (\<And>r. recv = Some r \<Longrightarrow> r \<in> set (jinner node))
   \<Longrightarrow> set xs \<subseteq> set (jinner node)
   \<Longrightarrow> E (emit_vtable_send ex e node sel recv xs) (emit_vtable_send ex' e node sel recv xs)"
  unfolding emit_vtable_send_def Let_def by (intro steps args child) auto

lemma protocol_sends:
  "below E ex ex' node \<Longrightarrow> (\<And>r. recv = Some r \<Longrightarrow> r \<in> set (jinner node))
   \<Longrightarrow> set xs \<subseteq> set (jinner node) \<Longrightarrow> (strict \<Longrightarrow> acyclic_module (ee_module e))
   \<Longrightarrow> E (emit_protocol_send ex e node sel recv xs) (emit_protocol_send ex' e node sel recv xs)"
  unfolding emit_protocol_send_def Let_def
  by (intro steps expr.lifts direct_calls [of ex ex' node] vtable_sends lookups_end) auto

lemma static_sends:
  "below E ex ex' node \<Longrightarrow> (\<And>r. recv = Some r \<Longrightarrow> r \<in> set (jinner node))
   \<Longrightarrow> set xs \<subseteq> set (jinner node) \<Longrightarrow> (strict \<Longrightarrow> acyclic_module (ee_module e))
   \<Longrightarrow> E (emit_static_send ex e sel recv xs) (emit_static_send ex' e sel recv xs)"
  unfolding emit_static_send_def Let_def
  by (intro steps expr.lifts direct_calls [of ex ex' node] lookups_end) auto

lemma msg_args: "set (collect_msg_args xs) \<subseteq> set xs"
  using set_drop_subset [of 1 xs] by (simp add: collect_msg_args_def)

lemma instance_sends:
  "below E ex ex' node \<Longrightarrow> (strict \<Longrightarrow> acyclic_module (ee_module e))
   \<Longrightarrow> E (emit_instance_send ex e node) (emit_instance_send ex' e node)"
  unfolding emit_instance_send_def Let_def
  by (intro steps inline_sends protocol_sends static_sends msg_args)
     (auto dest: subsetD [OF msg_args] split: list.splits if_splits)

lemma release_notes: "E (note_release sel inner) (note_release sel inner)"
  unfolding note_release_def by (intro steps expr.lifts released_var_ends)

lemma messages:
  "below E ex ex' node \<Longrightarrow> (strict \<Longrightarrow> acyclic_module (ee_module e))
   \<Longrightarrow> E (emit_msg_expr ex e node) (emit_msg_expr ex' e node)"
  unfolding emit_msg_expr_def Let_def
  by (intro steps release_notes super_sends class_sends instance_sends)

lemma self_ivars:
  "(strict \<Longrightarrow> acyclic_module (ee_module e)) \<Longrightarrow> E (emit_self_ivar e iv) (emit_self_ivar e iv)"
  unfolding emit_self_ivar_def by (intro steps expr.lifts lookups_end)

lemma ivar_access_ends:
  "acyclic_module (ee_module e) \<Longrightarrow> ivar_accessible e iv \<noteq> Inl Diverges"
  using lookups_end(3) by (fastforce simp: ivar_accessible_def Let_def ebind_Inl_iff split: option.splits)

lemma ivar_refs:
  "below E ex ex' node \<Longrightarrow> (strict \<Longrightarrow> acyclic_module (ee_module e))
   \<Longrightarrow> E (emit_ivar_ref ex e node) (emit_ivar_ref ex' e node)"
  unfolding emit_ivar_ref_def Let_def
  by (intro steps expr.lifts self_ivars ivar_base_ends ivar_access_ends) (auto intro: child)

lemma small_exprs:
  "E (emit_recovery node) (emit_recovery node)"
  "below E ex ex' node \<Longrightarrow> E (emit_implicit_cast ex node) (emit_implicit_cast ex' node)"
  "below E ex ex' node \<Longrightarrow> E (emit_explicit_cast ex node) (emit_explicit_cast ex' node)"
  "below E ex ex' node \<Longrightarrow> E (emit_binary ex node) (emit_binary ex' node)"
  "below E ex ex' node \<Longrightarrow> E (emit_unary ex node) (emit_unary ex' node)"
  "below E ex ex' node \<Longrightarrow> E (emit_conditional ex node) (emit_conditional ex' node)"
  "below E ex ex' node \<Longrightarrow> E (emit_call ex node) (emit_call ex' node)"
  "below E ex ex' node \<Longrightarrow> E (emit_sizeof ex node) (emit_sizeof ex' node)"
  unfolding emit_recovery_def emit_implicit_cast_def emit_explicit_cast_def emit_binary_def
    emit_unary_def emit_conditional_def emit_call_def emit_sizeof_def Let_def
  by (intro steps first_child; auto intro: child)+

lemma pseudo_objects:
  "below E ex ex' node \<Longrightarrow> E (emit_pseudo ex node) (emit_pseudo ex' node)"
  unfolding emit_pseudo_def by (intro steps) (auto intro!: child dest!: find_in_set)

lemma expr_kinds:
  assumes "below E ex ex' node" and "below S body body' node"
    and "strict \<Longrightarrow> acyclic_module (ee_module e)"
  shows "E (emit_expr_kind ex body e node) (emit_expr_kind ex' body' e node)"
  unfolding emit_expr_kind_def Let_def
  by (intro steps first_child block_exprs messages ivar_refs small_exprs pseudo_objects
        boxed_numbers array_literals dict_literals assms child [OF assms(1)]) auto

lemma macro_nodes:
  assumes "below E ex ex' node" and "patch_range node \<noteq> None \<Longrightarrow> E (ex node) (ex' node)"
  shows "E (patched_macro ex off text node) (patched_macro ex' off text node)"
proof (rule macros)
  fix c assume "c \<in> set (nodes node)" "patch_range c \<noteq> None"
  then show "E (ex c) (ex' c)"
    using assms by (cases "c = node") (auto simp: below_def nodes_beneath)
qed

lemma expr_step:
  assumes "below E ex ex' node" and "below S body body' node"
    and "strict \<Longrightarrow> acyclic_module (ee_module e)"
    and "expr_macro e node \<noteq> None \<Longrightarrow> patch_range node \<noteq> None \<Longrightarrow> E (ex node) (ex' node)"
  shows "E (emit_expr_step ex body e node) (emit_expr_step ex' body' e node)"
  unfolding emit_expr_step_def
  by (intro steps small_exprs expr_kinds macro_nodes assms) auto

subsection \<open>Statements\<close>

abbreviation (input) below_stmt :: "stmt_emitter \<Rightarrow> stmt_emitter \<Rightarrow> json \<Rightarrow> bool" where
  "below_stmt \<equiv> below (\<lambda>f g. \<forall>i. S (f i) (g i))"

lemma stmt_child: "below_stmt st st' node \<Longrightarrow> c \<in> set (jinner node) \<Longrightarrow> S (st c i) (st' c i)"
  using below_child [where R = "\<lambda>f g. \<forall>i. S (f i) (g i)"] by blast

lemma stmt_grandchild:
  "below_stmt st st' node \<Longrightarrow> p \<in> set (jinner node) \<Longrightarrow> c \<in> set (jinner p) \<Longrightarrow> S (st c i) (st' c i)"
  using below_grandchild [where R = "\<lambda>f g. \<forall>i. S (f i) (g i)"] by blast

lemmas part = weaken [OF child]

lemma scope_releases:
  "E (emit_scope_releases e indent) (emit_scope_releases e indent)"
  "E (emit_break_continue_releases e indent) (emit_break_continue_releases e indent)"
  "E (return_releases e indent inner) (return_releases e indent inner)"
  unfolding emit_scope_releases_def emit_break_continue_releases_def return_releases_def Let_def
  by (intro steps)+

lemma scoped:
  "S entry entry' \<Longrightarrow> (\<And>c. c \<in> set cs \<Longrightarrow> S (st c indent) (st' c indent))
   \<Longrightarrow> E (emit_scoped st e entry cs returns indent) (emit_scoped st' e entry' cs returns indent)"
  unfolding emit_scoped_def
  by (intro frames stmt_steps weaken [OF scope_releases(1)]) auto

lemma params_retained: "S (retain_params e indent ps) (retain_params e indent ps)"
  unfolding retain_params_def by (intro stmt_steps)

lemma compounds:
  "below_stmt st st' node
   \<Longrightarrow> E (emit_compound_stmt st e indent inline ps node) (emit_compound_stmt st' e indent inline ps node)"
  unfolding emit_compound_stmt_def by (intro steps scoped params_retained stmt_child)

lemma braced:
  "below_stmt st st' node \<Longrightarrow> body \<in> set (jinner node)
   \<Longrightarrow> S (emit_braced st e indent body) (emit_braced st' e indent body)"
  unfolding emit_braced_def
  by (intro stmt_steps weaken [OF compounds]) (auto intro: below_at stmt_child)

lemma synchronized:
  "below E ex ex' node \<Longrightarrow> below_stmt st st' node
   \<Longrightarrow> S (emit_synchronized_stmt ex st e indent node) (emit_synchronized_stmt ex' st' e indent node)"
  unfolding emit_synchronized_stmt_def Let_def
  by (intro stmt_steps weaken [OF scoped]) (auto intro: part stmt_grandchild)

lemma var_decls:
  "below E ex ex' node \<Longrightarrow> S (emit_var_decl ex e indent node) (emit_var_decl ex' e indent node)"
  unfolding emit_var_decl_def Let_def
  by (intro stmt_steps stmt.lifts borrowed_ends part) (auto dest: find_in_set)

lemma local_assigns:
  "E (ex (inner ! 1)) (ex' (inner ! 1))
   \<Longrightarrow> S (emit_strong_local_assign ex e indent inner) (emit_strong_local_assign ex' e indent inner)"
  unfolding emit_strong_local_assign_def Let_def by (intro stmt_steps weaken)

lemma ivar_assigns:
  "E (ex (inner ! 1)) (ex' (inner ! 1))
   \<Longrightarrow> S (emit_strong_ivar_assign ex e indent inner) (emit_strong_ivar_assign ex' e indent inner)"
  unfolding emit_strong_ivar_assign_def Let_def by (intro stmt_steps) (auto intro: weaken)

lemma expr_stmts:
  "E (ex node) (ex' node) \<Longrightarrow> S (emit_expr_stmt ex indent node) (emit_expr_stmt ex' indent node)"
  unfolding emit_expr_stmt_def by (intro stmt_steps) (auto intro: weaken)

lemma assigns:
  "below E ex ex' node \<Longrightarrow> E (ex node) (ex' node)
   \<Longrightarrow> S (emit_assign_stmt ex e indent node) (emit_assign_stmt ex' e indent node)"
  unfolding emit_assign_stmt_def Let_def
  by (intro stmt_steps local_assigns ivar_assigns expr_stmts) (auto intro!: child nth_mem)

lemma returned_at: "returned_expr r \<in> set (nodes r)"
proof -
  have first: "jinner x = c # cs \<Longrightarrow> x \<in> set (nodes r) \<Longrightarrow> c \<in> set (nodes r)" for x c cs
    using nodes_trans [of c x r] by (simp add: nodes_beneath child_beneath)
  have "drop_cleanups r \<in> set (nodes r)"
    unfolding drop_cleanups_def by (auto split: list.splits intro: first)
  then show ?thesis unfolding returned_expr_def Let_def by (auto split: list.splits intro: first)
qed

lemma returns:
  "below E ex ex' node \<Longrightarrow> S (emit_return_stmt ex e indent node) (emit_return_stmt ex' e indent node)"
  unfolding emit_return_stmt_def
  by (intro stmt_steps weaken [OF scope_releases(3)] weaken)
     (use returned_at in \<open>fastforce simp: below_def beneath_def\<close>)+

lemma ifs:
  "below E ex ex' node \<Longrightarrow> below_stmt st st' node \<Longrightarrow> below_stmt fs fs' node
   \<Longrightarrow> S (emit_if_stmt ex st fs e indent node) (emit_if_stmt ex' st' fs' e indent node)"
  unfolding emit_if_stmt_def
  by (intro stmt_steps braced) (auto intro: part stmt_child)

lemma switches:
  "below E ex ex' node \<Longrightarrow> below_stmt st st' node
   \<Longrightarrow> S (emit_switch_stmt ex st indent node) (emit_switch_stmt ex' st' indent node)"
  unfolding emit_switch_stmt_def
  by (intro stmt_steps) (auto intro: part stmt_child stmt_grandchild)

lemma case_labels:
  "below E ex ex' node \<Longrightarrow> below_stmt st st' node
   \<Longrightarrow> S (emit_case_stmt ex st indent node) (emit_case_stmt ex' st' indent node)"
  unfolding emit_case_stmt_def by (intro stmt_steps) (auto intro: part stmt_child)

lemma whiles:
  "below E ex ex' node \<Longrightarrow> below_stmt st st' node
   \<Longrightarrow> S (emit_while_stmt ex st e indent node) (emit_while_stmt ex' st' e indent node)"
  unfolding emit_while_stmt_def by (intro stmt_steps braced) (auto intro: part)

lemma dos:
  "below E ex ex' node \<Longrightarrow> below_stmt st st' node
   \<Longrightarrow> S (emit_do_stmt ex st e indent node) (emit_do_stmt ex' st' e indent node)"
  unfolding emit_do_stmt_def by (intro stmt_steps braced) (auto intro: part)

lemma for_inits:
  "below E ex ex' node \<Longrightarrow> c \<in> set (jinner node)
   \<Longrightarrow> E (emit_for_init ex c) (emit_for_init ex' c)"
proof -
  assume node: "below E ex ex' node" "c \<in> set (jinner node)"
  note c = below_at [OF node]
  show ?thesis
    unfolding emit_for_init_def
    by (intro steps) (use node c in \<open>auto intro: child grandchild dest: find_in_set\<close>)
qed

lemma for_clauses:
  "below E ex ex' node \<Longrightarrow> E (emit_for_clause ex (jinner node) i) (emit_for_clause ex' (jinner node) i)"
  unfolding emit_for_clause_def by (intro steps) (auto intro: child)

lemma fors:
  "below E ex ex' node \<Longrightarrow> below_stmt st st' node
   \<Longrightarrow> S (emit_for_stmt ex st e indent node) (emit_for_stmt ex' st' e indent node)"
  unfolding emit_for_stmt_def Let_def
  by (intro stmt_steps weaken [OF for_inits] weaken [OF for_clauses] braced)
     (auto intro!: nth_mem hd_in_set simp: not_less)

lemma forins:
  "below E ex ex' node \<Longrightarrow> below_stmt st st' node
   \<Longrightarrow> S (emit_forin_stmt ex st e indent node) (emit_forin_stmt ex' st' e indent node)"
  unfolding emit_forin_stmt_def Let_def
  by (intro stmt_steps stmt.lifts first_inner_ends braced) (auto intro: part)

lemma stmt_kinds:
  assumes "below E ex ex' node" and "E (ex node) (ex' node)"
    and "below_stmt st st' node" and "below_stmt fs fs' node"
  shows "S (emit_stmt_kind ex st fs e indent node) (emit_stmt_kind ex' st' fs' e indent node)"
  unfolding emit_stmt_kind_def Let_def
  by (intro stmt_steps weaken [OF compounds] weaken [OF scope_releases(2)] returns ifs switches
        case_labels whiles dos fors forins synchronized assigns expr_stmts assms
        var_decls [OF below_at [OF assms(1)]] stmt_child [OF assms(3)] below_at [OF assms(3)]) auto

lemma stmt_step:
  assumes "below E ex ex' node" and "E (ex node) (ex' node)"
    and "below_stmt st st' node" and "below_stmt fs fs' node"
  shows "S (emit_stmt_step ex st fs e indent node) (emit_stmt_step ex' st' fs' e indent node)"
  unfolding emit_stmt_step_def
  by (intro stmt_steps stmt_kinds weaken [OF macro_nodes] assms)

subsection \<open>One more unit of fuel\<close>

lemma fuel_expr:
  assumes "\<And>c. beneath c node \<Longrightarrow> E (emit_expr n e c) (emit_expr n' e c)"
    and "\<And>c i. beneath c node \<Longrightarrow> S (emit_stmt n e c i) (emit_stmt n' e c i)"
    and "strict \<Longrightarrow> acyclic_module (ee_module e)"
    and "expr_macro e node \<noteq> None \<Longrightarrow> patch_range node \<noteq> None \<Longrightarrow> E (emit_expr n e node) (emit_expr n' e node)"
  shows "E (emit_expr (Suc n) e node) (emit_expr (Suc n') e node)"
proof -
  have "below S (emit_compound_stmt (\<lambda>c i. emit_stmt n e c i) e 0 False [])
          (emit_compound_stmt (\<lambda>c i. emit_stmt n' e c i) e 0 False []) node"
    unfolding below_def
  proof (intro allI impI weaken [OF compounds])
    fix b :: json assume "beneath b node"
    then show "below_stmt (\<lambda>c i. emit_stmt n e c i) (\<lambda>c i. emit_stmt n' e c i) b"
      using assms(2) beneath_trans [of _ b node] by (auto simp: below_def)
  qed
  moreover have "below E (emit_expr n e) (emit_expr n' e) node"
    using assms(1) by (simp add: below_def)
  ultimately show ?thesis
    unfolding emit_expr.simps using assms(3,4) by (intro expr_step) auto
qed

lemma fuel_stmt:
  assumes "\<And>c. c \<in> set (nodes node) \<Longrightarrow> E (emit_expr n e c) (emit_expr n' e c)"
    and "\<And>c i. beneath c node \<Longrightarrow> S (emit_stmt n e c i) (emit_stmt n' e c i)"
    and "\<And>c i. beneath c node \<Longrightarrow> S (emit_if n e c i) (emit_if n' e c i)"
  shows "S (emit_stmt (Suc n) e node indent) (emit_stmt (Suc n') e node indent)"
    and "S (emit_if (Suc n) e node indent) (emit_if (Suc n') e node indent)"
proof -
  have "below E (emit_expr n e) (emit_expr n' e) node"
    "below_stmt (emit_stmt n e) (emit_stmt n' e) node" "below_stmt (emit_if n e) (emit_if n' e) node"
    using assms(1-3) by (auto simp: below_def nodes_beneath)
  then show "S (emit_stmt (Suc n) e node indent) (emit_stmt (Suc n') e node indent)"
    and "S (emit_if (Suc n) e node indent) (emit_if (Suc n') e node indent)"
    using assms(1) [of node]
    unfolding emit_stmt.simps emit_if.simps by (intro stmt_step ifs; simp)+
qed

lemma body_related:
  "(\<And>c i. beneath c body \<Longrightarrow> S (emit_stmt n e c i) (emit_stmt n' e c i))
   \<Longrightarrow> E (emit_body n e ps body) (emit_body n' e ps body)"
  unfolding emit_body_def by (rule compounds) (simp add: below_def)

end

end
