(* ===== verification/Emit_Facts.thy ===== *)
theory Emit_Facts
  imports Emit_Logic
begin

text \<open>
  The three uses of the emission interface: bodies are emitted with \<open>body_fuel\<close>, more fuel
  changes nothing, and emission keeps the scopes, the loops, the logs and the table of
  string constants in order.
\<close>

subsection \<open>Emission ends\<close>

definition ends :: "emitter \<Rightarrow> bool" where
  "ends a \<longleftrightarrow> (\<forall>s. a s \<noteq> Inl Diverges)"

lemma ends_eseq: "(\<And>a. a \<in> set as \<Longrightarrow> ends a) \<Longrightarrow> ends (eseq as)"
  by (induction as) (fastforce simp: ends_def ebind_Inl_iff)+

interpretation ends_rel: emitter_rel "\<lambda>a _. ends a" True
  by unfold_locales (auto simp: ends_def emit_defs ebind_Inl_iff)

lemma ends_upd: "ends (upd f)"
  by (simp add: ends_def emit_defs)

lemma string_literal_ends: "ends (emit_string_literal node)"
  unfolding emit_string_literal_def Let_def log_diag_def declare_string_def
  by (intro ends_rel.rules ends_upd)

lemma patches_end:
  assumes "\<And>c. c \<in> set (nodes node) \<Longrightarrow> patch_range c \<noteq> None \<Longrightarrow> ends (ex c)"
  shows "collect_objc_patches ex start node acc \<noteq> Inl Diverges"
  using assms
proof (induction node arbitrary: acc rule: measure_induct_rule [where f = size])
  case (less node)
  have "efold (collect_objc_patches ex start) (jinner node) acc \<noteq> Inl Diverges" for acc
    using less.IH less.prems size_jinner by (fastforce dest!: efold_Inl simp: set_nodes [of node])
  moreover have "patch_range node \<noteq> None \<Longrightarrow> ex node s \<noteq> Inl Diverges" for s
    using less.prems [of node] by (simp add: ends_def)
  ultimately show ?case
    by (subst collect_objc_patches.simps) (auto simp: ebind_Inl_iff split: option.splits)
qed

lemma macro_ends:
  "(\<And>c. c \<in> set (nodes node) \<Longrightarrow> patch_range c \<noteq> None \<Longrightarrow> ends (ex c))
   \<Longrightarrow> ends (patched_macro ex off text node)"
  using patches_end [of node ex] by (auto simp: ends_def patched_macro_def ebind_Inl_iff)

interpretation ending: emission "\<lambda>a _. ends a" "\<lambda>a _. ends a" True
proof
  show "ends (emit_string_literal node)" for node by (rule string_literal_ends)
  show "ends a \<Longrightarrow> ends (in_block_context a)" for a
    by (auto simp: ends_def in_block_context_def ebind_Inl_iff)
  show "ends a \<Longrightarrow> ends (in_frame fr a)" for fr a
    unfolding in_frame_def by (rule ends_eseq) (auto simp: ends_def emit_defs)
  show "ends a \<Longrightarrow> ends (in_loop a)" for a
    unfolding in_loop_def by (rule ends_eseq) (auto simp: ends_def emit_defs)
qed (auto intro: macro_ends ends_upd)

text \<open>
  A macro that is itself an Objective-C node makes emission call itself on the same node
  (\<open>objc_macro_loops\<close> below). Without a source there is no macro passthrough at all.
\<close>

definition looping :: "emit_env \<Rightarrow> json \<Rightarrow> bool" where
  "looping e node \<longleftrightarrow> expr_macro e node \<noteq> None \<and> patch_range node \<noteq> None"

definition macro_safe :: "emit_env \<Rightarrow> json \<Rightarrow> bool" where
  "macro_safe e node \<longleftrightarrow> list_all (\<lambda>c. \<not> looping e c) (nodes node)"

lemma macro_safe_beneath: "macro_safe e node \<Longrightarrow> beneath c node \<Longrightarrow> macro_safe e c"
  using nodes_trans nodes_beneath unfolding macro_safe_def list_all_iff by metis

lemma macro_safe_nodes: "macro_safe e node \<Longrightarrow> c \<in> set (nodes node) \<Longrightarrow> macro_safe e c"
  using macro_safe_beneath by (auto simp: nodes_beneath)

lemma macro_safe_self: "macro_safe e node \<Longrightarrow> \<not> looping e node"
  by (simp add: macro_safe_def list_all_iff)

lemma no_source_safe: "ee_source e = None \<Longrightarrow> macro_safe e node"
  by (auto simp: macro_safe_def list_all_iff looping_def expr_macro_def)

lemma emission_ends:
  assumes "acyclic_module (ee_module e)"
  shows "macro_safe e node \<Longrightarrow>
         (2 * size node < n \<longrightarrow> ends (emit_expr n e node))
         \<and> (2 * size node + 1 < n \<longrightarrow> (\<forall>i. ends (emit_stmt n e node i) \<and> ends (emit_if n e node i)))"
proof (induction n arbitrary: node)
  case (Suc n)
  have expr: "ends (emit_expr n e c)" if "macro_safe e c" "2 * size c < n" for c
    using Suc.IH that by blast
  have stmts: "ends (emit_stmt n e c i)" "ends (emit_if n e c i)"
    if "macro_safe e c" "2 * size c + 1 < n" for c i
    using Suc.IH that by blast+
  note safe = macro_safe_beneath [OF Suc.prems] macro_safe_nodes [OF Suc.prems]
  show ?case
  proof (intro conjI impI allI)
    assume n: "2 * size node < Suc n"
    show "ends (emit_expr (Suc n) e node)"
    proof (rule ending.fuel_expr)
      show "ends (emit_expr n e node)" if "expr_macro e node \<noteq> None" "patch_range node \<noteq> None"
        using that macro_safe_self [OF Suc.prems] by (simp add: looping_def)
    qed (use n assms in \<open>auto intro!: expr stmts safe(1) dest: beneath_size\<close>)
  next
    fix i assume n: "2 * size node + 1 < Suc n"
    have "ends (emit_expr n e c)" if "c \<in> set (nodes node)" for c
      using n size_nodes [OF that] by (intro expr safe(2) that) simp
    moreover have "ends (emit_stmt n e c j)" "ends (emit_if n e c j)" if "beneath c node" for c j
      using n beneath_size [OF that] by (intro stmts safe(1) that, simp)+
    ultimately show "ends (emit_stmt (Suc n) e node i)" "ends (emit_if (Suc n) e node i)"
      by (intro ending.fuel_stmt; blast)+
  qed
qed simp

lemma body_ends:
  assumes "acyclic_module (ee_module e)" and "macro_safe e body" and "2 * size body \<le> n"
  shows "ends (emit_body n e ps body)"
proof (rule ending.body_related)
  fix c i assume "beneath c body"
  with assms emission_ends [OF assms(1), of c n] macro_safe_beneath [OF assms(2)] beneath_size [of c body]
  show "ends (emit_stmt n e c i)" by simp
qed

subsection \<open>More fuel changes nothing\<close>

definition refines :: "emitter \<Rightarrow> emitter \<Rightarrow> bool" where
  "refines a b \<longleftrightarrow> (\<forall>s. a s \<noteq> Inl Diverges \<longrightarrow> b s = a s)"

lemma refinesD: "refines a b \<Longrightarrow> a s \<noteq> Inl Diverges \<Longrightarrow> b s = a s"
  by (simp add: refines_def)

lemma refines_refl: "refines a a"
  by (simp add: refines_def)

interpretation refines_rel: emitter_rel refines False
proof
  fix a a' :: emitter and h h' :: "string \<Rightarrow> emitter"
  assume a: "refines a a'" and h: "\<And>t. refines (h t) (h' t)"
  have "buffered a' h' s = buffered a h s" if run: "buffered a h s \<noteq> Inl Diverges" for s
  proof (cases "a s")
    case (Inl exn)
    with run refinesD [OF a, of s] show ?thesis by (simp add: emit_defs)
  next
    case (Inr ts)
    with run refinesD [OF a, of s] refinesD [OF h, of "fst ts" "snd ts"] show ?thesis
      by (simp add: emit_defs case_prod_unfold)
  qed
  then show "refines (buffered a h) (buffered a' h')" by (simp add: refines_def)
qed (auto simp: refines_def emit_defs)

lemma efold_refines:
  assumes "\<And>x u. x \<in> set xs \<Longrightarrow> f x u \<noteq> Inl Diverges \<Longrightarrow> g x u = f x u"
  shows "efold f xs u \<noteq> Inl Diverges \<Longrightarrow> efold g xs u = efold f xs u"
  using assms
proof (induction xs arbitrary: u)
  case (Cons x xs)
  show ?case
  proof (cases "f x u")
    case (Inl exn)
    with Cons.prems show ?thesis by simp
  next
    case (Inr v)
    then have "g x u = Inr v" using Cons.prems(2) [of x u] by simp
    with Inr Cons show ?thesis by simp
  qed
qed simp

lemma refines_patches:
  assumes "\<And>c. c \<in> set (nodes node) \<Longrightarrow> patch_range c \<noteq> None \<Longrightarrow> refines (ex c) (ex' c)"
  shows "collect_objc_patches ex start node acc \<noteq> Inl Diverges \<Longrightarrow>
         collect_objc_patches ex' start node acc = collect_objc_patches ex start node acc"
  using assms
proof (induction node arbitrary: acc rule: measure_induct_rule [where f = size])
  case (less node)
  have kids: "efold (collect_objc_patches ex start) (jinner node) acc \<noteq> Inl Diverges \<Longrightarrow>
      efold (collect_objc_patches ex' start) (jinner node) acc
      = efold (collect_objc_patches ex start) (jinner node) acc"
  proof (rule efold_refines)
    fix c u assume c: "c \<in> set (jinner node)" "collect_objc_patches ex start c u \<noteq> Inl Diverges"
    show "collect_objc_patches ex' start c u = collect_objc_patches ex start c u"
      by (rule less.IH [OF size_jinner [OF c(1)] c(2)])
         (rule less.prems(2), use c(1) in \<open>auto simp: set_nodes [of node]\<close>)
  qed
  show ?case
  proof (cases "\<exists>key. patch_range node = Some key \<and> key \<notin> set (fst (fst acc))")
    case True
    then obtain key where key: "patch_range node = Some key" "key \<notin> set (fst (fst acc))" by blast
    then have "ex node (snd acc) \<noteq> Inl Diverges \<Longrightarrow> ex' node (snd acc) = ex node (snd acc)"
      by (intro refinesD less.prems) auto
    then show ?thesis
      using less.prems(1) unfolding collect_objc_patches.simps [of _ _ node] key(1)
      by (cases "ex node (snd acc)") (simp_all add: key(2))
  next
    case False
    then have "collect_objc_patches h start node acc = efold (collect_objc_patches h start) (jinner node) acc"
      for h by (subst collect_objc_patches.simps) (auto split: option.splits)
    with less.prems kids show ?thesis by simp
  qed
qed

lemma refines_block: "refines a b \<Longrightarrow> refines (in_block_context a) (in_block_context b)"
  unfolding refines_def in_block_context_def
proof (intro allI impI)
  fix s
  assume "\<forall>s. a s \<noteq> Inl Diverges \<longrightarrow> b s = a s"
    and "ebind (a (block_state s)) (\<lambda>(t, b). Inr (t, after_block s b)) \<noteq> Inl Diverges"
  then have "b (block_state s) = a (block_state s)" by (cases "a (block_state s)") auto
  then show "ebind (b (block_state s)) (\<lambda>(t, b). Inr (t, after_block s b))
      = ebind (a (block_state s)) (\<lambda>(t, b). Inr (t, after_block s b))" by simp
qed

lemma refines_macro:
  assumes "\<And>c. c \<in> set (nodes node) \<Longrightarrow> patch_range c \<noteq> None \<Longrightarrow> refines (ex c) (ex' c)"
  shows "refines (patched_macro ex off text node) (patched_macro ex' off text node)"
  unfolding refines_def patched_macro_def
proof (intro allI impI)
  fix s
  let ?k = "\<lambda>((seen, patches), s'). Inr (fold apply_patch (rev (sort patches)) text, s')"
  assume "ebind (collect_objc_patches ex off node (([], []), s)) ?k \<noteq> Inl Diverges"
  then have "collect_objc_patches ex off node (([], []), s) \<noteq> Inl Diverges" by auto
  then show "ebind (collect_objc_patches ex' off node (([], []), s)) ?k
      = ebind (collect_objc_patches ex off node (([], []), s)) ?k"
    using refines_patches [of node ex ex', OF assms] by simp
qed

interpretation fueled: emission refines refines False
proof
  show "refines (emit_string_literal node) (emit_string_literal node)" for node by (rule refines_refl)
  show "refines a b \<Longrightarrow> refines (in_frame fr a) (in_frame fr b)" for fr a b
    unfolding in_frame_def by (intro refines_rel.seq_Cons refines_rel.seq_Nil refines_refl)
  show "refines a b \<Longrightarrow> refines (in_loop a) (in_loop b)" for a b
    unfolding in_loop_def by (intro refines_rel.seq_Cons refines_rel.seq_Nil refines_refl)
qed (auto intro: refines_refl refines_block refines_macro)

text \<open>
  A macro that is itself an Objective-C node is emitted again to patch its own text.
\<close>

lemma objc_macro_loops:
  assumes "expr_macro e node \<noteq> None" and "patch_range node \<noteq> None"
  shows "emit_expr n e node s = Inl Diverges"
proof (induction n arbitrary: s)
  case 0
  show ?case by (simp add: emit_expr.simps raise_def)
next
  case (Suc n)
  from assms obtain off mt key where macro: "expr_macro e node = Some (off, mt)"
    and key: "patch_range node = Some key" by (cases "expr_macro e node") auto
  have "jkind node \<noteq> ''RecoveryExpr''"
    using key by (auto simp: patch_range_def Let_def OBJC_NODE_KINDS_def split: if_splits)
  moreover have "patched_macro (emit_expr n e) off mt node s = Inl Diverges"
    by (simp add: patched_macro_def collect_objc_patches.simps [of _ _ node] key Suc.IH)
  ultimately show ?case by (simp add: emit_expr.simps emit_expr_step_def macro)
qed

text \<open>
  So \<open>body_fuel\<close> is enough for every body that can be emitted at all: all other calls go to
  smaller nodes.
\<close>

lemma fuel_enough:
  "(2 * size node < k \<longrightarrow> refines (emit_expr n e node) (emit_expr k e node))
   \<and> (2 * size node + 1 < k \<longrightarrow>
        (\<forall>i. refines (emit_stmt n e node i) (emit_stmt k e node i) \<and> refines (emit_if n e node i) (emit_if k e node i)))"
proof (induction n arbitrary: node k)
  case 0
  show ?case by (simp add: refines_def emit_expr.simps emit_stmt.simps emit_if.simps raise_def)
next
  case (Suc n)
  have expr: "refines (emit_expr n e c) (emit_expr j e c)" if "2 * size c < j" for c j
    using Suc.IH that by blast
  have stmts: "refines (emit_stmt n e c i) (emit_stmt j e c i)" "refines (emit_if n e c i) (emit_if j e c i)"
    if "2 * size c + 1 < j" for c i j using Suc.IH that by blast+
  have loops: "refines (emit_expr n e node) b" if "expr_macro e node \<noteq> None" "patch_range node \<noteq> None" for b
    using objc_macro_loops [OF that] by (simp add: refines_def)
  show ?case
  proof (intro conjI impI allI)
    assume "2 * size node < k"
    then obtain j where k: "k = Suc j" "2 * size node \<le> j" by (cases k) auto
    show "refines (emit_expr (Suc n) e node) (emit_expr k e node)"
      unfolding k(1)
      by (rule fueled.fuel_expr) (use k(2) in \<open>auto intro: expr loops intro!: stmts dest!: beneath_size\<close>)
  next
    fix i assume "2 * size node + 1 < k"
    then obtain j where k: "k = Suc j" "2 * size node < j" by (cases k) auto
    show "refines (emit_stmt (Suc n) e node i) (emit_stmt k e node i)"
      "refines (emit_if (Suc n) e node i) (emit_if k e node i)"
      unfolding k(1)
      by (rule fueled.fuel_stmt;
          use k(2) in \<open>auto intro!: expr stmts dest!: beneath_size size_nodes\<close>)+
  qed
qed

lemma body_fuel_enough:
  "2 * size body \<le> k \<Longrightarrow> refines (emit_body n e ps body) (emit_body k e ps body)"
  by (rule fueled.body_related) (use fuel_enough beneath_size in fastforce)

subsection \<open>What emission keeps of the state\<close>

definition relates :: "(emit_state \<Rightarrow> emit_state \<Rightarrow> bool) \<Rightarrow> emitter \<Rightarrow> bool" where
  "relates R a \<longleftrightarrow> (\<forall>s t s'. a s = Inr (t, s') \<longrightarrow> R s s')"

lemma relatesI: "(\<And>s t s'. a s = Inr (t, s') \<Longrightarrow> R s s') \<Longrightarrow> relates R a"
  by (auto simp: relates_def)

lemma relatesD: "relates R a \<Longrightarrow> a s = Inr (t, s') \<Longrightarrow> R s s'"
  by (auto simp: relates_def)

text \<open>Any preorder on states is kept by the combinators.\<close>

locale state_preorder =
  fixes R :: "emit_state \<Rightarrow> emit_state \<Rightarrow> bool"
  assumes R_refl: "R s s"
    and R_trans: "R s t \<Longrightarrow> R t u \<Longrightarrow> R s u"

sublocale state_preorder \<subseteq> rel: emitter_rel "\<lambda>a _. relates R a" False
  by unfold_locales
     (auto simp: relates_def emit_defs ebind_Inr_iff R_refl intro: R_trans, meson R_trans)

lemma adds_refl: "adds_to_scope s s"
  by (auto simp: adds_to_scope_def grows_refl intro!: exI [of _ "last (es_scope_vars s)"])

lemma adds_trans: "adds_to_scope s t \<Longrightarrow> adds_to_scope t u \<Longrightarrow> adds_to_scope s u"
  unfolding adds_to_scope_def using grows_trans by fastforce

interpretation exprs: state_preorder same_scopes
  by unfold_locales (auto simp: same_scopes_def grows_refl intro: grows_trans)

interpretation stmts: state_preorder adds_to_scope
  by unfold_locales (rule adds_refl, rule adds_trans)

lemma strings_relate: "relates same_scopes (emit_string_literal node)"
proof (rule relatesI)
  fix s t s'
  assume run: "emit_string_literal node s = Inr (t, s')"
  have "same_scopes s (u\<lparr>es_dedup := dput val name (es_dedup s), es_strings := es_strings s @ [string_constant name val]\<rparr>)"
    if "dget (es_dedup s) val = None" "u = s \<or> (\<exists>msg. u = s\<lparr>es_diags := es_diags s @ [msg]\<rparr>)" for val name u
  proof -
    have "val \<notin> set (dkeys (es_dedup s))" using that(1) unfolding in_dkeys_iff by simp
    then have "new_strings [(val, name)] s
        (u\<lparr>es_dedup := dput val name (es_dedup s), es_strings := es_strings s @ [string_constant name val]\<rparr>)"
      using dput_fresh [OF that(1), of name] by (auto simp: new_strings_def simp del: set_map)
    with that(2) show ?thesis unfolding same_scopes_def grows_def by auto
  qed
  with run show "same_scopes s s'"
    unfolding emit_string_literal_def Let_def emit_defs declare_string_def log_diag_def
    by (auto simp: exprs.R_refl emit_defs split: option.splits)
qed

lemma track_adds: "adds_to_scope s (track name t s)"
proof -
  have "grows s (track name t s)"
    using grows_refl [of s] by (simp add: grows_def new_strings_def track_def)
  then show ?thesis by (auto simp: adds_to_scope_def track_def simp del: set_map)
qed

lemma block_relates: "relates adds_to_scope a \<Longrightarrow> relates same_scopes (in_block_context a)"
proof (rule relatesI)
  fix s t s'
  assume a: "relates adds_to_scope a" and "in_block_context a s = Inr (t, s')"
  then obtain b where b: "a (block_state s) = Inr (t, b)" and s': "s' = after_block s b"
    by (auto simp: in_block_context_def ebind_Inr_iff)
  from relatesD [OF a b] have "grows (block_state s) b" by (simp add: adds_to_scope_def)
  then show "same_scopes s s'"
    by (simp add: s' same_scopes_def grows_def new_strings_def after_block_def block_state_def)
qed

lemma frame_relates: "relates adds_to_scope a \<Longrightarrow> relates same_scopes (in_frame fr a)"
proof (rule relatesI)
  fix s t s'
  assume a: "relates adds_to_scope a" and "in_frame fr a s = Inr (t, s')"
  then obtain u t' where u: "a (push_frame fr s) = Inr (t', u)" and s': "s' = pop_frame u"
    by (auto simp: in_frame_def emit_defs ebind_Inr_iff)
  from relatesD [OF a u] have "grows (push_frame fr s) u" and
    "\<exists>f. es_scope_vars u = es_scope_vars s @ [f]"
    by (auto simp: adds_to_scope_def push_frame_def)
  then show "same_scopes s s'"
    by (auto simp: s' same_scopes_def grows_def new_strings_def push_frame_def pop_frame_def)
qed

lemma loop_relates: "relates adds_to_scope a \<Longrightarrow> relates adds_to_scope (in_loop a)"
proof (rule relatesI)
  fix s t s'
  assume a: "relates adds_to_scope a" and "in_loop a s = Inr (t, s')"
  then obtain u t' where u: "a (push_loop s) = Inr (t', u)" and s': "s' = pop_loop u"
    by (auto simp: in_loop_def emit_defs ebind_Inr_iff)
  from relatesD [OF a u] show "adds_to_scope s s'"
    by (auto simp: s' adds_to_scope_def grows_def new_strings_def push_loop_def pop_loop_def)
qed

lemma patches_relate:
  assumes "\<And>c. c \<in> set (nodes node) \<Longrightarrow> patch_range c \<noteq> None \<Longrightarrow> relates same_scopes (ex c)"
  shows "collect_objc_patches ex start node acc = Inr acc' \<Longrightarrow> same_scopes (snd acc) (snd acc')"
  using assms
proof (induction node arbitrary: acc acc' rule: measure_induct_rule [where f = size])
  case (less node)
  have child: "same_scopes (snd u) (snd v)"
    if "c \<in> set (jinner node)" "collect_objc_patches ex start c u = Inr v" for c u v
    by (rule less.IH [OF size_jinner [OF that(1)] that(2)])
       (rule less.prems(2), use that(1) in \<open>auto simp: set_nodes [of node]\<close>)
  have kids: "efold (collect_objc_patches ex start) (jinner node) acc = Inr acc'
      \<Longrightarrow> same_scopes (snd acc) (snd acc')"
    by (erule efold_invariant [where P = "\<lambda>a. same_scopes (snd acc) (snd a)"])
       (use child exprs.R_refl exprs.R_trans in blast)+
  have self: "patch_range node \<noteq> None \<Longrightarrow> relates same_scopes (ex node)" by (rule less.prems) auto
  show ?case
    using less.prems(1) kids relatesD [OF self]
    unfolding collect_objc_patches.simps [of _ _ node]
    by (auto simp: ebind_Inr_iff split: option.splits if_splits)
qed

lemma macro_relates:
  assumes "\<And>c. c \<in> set (nodes node) \<Longrightarrow> patch_range c \<noteq> None \<Longrightarrow> relates same_scopes (ex c)"
  shows "relates same_scopes (patched_macro ex off text node)"
  using patches_relate [of node ex, OF assms]
  by (fastforce simp: relates_def patched_macro_def ebind_Inr_iff)

interpretation kept: emission "\<lambda>a _. relates same_scopes a" "\<lambda>a _. relates adds_to_scope a" False
proof
  show "relates adds_to_scope a" if "relates same_scopes a" for a
    using that by (auto simp: relates_def intro: same_scopes_adds)
  show "relates same_scopes (upd f)" if "quiet f" for f
    using that by (auto simp: relates_def quiet_def emit_defs)
  show "relates adds_to_scope (upd (track name t))" for name t
    using track_adds by (auto simp: relates_def emit_defs)
qed (auto intro: strings_relate block_relates frame_relates loop_relates macro_relates)

lemma emission_keeps:
  "(\<forall>node. relates same_scopes (emit_expr n e node))
   \<and> (\<forall>node i. relates adds_to_scope (emit_stmt n e node i))
   \<and> (\<forall>node i. relates adds_to_scope (emit_if n e node i))"
proof (induction n)
  case 0
  show ?case by (simp add: relates_def emit_expr.simps emit_stmt.simps emit_if.simps raise_def)
next
  case (Suc n)
  then show ?case by (auto intro!: kept.fuel_expr kept.fuel_stmt)
qed

end
