(* ===== verification/Emit_Dispatch.thy ===== *)
theory Emit_Dispatch
  imports Emit_Ownership
begin

text \<open>
  The data of the generated files that do not hold method bodies: the dispatch header and
  source (protocol selectors, the class that implements each of them for every class, the
  vtables), the class headers and the type definitions they carry
  (\<open>tools/oz_transpile/emit.py\<close>). A template context of the source is a record.
\<close>

subsection \<open>Protocol selectors\<close>

definition add_proto_sel :: "oz_method \<Rightarrow> (string, oz_method) dict \<Rightarrow> (string, oz_method) dict" where
  "add_proto_sel me d =
     (if me_dispatch me = PROTOCOL \<and> \<not> me_is_class_method me \<and> dget d (me_selector me) = None
      then dput (me_selector me) me d else d)"

definition proto_sels_map :: "oz_module \<Rightarrow> (string, oz_method) dict" where
  "proto_sels_map m = fold add_proto_sel (concat (map cl_methods (dvals (mo_classes m)))) []"

definition classes_by_id :: "oz_module \<Rightarrow> oz_class list" where
  "classes_by_id m = sort_key cl_class_id (dvals (mo_classes m))"

record proto_sel =
  ps_c_sel :: string
  ps_ret :: string
  ps_param_types :: string
  ps_call_args :: string
  ps_macro_params :: string

definition proto_sel_of :: "string \<times> oz_method \<Rightarrow> proto_sel" where
  "proto_sel_of = (\<lambda>(sel, me).
     \<lparr>ps_c_sel = selector_to_c sel, ps_ret = c_type (me_return_type me),
      ps_param_types = str_join '', '' (''struct OZObject *'' # map (c_type \<circ> pa_type) (me_params me)),
      ps_call_args = str_join '', ''
        (''(struct OZObject *)(obj)'' # map (\<lambda>p. ''('' @ pa_name p @ '')'') (me_params me)),
      ps_macro_params = str_join '', '' (''obj'' # map pa_name (me_params me))\<rparr>)"

text \<open>The classes that answer a selector, with the class whose function they run.\<close>

definition implementers_of :: "oz_module \<Rightarrow> string \<Rightarrow> (oz_class \<times> oz_class) list outcome" where
  "implementers_of m sel =
     ebind (emap (\<lambda>cls. ebind (find_implementing_class cls sel m) (\<lambda>r.
                     Inr (case r of Some i \<Rightarrow> [(cls, i)] | None \<Rightarrow> [])))
              (classes_by_id m))
       (\<lambda>xss. Inr (concat xss))"

subsection \<open>oz_dispatch.h\<close>

record impl_entry =
  ie_cls_name :: string
  ie_c_sel :: string
  ie_impl_name :: string

record dispatch_header =
  dh_classes :: "oz_class list"
  dh_class_count :: nat
  dh_proto_sels :: "proto_sel list"
  dh_impl_map :: "impl_entry list"
  dh_root_class :: string
  dh_item_pool_count :: int
  dh_dispatch_includes :: "string list"
  dh_initialize_classes :: "string list"

definition impl_entries :: "oz_module \<Rightarrow> string \<Rightarrow> impl_entry list outcome" where
  "impl_entries m sel = ebind (implementers_of m sel) (\<lambda>ps. Inr (map (\<lambda>(cls, i).
     \<lparr>ie_cls_name = cl_name cls, ie_c_sel = selector_to_c sel, ie_impl_name = cl_name i\<rparr>) ps))"

definition dispatch_header_ctx :: "oz_module \<Rightarrow> string \<Rightarrow> int \<Rightarrow> dispatch_header outcome" where
  "dispatch_header_ctx m root_class item_pool_count =
     ebind (emap (impl_entries m) (sort (dkeys (proto_sels_map m)))) (\<lambda>entries. Inr
       \<lparr>dh_classes = classes_by_id m, dh_class_count = length (mo_classes m),
        dh_proto_sels = map proto_sel_of (sort_key fst (proto_sels_map m)),
        dh_impl_map = concat entries, dh_root_class = root_class,
        dh_item_pool_count = item_pool_count,
        dh_dispatch_includes = add_all_new (concat (map cl_user_includes (dvals (mo_classes m)))) [],
        dh_initialize_classes = mo_initialize_classes m\<rparr>)"

subsection \<open>oz_dispatch.c\<close>

record dispatch_class =
  dc_name :: string
  dc_super_id_expr :: string
  dc_header_stem :: string

record vtable_sel =
  vt_c_sel :: string
  vt_entries :: "(string \<times> string) list"

record dispatch_source =
  ds_classes :: "dispatch_class list"
  ds_vtable_sels :: "vtable_sel list"
  ds_root_class :: string
  ds_item_pool_count :: int
  ds_initialize_classes :: "string list"
  ds_heap_support :: bool

definition dispatch_class_of :: "oz_module \<Rightarrow> oz_class \<Rightarrow> dispatch_class" where
  "dispatch_class_of m cls =
     \<lparr>dc_name = cl_name cls,
      dc_super_id_expr =
        (case super_in m cls of Some s \<Rightarrow> ''OZ_CLASS_'' @ s | None \<Rightarrow> ''OZ_CLASS_COUNT''),
      dc_header_stem = header_stem cls\<rparr>"

definition vtable_of :: "oz_module \<Rightarrow> string \<Rightarrow> vtable_sel outcome" where
  "vtable_of m sel = ebind (implementers_of m sel) (\<lambda>ps. Inr
     \<lparr>vt_c_sel = selector_to_c sel, vt_entries = map (\<lambda>(cls, i). (cl_name cls, cl_name i)) ps\<rparr>)"

definition dispatch_source_ctx :: "oz_module \<Rightarrow> string \<Rightarrow> int \<Rightarrow> bool \<Rightarrow> dispatch_source outcome" where
  "dispatch_source_ctx m root_class item_pool_count heap_support =
     ebind (emap (vtable_of m) (sort (dkeys (proto_sels_map m)))) (\<lambda>vts. Inr
       \<lparr>ds_classes = map (dispatch_class_of m) (classes_by_id m), ds_vtable_sels = vts,
        ds_root_class = root_class, ds_item_pool_count = item_pool_count,
        ds_initialize_classes = mo_initialize_classes m, ds_heap_support = heap_support\<rparr>)"

subsection \<open>Type definitions\<close>

text \<open>\<open>re.finditer(r'^\t(\w+)', definition, MULTILINE)\<close>, group 1.\<close>

definition tabbed_ident :: "string \<Rightarrow> string option" where
  "tabbed_ident line =
     (case line of
        c # cs \<Rightarrow> if c = tab \<and> takeWhile is_word_char cs \<noteq> [] then Some (takeWhile is_word_char cs) else None
      | [] \<Rightarrow> None)"

definition typedef_idents :: "string \<Rightarrow> string list" where
  "typedef_idents definition = List.map_filter tabbed_ident (str_split nl definition)"

definition type_def_constant_map :: "oz_module \<Rightarrow> (string, string) dict" where
  "type_def_constant_map m =
     fold (\<lambda>(key, df) d. if startswith key ''enum ''
             then fold (\<lambda>ident. dput ident df) (typedef_idents df) d else d)
       (mo_type_defs m) []"

definition need_type_def :: "string list \<Rightarrow> string \<Rightarrow> string \<times> string \<Rightarrow> string list \<Rightarrow> string list" where
  "need_type_def header_type_defs text entry needed =
     (if contains (fst entry) text \<and> snd entry \<notin> set needed \<and> snd entry \<notin> set header_type_defs
      then needed @ [snd entry] else needed)"

definition scan_source_type_defs ::
  "string list \<Rightarrow> (string, string) dict \<Rightarrow> string list \<Rightarrow> string list" where
  "scan_source_type_defs texts const_map header_type_defs =
     fold (\<lambda>text. fold (need_type_def header_type_defs text) const_map) texts []"

definition type_def_key :: "oz_module \<Rightarrow> string \<Rightarrow> string" where
  "type_def_key m qt =
     (if dget (mo_type_defs m) qt \<noteq> None then qt
      else let k = rstrip_ptr qt
           in if startswith k ''const '' then drop 6 k else k)"

definition add_type_def :: "oz_module \<Rightarrow> string \<Rightarrow> string list \<Rightarrow> string list" where
  "add_type_def m qt type_defs =
     (case dget (mo_type_defs m) (type_def_key m qt) of
        Some df \<Rightarrow> add_new df type_defs
      | None \<Rightarrow> type_defs)"

text \<open>The types a class header mentions: ivars, method and function signatures.\<close>

definition class_qual_types :: "oz_class \<Rightarrow> string list" where
  "class_qual_types cls =
     map (raw_qual_type \<circ> iv_type) (cl_ivars cls)
     @ concat (map (\<lambda>me. raw_qual_type (me_return_type me) # map (raw_qual_type \<circ> pa_type) (me_params me))
         (cl_methods cls))
     @ concat (map (\<lambda>f. raw_qual_type (fn_return_type f) # map (raw_qual_type \<circ> pa_type) (fn_params f))
         (cl_functions cls))"

definition header_type_defs_for_class :: "oz_class \<Rightarrow> oz_module \<Rightarrow> string list" where
  "header_type_defs_for_class cls m = fold (add_type_def m) (class_qual_types cls) []"

definition all_header_type_defs :: "oz_module \<Rightarrow> string list" where
  "all_header_type_defs m =
     add_all_new (concat (map (\<lambda>c. header_type_defs_for_class c m) (dvals (mo_classes m)))) []"

subsection \<open>Class headers\<close>

record header_ivar =
  hi_c_type :: string
  hi_name :: string
  hi_decl :: string

record header_accessor =
  ha_func_name :: string
  ha_return_type :: string
  ha_params_decl :: string
  ha_body_lines :: "string list"

record class_header =
  ch_name :: string
  ch_stem :: string
  ch_is_root :: bool
  ch_superclass :: "string option"
  ch_superclass_header :: "string option"
  ch_user_ivars :: "header_ivar list"
  ch_ivar_type_defs :: "string list"
  ch_method_prototypes :: "string list"
  ch_auto_dealloc_proto :: bool
  ch_has_any_methods :: bool
  ch_function_protos :: "string list"
  ch_extern_decls :: "string list"
  ch_base_chain :: string
  ch_root_class :: string
  ch_q31_inits :: "(string \<times> string \<times> bool) list"
  ch_item_pool_count :: int
  ch_user_includes :: "string list"
  ch_header_verbatim_lines :: "string list"
  ch_has_atomic_props :: bool
  ch_heap_support :: bool
  ch_inline_accessors :: "header_accessor list"

definition header_ivars :: "oz_module \<Rightarrow> oz_class \<Rightarrow> header_ivar list" where
  "header_ivars m cls =
     map (\<lambda>iv. \<lparr>hi_c_type = c_type (iv_type iv), hi_name = iv_name iv,
                hi_decl = c_param_decl (iv_type iv) (iv_name iv)\<rparr>)
       (filter (\<lambda>iv. \<not> (no_super m cls \<and> iv_name iv \<in> {''_refcount'', ''oz_class_id'', ''_meta''}))
         (cl_ivars cls))"

definition root_skip_sels :: "string list" where
  "root_skip_sels =
     [''retain'', ''release'', ''retainCount'', ''isEqual:'', ''cDescription:maxLength:'']"

definition header_methods :: "oz_module \<Rightarrow> bool \<Rightarrow> oz_class \<Rightarrow> oz_method list" where
  "header_methods m heap_support cls =
     filter (\<lambda>me. \<not> (no_super m cls \<and> me_selector me \<in> set root_skip_sels)
                \<and> \<not> (me_selector me = ''allocWithHeap:'' \<and> heap_support)) (cl_methods cls)"

text \<open>Definitions already in the verbatim lines of the header are left out.\<close>

definition header_type_defs :: "oz_module \<Rightarrow> oz_class \<Rightarrow> string list" where
  "header_type_defs m cls =
     (let tds = header_type_defs_for_class cls m
      in if cl_header_verbatim_lines cls = [] then tds
         else let hdr_text = str_join [nl] (cl_header_verbatim_lines cls)
              in filter (\<lambda>td. \<not> list_ex (\<lambda>(key, df). df = td \<and> contains key hdr_text) (mo_type_defs m)) tds)"

definition function_protos :: "oz_class \<Rightarrow> string list" where
  "function_protos cls =
     map (\<lambda>f. function_signature f @ '';'') (filter (\<lambda>f. \<not> fn_is_static f) (cl_functions cls))"

definition has_atomic_props :: "oz_module \<Rightarrow> bool" where
  "has_atomic_props m \<longleftrightarrow>
     list_ex (\<lambda>c. list_ex (\<lambda>p. \<not> pr_is_nonatomic p) (cl_properties c)) (dvals (mo_classes m))"

definition inline_accessor_ctx :: "oz_class \<Rightarrow> inline_accessor \<Rightarrow> header_accessor" where
  "inline_accessor_ctx cls acc =
     (let decl = str_join '', '' (map (\<lambda>(ty, n). ty @ '' '' @ n) (ac_params acc));
          self = struct_ptr (cl_name cls) @ ''self''
      in \<lparr>ha_func_name = inline_accessor_name (cl_name cls) (selector_to_c (ac_selector acc)) (ac_func_suffix acc),
          ha_return_type = ac_return_c_type acc,
          ha_params_decl = (if decl \<noteq> [] then self @ '', '' @ decl else self),
          ha_body_lines = ac_body_lines acc\<rparr>)"

definition q31_inits :: "(string \<times> string \<times> bool) list" where
  "q31_inits =
     [(''fixedWithInt32_'', ''int32_t'', False), (''fixedWithFloat_'', ''float'', True),
      (''fixedWithBool_'', ''int8_t'', False)]"

definition class_header_ctx ::
  "oz_module \<Rightarrow> string \<Rightarrow> oz_class \<Rightarrow> string \<Rightarrow> int \<Rightarrow> bool \<Rightarrow> class_header outcome" where
  "class_header_ctx m root_class cls stem item_pool_count heap_support =
     ebind (base_chain (cl_name cls) m) (\<lambda>chain. Inr
       \<lparr>ch_name = cl_name cls,
        ch_stem = (if stem \<noteq> [] then stem else header_stem cls),
        ch_is_root = no_super m cls, ch_superclass = cl_superclass cls,
        ch_superclass_header =
          (case super_in m cls of Some s \<Rightarrow> Some (header_stem (the (cls_of m s))) | None \<Rightarrow> None),
        ch_user_ivars = header_ivars m cls, ch_ivar_type_defs = header_type_defs m cls,
        ch_method_prototypes = map (method_prototype cls) (header_methods m heap_support cls),
        ch_auto_dealloc_proto =
          (\<not> list_ex (\<lambda>me. me_selector me = ''dealloc'') (header_methods m heap_support cls)
           \<and> (object_ivars cls \<noteq> [] \<or> \<not> no_super m cls)),
        ch_has_any_methods = (cl_methods cls \<noteq> [] \<or> no_super m cls),
        ch_function_protos = function_protos cls, ch_extern_decls = [], ch_base_chain = chain,
        ch_root_class = root_class, ch_q31_inits = q31_inits,
        ch_item_pool_count = item_pool_count, ch_user_includes = cl_user_includes cls,
        ch_header_verbatim_lines = cl_header_verbatim_lines cls,
        ch_has_atomic_props = (no_super m cls \<and> has_atomic_props m),
        ch_heap_support = heap_support,
        ch_inline_accessors =
          map (inline_accessor_ctx cls) (filter (\<lambda>a. ac_class_name a = cl_name cls) INLINE_ACCESSORS)\<rparr>)"

text \<open>The header stems of the other classes, sorted.\<close>

definition dep_includes :: "oz_module \<Rightarrow> string \<Rightarrow> string list" where
  "dep_includes m stem =
     sort (remdups (filter (\<lambda>s. s \<noteq> stem) (map header_stem (dvals (mo_classes m)))))"

end
