(* ===== verification/Emit_Class.thy ===== *)
theory Emit_Class
  imports Emit_Facts Emit_Dispatch
begin

text \<open>
  The source file of a class (\<open>tools/oz_transpile/emit.py\<close>): synthesized accessors, the
  functions of the root class, deallocation, and \<open>_class_source_ctx\<close> and
  \<open>_orphan_source_ctx\<close>, which render all bodies. The state of emission is threaded through
  the bodies as the code does, with the fields it resets before each body.
\<close>

subsection \<open>Synthesized accessors\<close>

definition text_lines :: "string list \<Rightarrow> string" where
  "text_lines ls = concat (map (\<lambda>l. l @ [nl]) ls)"

definition indented :: "nat \<Rightarrow> string \<Rightarrow> string" where
  "indented n l = tabs n @ l"

text \<open>The lines inside the spin lock of the root object.\<close>

definition locked :: "string \<Rightarrow> string list \<Rightarrow> string list" where
  "locked lock body =
     [indented 1 (''OZ_SPINLOCK(&'' @ lock @ '') {'')] @ map (indented 2) body @ [indented 1 ''}'']"

definition getter_lines :: "string option \<Rightarrow> string \<Rightarrow> string \<Rightarrow> string list" where
  "getter_lines lock ct ivar =
     (case lock of
        Some l \<Rightarrow> [''{'', indented 1 (ct @ '' val = {0};'')] @ locked l [''val = self->'' @ ivar @ '';'']
                  @ [indented 1 ''return val;'', ''}'']
      | None \<Rightarrow> [''{'', indented 1 (''return self->'' @ ivar @ '';''), ''}''])"

definition strong_setter_lines :: "string option \<Rightarrow> string \<Rightarrow> string \<Rightarrow> string \<Rightarrow> string \<Rightarrow> string list" where
  "strong_setter_lines lock root ct ivar param =
     (let retain = indented 1 (retain_call root param @ '';'');
          release = indented 1 (release_call root ''old'' @ '';'')
      in case lock of
           Some l \<Rightarrow> [''{'', indented 1 (ct @ '' old = {0};''), retain]
                     @ locked l [''old = self->'' @ ivar @ '';'', ''self->'' @ ivar @ '' = '' @ param @ '';'']
                     @ [release, ''}'']
         | None \<Rightarrow> [''{'', indented 1 (ct @ '' old = self->'' @ ivar @ '';''),
                    indented 1 (''self->'' @ ivar @ '' = '' @ param @ '';''), retain, release, ''}''])"

definition plain_setter_lines :: "string option \<Rightarrow> string \<Rightarrow> string \<Rightarrow> string list" where
  "plain_setter_lines lock ivar param =
     (let store = ''self->'' @ ivar @ '' = '' @ param @ '';''
      in case lock of
           Some l \<Rightarrow> [''{''] @ locked l [store] @ [''}'']
         | None \<Rightarrow> [''{'', indented 1 store, ''}''])"

text \<open>\<open>f"{prop.ivar_name}"\<close>, which name resolution always sets.\<close>

definition ivar_of :: "oz_property \<Rightarrow> string" where
  "ivar_of prop = (case pr_ivar_name prop of Some n \<Rightarrow> n | None \<Rightarrow> ''None'')"

definition accessor_lines :: "string option \<Rightarrow> string \<Rightarrow> oz_property \<Rightarrow> oz_method \<Rightarrow> string list" where
  "accessor_lines lock root prop me =
     (let ct = c_type (pr_type prop); ivar = ivar_of prop
      in case me_params me of
           [] \<Rightarrow> getter_lines lock ct ivar
         | p # _ \<Rightarrow>
             if is_object (pr_type prop) \<and> pr_ownership prop = ''strong''
             then strong_setter_lines lock root ct ivar (pa_name p)
             else plain_setter_lines lock ivar (pa_name p))"

definition synthesized_accessor :: "oz_class \<Rightarrow> oz_module \<Rightarrow> string \<Rightarrow> oz_property \<Rightarrow> oz_method \<Rightarrow> string outcome" where
  "synthesized_accessor cls m root prop me =
     ebind (if pr_is_nonatomic prop then Inr None
            else ebind (self_lock_chain cls m) (\<lambda>l. Inr (Some l)))
       (\<lambda>lock. Inr (text_lines (accessor_lines lock root prop me)))"

subsection \<open>The root class\<close>

definition root_retain_release :: "string \<Rightarrow> string" where
  "root_retain_release r =
     text_lines
       ([''struct '' @ r @ '' *'' @ r @ ''_retain(struct '' @ r @ '' *self)'', ''{'',
         indented 1 ''if (self) {'', indented 2 ''oz_atomic_inc(&self->_refcount);'', indented 1 ''}'',
         indented 1 ''return self;'', ''}'', [],
         ''void '' @ r @ ''_release(struct '' @ r @ '' *self)'', ''{'',
         indented 1 ''if (!self) {'', indented 2 ''return;'', indented 1 ''}'',
         indented 1 ''if (self->_meta.immortal) {'', indented 2 ''return;'', indented 1 ''}'',
         indented 1 ''if (oz_atomic_dec_and_test(&self->_refcount)) {'',
         indented 2 ''if (self->_meta.deallocating) {'', indented 3 ''return;'', indented 2 ''}'',
         indented 2 ''self->_meta.deallocating = 1;'',
         indented 2 (''OZ_PROTOCOL_SEND_dealloc((struct '' @ r @ '' *)self);''),
         indented 1 ''}'', ''}'', [],
         ''uint32_t '' @ r @ ''_retainCount(struct '' @ r @ '' *self)'', ''{'',
         indented 1 ''if (!self) {'', indented 2 ''return 0;'', indented 1 ''}'',
         indented 1 ''return (uint32_t)oz_atomic_get(&self->_refcount);'', ''}'', []])"

definition root_introspection :: "string \<Rightarrow> string" where
  "root_introspection r =
     text_lines
       [''BOOL '' @ r @ ''_isEqual_(struct '' @ r @ '' *self, struct '' @ r @ '' *anObject)'', ''{'',
        indented 1 ''return self == anObject;'', ''}'', [],
        ''int '' @ r @ ''_cDescription_maxLength_(struct '' @ r @ '' *self, char *buf, int maxLen)'', ''{'',
        indented 1 (''return oz_platform_snprint(buf, (size_t)maxLen, '' @ dquoted ''<%s: %p>'' @ '',''),
        indented 2 ''oz_class_names[self->_meta.class_id], (void *)self);'', ''}'', []]"

subsection \<open>Deallocation\<close>

definition is_super_dealloc :: "json \<Rightarrow> bool" where
  "is_super_dealloc node \<longleftrightarrow>
     jkind node = ''ObjCMessageExpr'' \<and> jstr node ''selector'' [] = ''dealloc''
     \<and> startswith (jstr node ''receiverKind'' []) ''super''"

text \<open>The end of a \<open>dealloc\<close>: the parent's, or the slab of the root class.\<close>

definition dealloc_tail :: "oz_class \<Rightarrow> oz_module \<Rightarrow> string \<Rightarrow> string" where
  "dealloc_tail cls m root =
     (case super_in m cls of
        Some p \<Rightarrow> tab # p @ ''_dealloc((struct '' @ p @ '' *)self);'' @ [nl]
      | None \<Rightarrow> tab # root @ ''_dispatch_free((struct '' @ root @ '' *)self);'' @ [nl])"

definition release_ivars :: "oz_class \<Rightarrow> string \<Rightarrow> string" where
  "release_ivars cls root =
     concat (map (\<lambda>iv. release_line root 1 (''self->'' @ iv_name iv)) (object_ivars cls))"

definition reset_dealloc :: "emit_state \<Rightarrow> emit_state" where
  "reset_dealloc s = s\<lparr>es_scope_vars := [], es_consumed := [], es_sync := 0\<rparr>"

definition user_dealloc_stmts :: "emit_env \<Rightarrow> json \<Rightarrow> emitter" where
  "user_dealloc_stmts e body =
     eseq (upd reset_dealloc # map (\<lambda>c. emit_stmt (body_fuel body) e c 1)
       (filter (\<lambda>c. \<not> is_super_dealloc c) (jinner body)))"

definition emit_user_dealloc :: "emit_env \<Rightarrow> oz_method \<Rightarrow> emitter" where
  "emit_user_dealloc e me =
     eseq [out (method_prototype (ee_cls e) me @ [nl] @ ''{'' @ [nl]),
           (if body_truthy (me_body_ast me)
            then user_dealloc_stmts (e\<lparr>ee_method := Some me\<rparr>) (the (me_body_ast me)) else out []),
           out (release_ivars (ee_cls e) (ee_root e) @ dealloc_tail (ee_cls e) (ee_module e) (ee_root e)
                @ ''}'' @ [nl, nl])]"

definition dealloc_head :: "oz_class \<Rightarrow> string" where
  "dealloc_head cls =
     text_lines [''void '' @ cl_name cls @ ''_dealloc(struct '' @ cl_name cls @ '' *self)'', ''{'']"

text \<open>The collections release their elements and give their buffer back to the item pool.\<close>

definition collection_dealloc :: "string list \<Rightarrow> string \<Rightarrow> string \<Rightarrow> oz_class \<Rightarrow> oz_module \<Rightarrow> string \<Rightarrow> string" where
  "collection_dealloc slots buf count cls m root =
     dealloc_head cls
     @ text_lines
         ([indented 1 ''for (unsigned int i = 0; i < self->_count; i++) {'']
          @ map (\<lambda>f. indented 2 (root @ ''_release(self->'' @ f @ ''[i]);'')) slots
          @ [indented 1 ''}'', indented 1 (''if (self->'' @ buf @ '') {''),
             indented 2 ''oz_mem_blocks_free_contiguous(&oz_item_pool,'',
             indented 3 (''self->'' @ buf @ '', '' @ count @ '');''), indented 1 ''}''])
     @ dealloc_tail cls m root @ ''}'' @ [nl, nl]"

definition auto_dealloc :: "emit_env \<Rightarrow> string" where
  "auto_dealloc e =
     (let cls = ee_cls e; m = ee_module e; root = ee_root e in
      if ee_has_item_pool e \<and> cl_name cls = ''OZArray''
      then collection_dealloc [''_items''] ''_items'' ''self->_count'' cls m root
      else if ee_has_item_pool e \<and> cl_name cls = ''OZDictionary''
      then collection_dealloc [''_keys'', ''_values''] ''_keys'' ''self->_count * 2'' cls m root
      else if object_ivars cls = [] \<and> no_super m cls then []
      else dealloc_head cls @ release_ivars cls root @ dealloc_tail cls m root @ ''}'' @ [nl, nl])"

subsection \<open>Methods and functions\<close>

definition reset_function :: "emit_state \<Rightarrow> emit_state" where
  "reset_function s =
     s\<lparr>es_scope_vars := [], es_consumed := [], es_loops := [], es_pre := [], es_tmp := 0\<rparr>"

definition reset_method :: "emit_state \<Rightarrow> emit_state" where
  "reset_method s = (reset_function s)\<lparr>es_sync := 0\<rparr>"

definition empty_body :: string where
  "empty_body = text_lines [''{'', ''}'']"

definition body_or_empty :: "emit_env \<Rightarrow> oz_param list \<Rightarrow> json option \<Rightarrow> emitter" where
  "body_or_empty e params body =
     (if body_truthy body then emit_body (body_fuel (the body)) e params (the body) else out empty_body)"

definition method_text :: "emit_env \<Rightarrow> oz_method \<Rightarrow> emitter" where
  "method_text e me =
     eseq [upd reset_method, out (method_prototype (ee_cls e) me @ [nl]),
           (case me_synth me of
              Some i \<Rightarrow> lift (synthesized_accessor (ee_cls e) (ee_module e) (ee_root e)
                               (cl_properties (ee_cls e) ! i) me) out
            | None \<Rightarrow> body_or_empty (e\<lparr>ee_method := Some me\<rparr>) (me_params me) (me_body_ast me))]"

definition function_text :: "emit_env \<Rightarrow> oz_function \<Rightarrow> emitter" where
  "function_text e f =
     eseq [upd reset_function,
           out ((if fn_is_static f then ''static '' else []) @ function_signature f @ [nl]),
           body_or_empty (e\<lparr>ee_method := None\<rparr>) (fn_params f) (fn_body_ast f)]"

definition static_decl :: "oz_static_var \<Rightarrow> string" where
  "static_decl sv =
     ''static '' @ c_param_decl (sv_type sv) (sv_name sv)
     @ (case sv_init_value sv of Some v \<Rightarrow> '' = '' @ v | None \<Rightarrow> []) @ '';''"

definition is_root_class :: "emit_env \<Rightarrow> bool" where
  "is_root_class e \<longleftrightarrow> cl_name (ee_cls e) = ee_root e"

definition skipped_on_root :: "emit_env \<Rightarrow> oz_method \<Rightarrow> bool" where
  "skipped_on_root e me \<longleftrightarrow> is_root_class e \<and> me_selector me \<in> set root_skip_sels"

subsection \<open>_class_source_ctx\<close>

text \<open>The bodies in order, each with its trailing newlines dropped; the last \<open>dealloc\<close> apart.\<close>

fun class_bodies ::
  "emit_env \<Rightarrow> oz_method list \<Rightarrow> string list \<times> string option \<Rightarrow> emit_state
   \<Rightarrow> ((string list \<times> string option) \<times> emit_state) outcome" where
  "class_bodies e [] acc s = Inr (acc, s)"
| "class_bodies e (me # mes) acc s =
     (if skipped_on_root e me then class_bodies e mes acc s
      else if me_selector me = ''dealloc''
      then ebind (emit_user_dealloc e me s) (\<lambda>(t, s').
             class_bodies e mes (fst acc, Some (rstrip_nl t)) s')
      else ebind (method_text e me s) (\<lambda>(t, s').
             class_bodies e mes (fst acc @ [rstrip_nl t], snd acc) s'))"

fun function_bodies :: "emit_env \<Rightarrow> oz_function list \<Rightarrow> emit_state \<Rightarrow> (string list \<times> emit_state) outcome" where
  "function_bodies e [] s = Inr ([], s)"
| "function_bodies e (f # fs) s =
     ebind (function_text e f s) (\<lambda>(t, s').
       ebind (function_bodies e fs s') (\<lambda>(ts, s''). Inr (rstrip_nl t # ts, s'')))"

record class_source =
  cs_name :: string
  cs_stem :: string
  cs_is_root :: bool
  cs_root_retain_release :: string
  cs_root_introspection :: string
  cs_method_bodies :: "string list"
  cs_dealloc_body :: string
  cs_function_bodies :: "string list"
  cs_static_decls :: "string list"
  cs_string_constants :: "string list"
  cs_block_functions :: "string list"
  cs_user_includes :: "string list"
  cs_verbatim_lines :: "string list"
  cs_pool_count :: int
  cs_dep_includes :: "string list"
  cs_src_type_defs :: "string list"

definition class_dealloc :: "emit_env \<Rightarrow> string option \<Rightarrow> string" where
  "class_dealloc e user =
     (case user of
        Some t \<Rightarrow> t
      | None \<Rightarrow> if cl_name (ee_cls e) \<noteq> ''OZSpinLock'' then rstrip_nl (auto_dealloc e) else [])"

definition class_source_ctx ::
  "emit_env \<Rightarrow> string \<Rightarrow> int \<Rightarrow> emit_state \<Rightarrow> (class_source \<times> emit_state) outcome" where
  "class_source_ctx e stem pool_count s =
     (let cls = ee_cls e; m = ee_module e; root = is_root_class e;
          stem = (if stem \<noteq> [] then stem else header_stem cls)
      in ebind (class_bodies e (cl_methods cls) ([], None) s) (\<lambda>((bodies, dealloc), s).
         ebind (function_bodies e (cl_functions cls) s) (\<lambda>(functions, s).
           let statics = map static_decl (cl_statics cls)
           in Inr
             (\<lparr>cs_name = cl_name cls, cs_stem = stem, cs_is_root = root,
               cs_root_retain_release =
                 (if root then rstrip_nl (root_retain_release (cl_name cls)) else []),
               cs_root_introspection =
                 (if root then rstrip_nl (root_introspection (cl_name cls)) else []),
               cs_method_bodies = bodies, cs_dealloc_body = class_dealloc e dealloc,
               cs_function_bodies = functions, cs_static_decls = statics,
               cs_string_constants = es_strings s, cs_block_functions = es_blocks s,
               cs_user_includes = cl_user_includes cls, cs_verbatim_lines = cl_verbatim_lines cls,
               cs_pool_count = pool_count, cs_dep_includes = dep_includes m stem,
               cs_src_type_defs =
                 scan_source_type_defs (bodies @ functions @ statics @ cl_verbatim_lines cls)
                   (type_def_constant_map m) (all_header_type_defs m)\<rparr>, s))))"

subsection \<open>_orphan_source_ctx\<close>

text \<open>
  Every function body is emitted in a context of its own, whose string constants and block
  functions are dropped with it; only the logs of the module survive.
\<close>

definition logs_only :: "emit_state \<Rightarrow> emit_state" where
  "logs_only s = fresh_state\<lparr>es_errors := es_errors s, es_diags := es_diags s\<rparr>"

definition orphan_env :: "oz_module \<Rightarrow> string \<Rightarrow> (string \<times> string) list \<Rightarrow> emit_env" where
  "orphan_env m root owning =
     \<lparr>ee_cls = OZClass ''__orphan__'' None, ee_module = m, ee_root = root, ee_method = None,
      ee_has_item_pool = False, ee_source = None, ee_owning = owning\<rparr>"

fun orphan_functions :: "emit_env \<Rightarrow> oz_function list \<Rightarrow> emit_state \<Rightarrow> (string list \<times> emit_state) outcome" where
  "orphan_functions e [] s = Inr ([], s)"
| "orphan_functions e (f # fs) s =
     ebind (function_text e f (logs_only s)) (\<lambda>(t, s').
       ebind (orphan_functions e fs (logs_only s')) (\<lambda>(ts, s''). Inr (rstrip_nl t # ts, s'')))"

record orphan_ctx =
  oc_stem :: string
  oc_function_bodies :: "string list"
  oc_static_decls :: "string list"
  oc_user_includes :: "string list"
  oc_verbatim_lines :: "string list"
  oc_src_type_defs :: "string list"

definition orphan_source_ctx ::
  "orphan_source \<Rightarrow> oz_module \<Rightarrow> string \<Rightarrow> (string \<times> string) list \<Rightarrow> emit_state
   \<Rightarrow> (orphan_ctx \<times> emit_state) outcome" where
  "orphan_source_ctx osrc m root owning s =
     ebind (orphan_functions (orphan_env m root owning) (os_functions osrc) s) (\<lambda>(functions, s).
       let statics = map static_decl (os_statics osrc)
       in Inr
         (\<lparr>oc_stem = os_stem osrc, oc_function_bodies = functions, oc_static_decls = statics,
           oc_user_includes = os_user_includes osrc, oc_verbatim_lines = os_verbatim_lines osrc,
           oc_src_type_defs = scan_source_type_defs (functions @ statics @ os_verbatim_lines osrc)
             (type_def_constant_map m) []\<rparr>, s))"

end
