(* ===== verification/Extract.thy ===== *)
theory Extract
  imports World
begin

text \<open>
  \<open>tools/oz_transpile/extract.py\<close>: a template from the concrete syntax tree of a source
  file. The text the code writes is a list of pieces, literal text and placeholders; the
  template string is their concatenation, a placeholder written as a template expression.
\<close>

subsection \<open>Keys\<close>

definition loc_name :: "string \<Rightarrow> ts_node \<Rightarrow> string" where
  "loc_name prefix n =
     prefix @ str_of_nat (fst (ts_start_point n) + 1) @ ''_'' @ str_of_nat (snd (ts_start_point n) + 1)"

definition loc_key :: "ts_node \<Rightarrow> string" where
  "loc_key n = loc_name ''_n_'' n"

definition impl_loc_key :: "ts_node \<Rightarrow> string" where
  "impl_loc_key n = loc_name ''_impl_'' n"

subsection \<open>Names\<close>

definition interface_types :: "string list" where
  "interface_types = [''class_interface'', ''category_interface'']"

definition impl_types :: "string list" where
  "impl_types = [''class_implementation'', ''category_implementation'']"

definition impl_skip_children :: "string list" where
  "impl_skip_children =
     [''@implementation'', ''@end'', ''identifier'', ''superclass_reference'', ''instance_variables'',
      ''('', '')'']"

text \<open>\<open>_extract_class_name\<close> and \<open>_extract_protocol_name\<close>, which are the same function.\<close>

definition class_name_of :: "ts_node \<Rightarrow> string option" where
  "class_name_of n = child_text ''identifier'' n"

definition selector_piece :: "string \<Rightarrow> ts_node \<Rightarrow> string" where
  "selector_piece source child =
     (if ts_type child = ''identifier'' then node_src source child
      else if ts_type child = ''method_parameter''
      then concat (map (\<lambda>sub. if ts_type sub = '':'' then '':'' else []) (ts_children child))
      else [])"

definition extract_selector :: "string \<Rightarrow> ts_node \<Rightarrow> string" where
  "extract_selector source n = concat (map (selector_piece source) (ts_children n))"

definition is_class_method :: "ts_node \<Rightarrow> bool" where
  "is_class_method n = (case ts_children n of [] \<Rightarrow> False | c # _ \<Rightarrow> ts_type c = ''+'')"

subsection \<open>Pieces\<close>

datatype piece = Lit string | Hole string

fun piece_text :: "piece \<Rightarrow> string" where
  "piece_text (Lit t) = t"
| "piece_text (Hole k) = ''{{ '' @ k @ '' }}''"

definition template_text :: "piece list \<Rightarrow> string" where
  "template_text ps = concat (map piece_text ps)"

fun hole_keys :: "piece list \<Rightarrow> string list" where
  "hole_keys [] = []"
| "hole_keys (Lit t # ps) = hole_keys ps"
| "hole_keys (Hole k # ps) = k # hole_keys ps"

lemma hole_keys_append [simp]: "hole_keys (ps @ qs) = hole_keys ps @ hole_keys qs"
  by (induction ps rule: hole_keys.induct) auto

lemma hole_keys_concat: "hole_keys (concat pss) = concat (map hole_keys pss)"
  by (induction pss) auto

subsection \<open>Implementation blocks\<close>

definition method_def :: "ts_node \<Rightarrow> ts_node option" where
  "method_def child =
     (if ts_type child = ''implementation_definition''
      then (case ts_children child of
              [] \<Rightarrow> None
            | md # _ \<Rightarrow> if ts_type md = ''method_definition'' then Some md else None)
      else None)"

definition source_line :: "string \<Rightarrow> ts_node \<Rightarrow> piece list" where
  "source_line source n = [Lit (node_src source n @ [nl])]"

definition impl_child :: "string \<Rightarrow> string \<Rightarrow> ts_node \<Rightarrow> piece list" where
  "impl_child source cls child =
     (let ty = ts_type child in
      if ty \<in> set impl_skip_children
      then (if ty = ''@end'' then [Lit (''/* @end '' @ cls @ '' */'' @ [nl])] else [])
      else if ty = ''implementation_definition''
      then (case ts_children child of
              inner # _ \<Rightarrow>
                if ts_type inner = ''method_definition''
                then [Lit (nl # ''/* '' @ (if is_class_method inner then ''+'' else ''-'') @ ''['' @ cls @ '' ''
                           @ extract_selector source inner @ ''] */'' @ [nl]),
                      Hole (loc_key inner), Lit [nl]]
                else if ts_type inner \<in> {''property_implementation'', ''declaration''} then []
                else source_line source child
            | [] \<Rightarrow> source_line source child)
      else if ty = ''comment'' \<or> startswith ty ''preproc_'' then source_line source child
      else if ty = ''declaration'' then []
      else let t = strip (node_src source child) in if t \<noteq> [] then [Lit (t @ [nl])] else [])"

text \<open>An empty class name counts as none.\<close>

definition impl_block :: "string \<Rightarrow> ts_node \<Rightarrow> piece list" where
  "impl_block source n =
     (case class_name_of n of
        Some cls \<Rightarrow>
          if cls = [] then [Lit (node_src source n)]
          else [Lit (''/* @implementation '' @ cls @ '' */'' @ [nl]), Hole (impl_loc_key n), Lit [nl]]
               @ concat (map (impl_child source cls) (ts_children n))
      | None \<Rightarrow> [Lit (node_src source n)])"

subsection \<open>extract_template\<close>

text \<open>A comment in place of an interface or a protocol; an empty name counts as none.\<close>

definition see_comment :: "string \<Rightarrow> (string \<Rightarrow> string) \<Rightarrow> string \<Rightarrow> ts_node \<Rightarrow> piece list" where
  "see_comment word see other n =
     (let name = (case class_name_of n of Some cls \<Rightarrow> cls | None \<Rightarrow> []);
          about = (if name \<noteq> [] then name @ '' '' @ em_dash @ '' see '' @ see name
                   else em_dash @ '' see '' @ other)
      in [Lit (''/* '' @ word @ '' '' @ about @ '' */'' @ [nl])])"

definition top_pieces :: "string \<Rightarrow> ts_node \<Rightarrow> piece list" where
  "top_pieces source child =
     (let ty = ts_type child in
      if ty \<in> set interface_types then see_comment ''@interface'' (\<lambda>n. n @ ''_ozh.h'') ''_ozh.h'' child
      else if ty \<in> set impl_types then impl_block source child
      else if ty = ''protocol_declaration''
      then see_comment ''@protocol'' (\<lambda>n. ''oz_dispatch.h'') ''oz_dispatch.h'' child
      else if ty \<in> {''preproc_include'', ''function_definition'', ''declaration''}
      then [Hole (loc_key child), Lit [nl]]
      else source_line source child)"

definition extract_pieces :: "string \<Rightarrow> ts_node \<Rightarrow> piece list" where
  "extract_pieces source tree = concat (map (top_pieces source) (ts_children tree))"

definition extract_template :: "string \<Rightarrow> ts_node \<Rightarrow> string" where
  "extract_template source tree = template_text (extract_pieces source tree)"

end
