(* ===== verification/Context.thy ===== *)
theory Context
  imports Emit_Class Extract
begin

text \<open>
  \<open>tools/oz_transpile/context.py\<close> and the tree-sitter helpers of \<open>emit.py\<close> it uses: the
  dictionary that gives the text for every placeholder of an extracted template. The state
  that the functions of one file share (deduplication table, string constants of free
  functions, remaining statics, logs of the module) is threaded through the walk.
\<close>

subsection \<open>Includes\<close>

definition import_prefixes :: "string list" where
  "import_prefixes =
     [''Foundation/'', ''Foundation.h'', ''objc/'', ''objc.h'', ''OZObject'', ''OZLog'', ''OZString'',
      ''OZArray'', ''OZDictionary'', ''OZQ31'']"

definition is_objc_header :: "world \<Rightarrow> string \<Rightarrow> bool" where
  "is_objc_header w p \<longleftrightarrow> w_is_file w p \<and> has_objc_syntax (w_read w p)"

text \<open>The stem of the Objective-C header a directive names, found as by the source scan.\<close>

definition objc_header_stem :: "world \<Rightarrow> string \<Rightarrow> string \<Rightarrow> string option" where
  "objc_header_stem w dir stripped =
     Option.bind (quoted_group stripped) (\<lambda>name.
       Option.bind (find_header w name dir) (\<lambda>header.
         if is_objc_header w header then Some (fst (split_ext (path_name name))) else None))"

definition include_replacement :: "world \<Rightarrow> string \<Rightarrow> string \<Rightarrow> string" where
  "include_replacement w dir t =
     (let stripped = strip t; is_import = startswith stripped ''#import'' in
      if is_import \<and> list_ex (\<lambda>p. contains p stripped) import_prefixes then []
      else case objc_header_stem w dir stripped of
             Some stem \<Rightarrow> ''#include '' @ dquoted (stem @ ''_ozh.h'') @ [nl]
           | None \<Rightarrow>
               if is_import then str_replace1 ''#import'' ''#include'' stripped @ [nl] else t @ [nl])"

subsection \<open>Declarations and functions of the syntax tree\<close>

definition is_func_prototype :: "ts_node \<Rightarrow> bool" where
  "is_func_prototype n \<longleftrightarrow>
     list_ex (\<lambda>c. ts_type c = ''function_declarator''
       \<or> ts_type c = ''pointer_declarator''
         \<and> list_ex (\<lambda>d. ts_type d = ''function_declarator'') (ts_children c)) (ts_children n)"

definition declarator_name :: "ts_node \<Rightarrow> string option" where
  "declarator_name c =
     first_return (\<lambda>sub.
       if ts_type sub = ''identifier'' then Some (ts_text sub)
       else if ts_type sub = ''pointer_declarator'' then child_text ''identifier'' sub
       else None) (ts_children c)"

definition extract_decl_name :: "ts_node \<Rightarrow> string option" where
  "extract_decl_name n =
     first_return (\<lambda>c.
       if ts_type c = ''identifier'' then Some (ts_text c)
       else if ts_type c \<in> {''pointer_declarator'', ''init_declarator''} then declarator_name c
       else None) (ts_children n)"

definition extract_func_name :: "ts_node \<Rightarrow> string option" where
  "extract_func_name n =
     first_return (\<lambda>c.
       if ts_type c = ''function_declarator'' then child_text ''identifier'' c
       else if ts_type c = ''pointer_declarator''
       then first_return (\<lambda>d. if ts_type d = ''function_declarator'' then child_text ''identifier'' d
              else None) (ts_children c)
       else None) (ts_children n)"

subsection \<open>The file a context is built for\<close>

record file_env =
  fe_world :: world
  fe_path :: string
  fe_module :: oz_module
  fe_classes :: "oz_class list"
  fe_root :: string
  fe_has_item_pool :: bool
  fe_owning :: "(string \<times> string) list"

definition fe_source :: "file_env \<Rightarrow> string" where
  "fe_source f = w_read (fe_world f) (fe_path f)"

definition fe_tree :: "file_env \<Rightarrow> ts_node" where
  "fe_tree f = w_ts_parse (fe_world f) (fe_source f)"

definition class_env :: "file_env \<Rightarrow> oz_class \<Rightarrow> emit_env" where
  "class_env f cls =
     \<lparr>ee_cls = cls, ee_module = fe_module f, ee_root = fe_root f, ee_method = None,
      ee_has_item_pool = fe_has_item_pool f, ee_source = Some (fe_source f), ee_owning = fe_owning f\<rparr>"

definition find_class :: "file_env \<Rightarrow> string \<Rightarrow> oz_class option" where
  "find_class f name = find (\<lambda>c. cl_name c = name) (rev (fe_classes f))"

text \<open>\<open>func_map\<close>: later functions replace earlier ones, those of the module come last.\<close>

definition find_function :: "file_env \<Rightarrow> string \<Rightarrow> oz_function option" where
  "find_function f name =
     find (\<lambda>fn. fn_name fn = name)
       (rev (concat (map cl_functions (fe_classes f)) @ mo_functions (fe_module f)))"

definition find_static_var :: "string \<Rightarrow> oz_class list \<Rightarrow> oz_static_var option" where
  "find_static_var name classes = find (\<lambda>sv. sv_name sv = name) (concat (map cl_statics classes))"

text \<open>The shared state of the walk over a file.\<close>

record file_state =
  fs_context :: "(string, string) dict"
  fs_static_names :: "string list"
  fs_shared :: "string list"
  fs_dedup :: "(string, string) dict"
  fs_errors :: "string list"
  fs_diags :: "string list"

definition put_key :: "string \<Rightarrow> string \<Rightarrow> file_state \<Rightarrow> file_state" where
  "put_key k t fs = fs\<lparr>fs_context := dput k t (fs_context fs)\<rparr>"

definition file_diag :: "string \<Rightarrow> file_state \<Rightarrow> file_state" where
  "file_diag msg fs = fs\<lparr>fs_diags := fs_diags fs @ [msg]\<rparr>"

text \<open>A context of emission for one implementation or function, and what it leaves.\<close>

definition emit_start :: "string list \<Rightarrow> file_state \<Rightarrow> emit_state" where
  "emit_start strings fs = fresh_state
     \<lparr>es_strings := strings, es_dedup := fs_dedup fs, es_errors := fs_errors fs, es_diags := fs_diags fs\<rparr>"

definition emit_done :: "emit_state \<Rightarrow> file_state \<Rightarrow> file_state" where
  "emit_done s fs = fs\<lparr>fs_dedup := es_dedup s, fs_errors := es_errors s, fs_diags := es_diags s\<rparr>"

subsection \<open>_build_impl_context\<close>

definition method_nodes :: "ts_node \<Rightarrow> ts_node list" where
  "method_nodes n = List.map_filter method_def (ts_children n)"

definition find_method :: "oz_class \<Rightarrow> string \<Rightarrow> bool \<Rightarrow> oz_method option" where
  "find_method cls sel is_cm =
     find (\<lambda>me. me_selector me = sel \<and> me_is_class_method me = is_cm) (cl_methods cls)"

definition node_method :: "file_env \<Rightarrow> oz_class \<Rightarrow> ts_node \<Rightarrow> oz_method option" where
  "node_method f cls md = find_method cls (extract_selector (fe_source f) md) (is_class_method md)"

definition method_emitter :: "emit_env \<Rightarrow> oz_method \<Rightarrow> emitter" where
  "method_emitter e me =
     (if me_selector me = ''dealloc'' then emit_user_dealloc e me else method_text e me)"

text \<open>The text for a method of the block; nothing for one the class does not have.\<close>

definition impl_method :: "file_env \<Rightarrow> oz_class \<Rightarrow> ts_node \<Rightarrow> emitter" where
  "impl_method f cls md =
     (let e = class_env f cls in
      case node_method f cls md of
        None \<Rightarrow> out []
      | Some me \<Rightarrow> if skipped_on_root e me then out [] else method_emitter e me)"

fun impl_methods :: "file_env \<Rightarrow> oz_class \<Rightarrow> ts_node list \<Rightarrow> (string, string) dict \<Rightarrow> emit_state
    \<Rightarrow> ((string, string) dict \<times> emit_state) outcome" where
  "impl_methods f cls [] ctx s = Inr (ctx, s)"
| "impl_methods f cls (md # mds) ctx s =
     ebind (impl_method f cls md s) (\<lambda>(t, s').
       impl_methods f cls mds (dput (loc_key md) t ctx) s')"

definition emitted_sels :: "file_env \<Rightarrow> ts_node list \<Rightarrow> (string \<times> bool) list" where
  "emitted_sels f mds = map (\<lambda>md. (extract_selector (fe_source f) md, is_class_method md)) mds"

text \<open>Methods of the class without a node in the block.\<close>

definition missing_methods :: "file_env \<Rightarrow> oz_class \<Rightarrow> ts_node list \<Rightarrow> oz_method list" where
  "missing_methods f cls mds =
     filter (\<lambda>me. (me_selector me, me_is_class_method me) \<notin> set (emitted_sels f mds)
                \<and> \<not> skipped_on_root (class_env f cls) me \<and> me_selector me \<noteq> ''dealloc''
                \<and> (me_synth me \<noteq> None \<or> body_truthy (me_body_ast me))) (cl_methods cls)"

definition has_user_dealloc :: "file_env \<Rightarrow> oz_class \<Rightarrow> ts_node list \<Rightarrow> bool" where
  "has_user_dealloc f cls mds =
     list_ex (\<lambda>md. case node_method f cls md of
                     Some me \<Rightarrow> me_selector me = ''dealloc'' | None \<Rightarrow> False) mds"

definition impl_dealloc :: "file_env \<Rightarrow> oz_class \<Rightarrow> ts_node list \<Rightarrow> string" where
  "impl_dealloc f cls mds =
     (if \<not> has_user_dealloc f cls mds \<and> cl_name cls \<noteq> ''OZSpinLock''
      then auto_dealloc (class_env f cls) else [])"

definition append_key :: "string \<Rightarrow> string \<Rightarrow> (string, string) dict \<Rightarrow> (string, string) dict" where
  "append_key k t d = (case dget d k of Some v \<Rightarrow> dput k (v @ t) d | None \<Rightarrow> d)"

text \<open>The automatic \<open>dealloc\<close> follows the last method; without one it ends the preamble.\<close>

definition attach_dealloc :: "ts_node list \<Rightarrow> string \<Rightarrow> (string, string) dict \<Rightarrow> (string, string) dict" where
  "attach_dealloc mds t d =
     (if t \<noteq> [] \<and> mds \<noteq> [] then append_key (loc_key (last mds)) (nl # t) d else d)"

definition impl_statics :: "oz_class \<Rightarrow> string list \<Rightarrow> string" where
  "impl_statics cls remaining =
     text_lines (map static_decl (filter (\<lambda>sv. sv_name sv \<in> set remaining) (cl_statics cls)))"

definition root_functions :: "emit_env \<Rightarrow> string" where
  "root_functions e =
     (if is_root_class e
      then root_retain_release (cl_name (ee_cls e)) @ root_introspection (cl_name (ee_cls e)) else [])"

definition impl_class :: "file_env \<Rightarrow> ts_node \<Rightarrow> oz_class option" where
  "impl_class f n =
     (case class_name_of n of Some name \<Rightarrow> if name \<noteq> [] then find_class f name else None | None \<Rightarrow> None)"

definition build_class_context :: "file_env \<Rightarrow> oz_class \<Rightarrow> ts_node \<Rightarrow> file_state \<Rightarrow> file_state outcome" where
  "build_class_context f cls n fs =
     (let e = class_env f cls; mds = method_nodes n; auto = impl_dealloc f cls mds in
      ebind (impl_methods f cls mds (fs_context fs) (emit_start [] fs)) (\<lambda>(ctx, s).
      ebind (eseq (concat (map (\<lambda>me. [method_text e me, out [nl]]) (missing_methods f cls mds))) s)
        (\<lambda>(synth, s). Inr
          (put_key (impl_loc_key n)
             (impl_statics cls (fs_static_names fs) @ root_functions e
              @ text_lines (es_strings s) @ concat (map (\<lambda>bf. bf @ [nl, nl]) (es_blocks s))
              @ synth @ (if mds = [] then auto else []))
             ((emit_done s fs)\<lparr>fs_context := attach_dealloc mds auto ctx\<rparr>)))))"

definition build_impl_context :: "file_env \<Rightarrow> ts_node \<Rightarrow> file_state \<Rightarrow> file_state outcome" where
  "build_impl_context f n fs =
     (case impl_class f n of
        Some cls \<Rightarrow> build_class_context f cls n fs
      | None \<Rightarrow>
          let name = (case class_name_of n of Some x \<Rightarrow> x | None \<Rightarrow> []) in
          Inr (put_key (impl_loc_key n) []
            (if name \<noteq> [] then file_diag (''warning: @implementation '' @ name @ '' not found in module'') fs
             else fs)))"

subsection \<open>Functions and declarations\<close>

definition patched_env :: "file_env \<Rightarrow> emit_env" where
  "patched_env f = (class_env f (OZClass ''__patched__'' None))"

text \<open>\<open>_emit_transpiled_function\<close>, with the lists shared by the functions of the file.\<close>

definition transpiled_function :: "file_env \<Rightarrow> oz_function \<Rightarrow> file_state \<Rightarrow> (string \<times> file_state) outcome" where
  "transpiled_function f fn fs =
     ebind (function_text (patched_env f) fn (emit_start (fs_shared fs) fs)) (\<lambda>(t, s).
       Inr (concat (map (\<lambda>bf. bf @ [nl, nl]) (es_blocks s)) @ t,
            (emit_done s fs)\<lparr>fs_shared := es_strings s\<rparr>))"

definition function_context :: "file_env \<Rightarrow> ts_node \<Rightarrow> file_state \<Rightarrow> file_state outcome" where
  "function_context f n fs =
     (let name = (case extract_func_name n of Some x \<Rightarrow> x | None \<Rightarrow> []);
          func = (if name \<noteq> [] then find_function f name else None);
          text' = node_src (fe_source f) n
      in case func of
           None \<Rightarrow> Inr (put_key (loc_key n) text' fs)
         | Some fn \<Rightarrow>
             if body_truthy (fn_body_ast fn) \<and> fn_has_objc fn
             then ebind (transpiled_function f fn fs) (\<lambda>(t, fs). Inr
               (file_diag (''info: function '' @ quoted name @ '' transpiled (contains ObjC)'')
                  (put_key (loc_key n) t fs)))
             else Inr ((if body_truthy (fn_body_ast fn)
                        then file_diag (''info: function '' @ quoted name @ '' preserved verbatim (pure C)'')
                        else id) (put_key (loc_key n) text' fs)))"

definition drop_static :: "string \<Rightarrow> file_state \<Rightarrow> file_state" where
  "drop_static name fs = fs\<lparr>fs_static_names := removeAll name (fs_static_names fs)\<rparr>"

definition declaration_context :: "file_env \<Rightarrow> ts_node \<Rightarrow> file_state \<Rightarrow> file_state" where
  "declaration_context f n fs =
     (let text' = node_src (fe_source f) n;
          name = (case extract_decl_name n of Some x \<Rightarrow> x | None \<Rightarrow> [])
      in if is_func_prototype n then put_key (loc_key n) [] fs
         else if name \<noteq> [] \<and> name \<in> set (fs_static_names fs)
         then (case find_static_var name (fe_classes f) of
                 Some sv \<Rightarrow>
                   if is_object (sv_type sv)
                   then file_diag (''info: static '' @ quoted name @ '' transpiled (ObjC type)'')
                          (drop_static name (put_key (loc_key n) (static_decl sv) fs))
                   else put_key (loc_key n) text'
                          (file_diag (''info: static '' @ quoted name @ '' preserved verbatim (pure C)'')
                             (drop_static name fs))
               | None \<Rightarrow> put_key (loc_key n) text' fs)
         else put_key (loc_key n) text' fs)"

subsection \<open>build_source_context\<close>

definition node_context :: "file_env \<Rightarrow> ts_node \<Rightarrow> file_state \<Rightarrow> file_state outcome" where
  "node_context f n fs =
     (let ty = ts_type n in
      if ty \<in> set impl_types then build_impl_context f n fs
      else if ty = ''preproc_include''
      then Inr (put_key (loc_key n)
             (strip (include_replacement (fe_world f) (path_parent (fe_path f)) (node_src (fe_source f) n))) fs)
      else if ty = ''function_definition'' then function_context f n fs
      else if ty = ''declaration'' then Inr (declaration_context f n fs)
      else Inr fs)"

definition file_start :: "file_env \<Rightarrow> string list \<Rightarrow> string list \<Rightarrow> string list \<Rightarrow> file_state" where
  "file_start f extra_static_names errs diags =
     \<lparr>fs_context = [],
      fs_static_names = add_all_new (map sv_name (concat (map cl_statics (fe_classes f)))) extra_static_names,
      fs_shared = [], fs_dedup = [], fs_errors = errs, fs_diags = diags\<rparr>"

definition build_source_context ::
  "file_env \<Rightarrow> string list \<Rightarrow> string list \<Rightarrow> string list \<Rightarrow> file_state outcome" where
  "build_source_context f extra_static_names errs diags =
     efold (node_context f) (ts_children (fe_tree f)) (file_start f extra_static_names errs diags)"

end
