(* ===== verification/Patched.thy ===== *)
theory Patched
  imports Context
begin

text \<open>
  The source files made from a template of the original source
  (\<open>_emit_patched_source\<close> and \<open>_emit_patched_orphan_source\<close> of
  \<open>tools/oz_transpile/emit.py\<close>). Rendering a template string is a parameter, a function from
  template and context to the text or to an exception of the engine.
\<close>

type_synonym engine = "string \<Rightarrow> (string, string) dict \<Rightarrow> string option"

definition rendered :: "engine \<Rightarrow> string \<Rightarrow> (string, string) dict \<Rightarrow> string outcome" where
  "rendered render template ctx =
     (case render template ctx of Some t \<Rightarrow> Inr t | None \<Rightarrow> Inl TemplateErr)"

subsection \<open>Includes that the preamble has already\<close>

definition ozh_include :: "string \<Rightarrow> string" where
  "ozh_include stem = ''#include '' @ dquoted (stem @ ''_ozh.h'')"

definition normalize_include :: "string \<Rightarrow> string" where
  "normalize_include s =
     (let s = strip s in if startswith s ''#include'' then ''#include '' @ lstrip (drop 8 s) else s)"

definition filter_include :: "string \<times> string
    \<Rightarrow> string list \<times> (string, string) dict \<Rightarrow> string list \<times> (string, string) dict" where
  "filter_include entry acc =
     (let stripped = strip (snd entry); normalized = normalize_include stripped in
      if startswith stripped ''#include''
      then if normalized \<in> set (fst acc) then (fst acc, dput (fst entry) [] (snd acc))
           else (normalized # fst acc, snd acc)
      else acc)"

definition filter_includes :: "string list \<Rightarrow> (string, string) dict \<Rightarrow> (string, string) dict" where
  "filter_includes emitted ctx = snd (fold filter_include ctx (emitted, ctx))"

subsection \<open>The preamble\<close>

definition ozh_lines :: "string list \<Rightarrow> string" where
  "ozh_lines stems = text_lines (map ozh_include stems)"

definition type_def_text :: "string list \<Rightarrow> string" where
  "type_def_text tds = concat (map (\<lambda>td. nl # td @ [nl]) tds)"

definition source_type_defs :: "oz_module \<Rightarrow> string \<Rightarrow> string list" where
  "source_type_defs m t = scan_source_type_defs [t] (type_def_constant_map m) (all_header_type_defs m)"

definition slab_text :: "(string \<Rightarrow> int) \<Rightarrow> oz_class \<Rightarrow> string" where
  "slab_text pool_count cls =
     (let pc = pool_count (cl_name cls); pc = (if pc < 1 then 1 else pc)
      in nl # ''OZ_SLAB_DEFINE(oz_slab_'' @ cl_name cls @ '', sizeof(struct '' @ cl_name cls @ ''), ''
         @ str_of_int pc @ '', 4);'' @ [nl])"

definition shared_text :: "string list \<Rightarrow> string" where
  "shared_text shared = (if shared = [] then [] else nl # text_lines shared)"

definition auto_generated :: string where
  "auto_generated = ''/* Auto-generated by oz_transpile -- do not edit */''"

subsection \<open>_emit_patched_source\<close>

definition patched_deps :: "oz_module \<Rightarrow> oz_class list \<Rightarrow> string \<Rightarrow> string list" where
  "patched_deps m classes stem = sort (remdups (concat (map (\<lambda>c. dep_includes m stem) classes)))"

definition patched_source ::
  "engine \<Rightarrow> file_env \<Rightarrow> string \<Rightarrow> (string \<Rightarrow> int) \<Rightarrow> string list \<Rightarrow> string list
   \<Rightarrow> (string \<times> file_state) outcome" where
  "patched_source render f stem pool_count errs diags =
     (let m = fe_module f; deps = patched_deps m (fe_classes f) stem;
          template = extract_template (fe_source f) (fe_tree f)
      in ebind (build_source_context f [] errs diags) (\<lambda>fs.
         ebind (rendered render template
                  (filter_includes (map ozh_include (stem # deps)) (fs_context fs))) (\<lambda>t.
         Inr (text_lines [auto_generated] @ ozh_lines (stem # deps)
              @ type_def_text (source_type_defs m t)
              @ concat (map (slab_text pool_count) (fe_classes f))
              @ shared_text (fs_shared fs) @ t, fs))))"

subsection \<open>_emit_patched_orphan_source\<close>

text \<open>\<open>re.sub(r'(?<!\w)(?<!struct )' + re.escape(cls) + r'(?=\s*\*)', 'struct ' + cls, val)\<close>.\<close>

definition names_class_at :: "string \<Rightarrow> string \<Rightarrow> string \<Rightarrow> bool" where
  "names_class_at cls before rest \<longleftrightarrow>
     startswith rest cls \<and> \<not> (before \<noteq> [] \<and> is_word_char (hd before))
     \<and> \<not> startswith before (rev ''struct '')
     \<and> startswith (lstrip (drop (length cls) rest)) ''*''"

function struct_class :: "string \<Rightarrow> string \<Rightarrow> string \<Rightarrow> string" where
  "struct_class cls before [] = []"
| "struct_class cls before (c # cs) =
     (if cls \<noteq> [] \<and> names_class_at cls before (c # cs)
      then ''struct '' @ cls @ struct_class cls (rev cls @ before) (drop (length cls) (c # cs))
      else c # struct_class cls (c # before) cs)"
  by pat_completeness auto
termination
  by (relation "measure (\<lambda>(cls, before, s). length s)") auto

declare struct_class.simps [simp del]

text \<open>The set of class names is walked in the order of the table.\<close>

definition struct_classes :: "oz_module \<Rightarrow> string \<Rightarrow> string" where
  "struct_classes m val =
     fold (\<lambda>cls v. if contains cls v then struct_class cls [] v else v) (dkeys (mo_classes m)) val"

definition orphan_deps :: "oz_module \<Rightarrow> string list" where
  "orphan_deps m = sort (remdups (map header_stem (dvals (mo_classes m))))"

definition orphan_file :: "world \<Rightarrow> oz_module \<Rightarrow> orphan_source \<Rightarrow> string \<Rightarrow> string
    \<Rightarrow> (string \<times> string) list \<Rightarrow> file_env" where
  "orphan_file w m osrc path root owning =
     \<lparr>fe_world = w, fe_path = path, fe_module = m\<lparr>mo_functions := os_functions osrc\<rparr>,
      fe_classes = [], fe_root = root, fe_has_item_pool = False, fe_owning = owning\<rparr>"

definition patched_orphan_source ::
  "engine \<Rightarrow> file_env \<Rightarrow> orphan_source \<Rightarrow> string list \<Rightarrow> string list
   \<Rightarrow> (string \<times> file_state) outcome" where
  "patched_orphan_source render f osrc errs diags =
     (let m = fe_module f; deps = orphan_deps m;
          template = extract_template (fe_source f) (fe_tree f);
          dispatch = ''#include '' @ dquoted ''oz_dispatch.h''
      in ebind (build_source_context f (map sv_name (os_statics osrc)) errs diags) (\<lambda>fs.
         ebind (rendered render template (map_vals (struct_classes m)
                  (filter_includes (dispatch # map ozh_include deps) (fs_context fs)))) (\<lambda>t.
         Inr (text_lines [auto_generated, dispatch] @ ozh_lines deps
              @ type_def_text (source_type_defs m t)
              @ text_lines (map static_decl (os_statics osrc))
              @ shared_text (fs_shared fs) @ t, fs))))"

end
