(* ===== verification/Emitter.thy ===== *)
theory Emitter
  imports Patched
begin

text \<open>
  \<open>emit\<close> of \<open>tools/oz_transpile/emit.py\<close>: the generated files with their contents, in the
  order the code writes them, and the logs of the module afterwards. The template engine
  applied to the templates of the repository is a parameter (\<open>templates\<close>).
\<close>

record templates =
  tp_dispatch_header :: "dispatch_header \<Rightarrow> string option"
  tp_dispatch_source :: "dispatch_source \<Rightarrow> string option"
  tp_class_header :: "class_header \<Rightarrow> string option"
  tp_class_source :: "class_source \<Rightarrow> string option"
  tp_orphan_source :: "orphan_ctx \<Rightarrow> string option"
  tp_engine :: engine

definition applied :: "('c \<Rightarrow> string option) \<Rightarrow> 'c \<Rightarrow> string outcome" where
  "applied template ctx = (case template ctx of Some t \<Rightarrow> Inr t | None \<Rightarrow> Inl TemplateErr)"

text \<open>The arguments of \<open>emit\<close> and what it computes before it writes a file.\<close>

record emit_job =
  ej_world :: world
  ej_templates :: templates
  ej_module :: oz_module
  ej_outdir :: string
  ej_root :: string
  ej_pool_sizes :: "(string, int) dict"
  ej_heap_support :: bool
  ej_owning :: "(string \<times> string) list"
  ej_auto_counts :: "(string, nat) dict"
  ej_item_pool_count :: int

definition emit_job_of ::
  "world \<Rightarrow> templates \<Rightarrow> oz_module \<Rightarrow> string \<Rightarrow> (string, int) dict \<Rightarrow> string \<Rightarrow> int option \<Rightarrow> bool \<Rightarrow> emit_job" where
  "emit_job_of w tps m outdir pool_sizes root item_pool_size heap_support =
     (let m = prepare_module root m in
      \<lparr>ej_world = w, ej_templates = tps, ej_module = m, ej_outdir = outdir, ej_root = root,
       ej_pool_sizes = pool_sizes, ej_heap_support = heap_support,
       ej_owning = find_owning_return_methods m, ej_auto_counts = count_alloc_calls m,
       ej_item_pool_count =
         (case item_pool_size of Some n \<Rightarrow> n | None \<Rightarrow> int (count_item_slots m))\<rparr>)"

definition has_item_pool :: "emit_job \<Rightarrow> bool" where
  "has_item_pool j \<longleftrightarrow> 0 < ej_item_pool_count j"

definition pool_count_for :: "emit_job \<Rightarrow> string \<Rightarrow> int" where
  "pool_count_for j cls =
     (case dget (ej_pool_sizes j) cls of
        Some n \<Rightarrow> n
      | None \<Rightarrow> int (max (dget_or (ej_auto_counts j) cls 0) 1))"

definition foundation_dir :: "emit_job \<Rightarrow> string" where
  "foundation_dir j = path_join (ej_outdir j) ''Foundation''"

type_synonym logs = "string list \<times> string list"
type_synonym out_file = "string \<times> string"

subsection \<open>Dispatch files\<close>

definition dispatch_files :: "emit_job \<Rightarrow> out_file list outcome" where
  "dispatch_files j =
     (let m = ej_module j; n = ej_item_pool_count j; dir = foundation_dir j in
      ebind (dispatch_header_ctx m (ej_root j) n) (\<lambda>h.
      ebind (applied (tp_dispatch_header (ej_templates j)) h) (\<lambda>ht.
      ebind (dispatch_source_ctx m (ej_root j) n (ej_heap_support j)) (\<lambda>d.
      ebind (applied (tp_dispatch_source (ej_templates j)) d) (\<lambda>dt.
      Inr [(path_join dir ''oz_dispatch.h'', ht), (path_join dir ''oz_dispatch.c'', dt)])))))"

subsection \<open>Class files\<close>

definition stem_groups :: "oz_module \<Rightarrow> (string, oz_class list) dict" where
  "stem_groups m =
     fold (\<lambda>c d. dput (header_stem c) (dget_or d (header_stem c) [] @ [c]) d) (dvals (mo_classes m)) []"

definition header_text :: "emit_job \<Rightarrow> string \<Rightarrow> oz_class \<Rightarrow> string outcome" where
  "header_text j stem cls =
     ebind (class_header_ctx (ej_module j) (ej_root j) cls stem (ej_item_pool_count j) (ej_heap_support j))
       (applied (tp_class_header (ej_templates j)))"

definition template_env :: "emit_job \<Rightarrow> oz_class \<Rightarrow> emit_env" where
  "template_env j cls =
     \<lparr>ee_cls = cls, ee_module = ej_module j, ee_root = ej_root j, ee_method = None,
      ee_has_item_pool = has_item_pool j, ee_source = None, ee_owning = ej_owning j\<rparr>"

text \<open>The classes of one file share the table of string literals.\<close>

fun class_parts :: "emit_job \<Rightarrow> string \<Rightarrow> oz_class list \<Rightarrow> (string, string) dict \<Rightarrow> logs
    \<Rightarrow> (string list \<times> logs) outcome" where
  "class_parts j stem [] dedup l = Inr ([], l)"
| "class_parts j stem (c # cs) dedup l =
     ebind (class_source_ctx (template_env j c) stem (pool_count_for j (cl_name c))
              (fresh_state\<lparr>es_dedup := dedup, es_errors := fst l, es_diags := snd l\<rparr>)) (\<lambda>(ctx, s).
     ebind (applied (tp_class_source (ej_templates j)) ctx) (\<lambda>t.
     ebind (class_parts j stem cs (es_dedup s) (es_errors s, es_diags s)) (\<lambda>(ts, l).
     Inr (t # ts, l))))"

definition class_file :: "emit_job \<Rightarrow> oz_class list \<Rightarrow> string \<Rightarrow> file_env" where
  "class_file j classes path =
     \<lparr>fe_world = ej_world j, fe_path = path, fe_module = ej_module j, fe_classes = classes,
      fe_root = ej_root j, fe_has_item_pool = has_item_pool j, fe_owning = ej_owning j\<rparr>"

definition is_foundation_group :: "oz_class list \<Rightarrow> bool" where
  "is_foundation_group classes \<longleftrightarrow> list_all cl_is_foundation classes"

text \<open>The original source of a stem, when its file is rewritten from it.\<close>

definition patched_path :: "emit_job \<Rightarrow> string \<Rightarrow> oz_class list \<Rightarrow> string option" where
  "patched_path j stem classes =
     (case dget (mo_source_paths (ej_module j)) stem of
        Some p \<Rightarrow> if \<not> is_foundation_group classes \<and> w_is_file (ej_world j) p then Some p else None
      | None \<Rightarrow> None)"

definition source_text :: "emit_job \<Rightarrow> string \<Rightarrow> oz_class list \<Rightarrow> logs \<Rightarrow> (string \<times> logs) outcome" where
  "source_text j stem classes l =
     (case patched_path j stem classes of
        Some p \<Rightarrow>
          ebind (patched_source (tp_engine (ej_templates j)) (class_file j classes p) stem
                   (pool_count_for j) (fst l) (snd l))
            (\<lambda>(t, fs). Inr (t, (fs_errors fs, fs_diags fs)))
      | None \<Rightarrow>
          ebind (class_parts j stem classes [] l) (\<lambda>(ts, l). Inr (str_join [nl] ts, l)))"

definition stem_files :: "emit_job \<Rightarrow> string \<times> oz_class list \<Rightarrow> out_file list \<times> logs
    \<Rightarrow> (out_file list \<times> logs) outcome" where
  "stem_files j entry acc =
     (let stem = fst entry; classes = snd entry;
          dest = (if is_foundation_group classes then foundation_dir j else ej_outdir j)
      in ebind (emap (header_text j stem) classes) (\<lambda>hs.
         ebind (source_text j stem classes (snd acc)) (\<lambda>(t, l).
         Inr (fst acc @ [(path_join dest (stem @ ''_ozh.h''), str_join [nl] hs),
                         (path_join dest (stem @ ''_ozm.c''), t)], l))))"

subsection \<open>Orphan files\<close>

definition orphan_template_text :: "emit_job \<Rightarrow> orphan_source \<Rightarrow> logs \<Rightarrow> (string \<times> logs) outcome" where
  "orphan_template_text j osrc l =
     ebind (orphan_source_ctx osrc (ej_module j) (ej_root j) (ej_owning j)
              (fresh_state\<lparr>es_errors := fst l, es_diags := snd l\<rparr>)) (\<lambda>(ctx, s).
     ebind (applied (tp_orphan_source (ej_templates j)) ctx) (\<lambda>t.
     Inr (t, (es_errors s, es_diags s))))"

definition orphan_text :: "emit_job \<Rightarrow> orphan_source \<Rightarrow> logs \<Rightarrow> (string \<times> logs) outcome" where
  "orphan_text j osrc l =
     (case os_source_path osrc of
        Some p \<Rightarrow>
          if w_is_file (ej_world j) p
          then ebind (patched_orphan_source (tp_engine (ej_templates j))
                        (orphan_file (ej_world j) (ej_module j) osrc p (ej_root j) (ej_owning j))
                        osrc (fst l) (snd l))
                 (\<lambda>(t, fs). Inr (t, (fs_errors fs, fs_diags fs)))
          else orphan_template_text j osrc l
      | None \<Rightarrow> orphan_template_text j osrc l)"

definition orphan_files :: "emit_job \<Rightarrow> orphan_source \<Rightarrow> out_file list \<times> logs
    \<Rightarrow> (out_file list \<times> logs) outcome" where
  "orphan_files j osrc acc =
     ebind (orphan_text j osrc (snd acc)) (\<lambda>(t, l).
       Inr (fst acc @ [(path_join (ej_outdir j) (os_stem osrc @ ''_ozm.c''), t)], l))"

subsection \<open>emit\<close>

definition emit_files :: "emit_job \<Rightarrow> (out_file list \<times> logs) outcome" where
  "emit_files j =
     (let m = ej_module j in
      ebind (dispatch_files j) (\<lambda>fs.
      ebind (efold (stem_files j) (stem_groups m) (fs, (mo_errors m, mo_diagnostics m))) (\<lambda>acc.
      efold (orphan_files j) (mo_orphan_sources m) acc)))"

end
