(* ===== verification/Driver.thy ===== *)
theory Driver
  imports Front_End Emitter
begin

text \<open>
  The whole of \<open>main\<close> of \<open>tools/oz_transpile/__main__.py\<close>: after the front end the emitter
  runs, errors and diagnostics it added decide the exit code, and the progress and the
  manifest are written. The result holds the exit code, the text on the error stream, the
  generated files and the manifest.
\<close>

record main_args = cli_args +
  ma_outdir :: string
  ma_manifest :: string
  ma_root_class :: string
  ma_pool_sizes :: string
  ma_item_pool_size :: "int option"
  ma_heap_support :: bool

record main_result =
  mr_code :: nat
  mr_stderr :: string
  mr_files :: "out_file list"
  mr_manifest :: "string option"

definition stopped :: "string list \<Rightarrow> out_file list \<Rightarrow> main_result" where
  "stopped lines' files =
     \<lparr>mr_code = 1, mr_stderr = text_lines lines', mr_files = files, mr_manifest = None\<rparr>"

text \<open>\<open>"\r\033[K"\<close>.\<close>

definition clear_line :: string where
  "clear_line = [CHR 0x0D, CHR 0x1B] @ ''[K''"

definition progress_line :: "nat \<Rightarrow> nat \<times> out_file \<Rightarrow> string" where
  "progress_line n entry =
     ''oz_transpile: ['' @ str_of_nat (fst entry) @ ''/'' @ str_of_nat n @ ''] ''
     @ path_name (fst (snd entry))"

definition progress :: "main_args \<Rightarrow> bool \<Rightarrow> out_file list \<Rightarrow> string" where
  "progress a is_tty files =
     (let count = length files; entries = zip [1..<Suc count] files;
          summary = ''oz_transpile: '' @ str_of_nat count @ '' files generated in '' @ ma_outdir a
      in if is_tty
         then concat (map (\<lambda>x. clear_line @ progress_line count x) entries) @ clear_line @ summary @ [nl]
         else (if ca_verbose a then text_lines (map (progress_line count) entries) else [])
              @ text_lines [summary])"

text \<open>What happens with the logs after the emitter: errors first, then the new diagnostics.\<close>

definition back_verdict ::
  "main_args \<Rightarrow> bool \<Rightarrow> string list \<Rightarrow> nat \<Rightarrow> out_file list \<times> logs \<Rightarrow> main_result" where
  "back_verdict a is_tty warned old r =
     (let files = fst r; errors = fst (snd r); new_diags = drop old (snd (snd r));
          lines' = warned @ map warning_line new_diags
      in if errors \<noteq> [] then stopped (warned @ map error_line errors) files
         else if new_diags \<noteq> [] \<and> ca_strict a then stopped lines' files
         else \<lparr>mr_code = 0, mr_stderr = text_lines lines' @ progress a is_tty files, mr_files = files,
               mr_manifest = (if ma_manifest a \<noteq> [] then Some (text_lines (map fst files)) else None)\<rparr>)"

definition run_emit ::
  "world \<Rightarrow> templates \<Rightarrow> main_args \<Rightarrow> bool \<Rightarrow> oz_module \<Rightarrow> string list \<Rightarrow> main_result outcome" where
  "run_emit w tps a is_tty m warned =
     ebind (parse_pool_sizes (ma_pool_sizes a)) (\<lambda>pool_sizes.
     ebind (emit_files (emit_job_of w tps m (ma_outdir a) pool_sizes (ma_root_class a)
              (ma_item_pool_size a) (ma_heap_support a))) (\<lambda>r.
     Inr (back_verdict a is_tty warned (length (mo_diagnostics m)) r)))"

definition main :: "world \<Rightarrow> templates \<Rightarrow> main_args \<Rightarrow> bool \<Rightarrow> json list \<Rightarrow> main_result outcome" where
  "main w tps a is_tty asts =
     ebind (front_end w (cli_args.truncate a) asts) (\<lambda>r.
       case r of
         Failed lines' \<Rightarrow> Inr (stopped lines' [])
       | Ready m warned \<Rightarrow> run_emit w tps a is_tty m warned)"

end
