(* ===== verification/Emit_Dispatch_Facts.thy ===== *)
theory Emit_Dispatch_Facts
  imports Emit_Dispatch Emit_Lookup_Facts
begin

text \<open>
  Properties of the dispatch tables and of the counts the emitter makes of the bodies.
\<close>

subsection \<open>Vtables\<close>

lemma find_first_return: "first_return (\<lambda>x. if P x then Some x else None) xs = find P xs"
  by (induction xs) auto

lemma implementing_class:
  assumes "class_line m c = Some line" and "sel \<noteq> ''dealloc''"
  shows "find_implementing_class c sel m = Inr (find (declares sel) line)"
  using assms(2) climb_until_line [OF assms(1) [unfolded class_line_def],
      of "\<lambda>cur. if declares sel cur then Some cur else None"]
  by (simp add: find_implementing_class_def find_first_return)

lemma emap_concat:
  assumes "\<And>x. x \<in> set xs \<Longrightarrow> f x = Inr (g x)"
  shows "ebind (emap f xs) (\<lambda>yss. Inr (concat yss)) = Inr (concat (map g xs))"
  using emap_total [of xs f g] assms by simp

definition line_of :: "oz_module \<Rightarrow> oz_class \<Rightarrow> oz_class list" where
  "line_of m c = the (class_line m c)"

lemma implementers:
  assumes "acyclic_module m" and "sel \<noteq> ''dealloc''"
  shows "implementers_of m sel = Inr (concat (map (\<lambda>c.
           case find (declares sel) (line_of m c) of Some i \<Rightarrow> [(c, i)] | None \<Rightarrow> []) (classes_by_id m)))"
  unfolding implementers_of_def
proof (rule emap_concat)
  fix c
  obtain line where "class_line m c = Some line" using class_line_ends [OF assms(1)] .
  with implementing_class [OF this assms(2)]
  show "ebind (find_implementing_class c sel m)
          (\<lambda>r. Inr (case r of None \<Rightarrow> [] | Some i \<Rightarrow> [(c, i)]))
      = Inr (case find (declares sel) (line_of m c) of None \<Rightarrow> [] | Some i \<Rightarrow> [(c, i)])"
    by (simp add: line_of_def split: option.splits)
qed

lemma set_classes_by_id: "set (classes_by_id m) = set (dvals (mo_classes m))"
  by (simp add: classes_by_id_def)



subsection \<open>The two halves of the dispatch tables agree\<close>

lemma emap_map:
  "emap f xs = Inr ys \<Longrightarrow> (\<And>x y. f x = Inr y \<Longrightarrow> g x = Inr (h y)) \<Longrightarrow> emap g xs = Inr (map h ys)"
  by (induction xs arbitrary: ys) (auto simp: ebind_Inr_iff)

lemma emap_map_eq:
  "emap f xs = Inr ys \<Longrightarrow> (\<And>x y. f x = Inr y \<Longrightarrow> g y = h x) \<Longrightarrow> map g ys = map h xs"
  by (induction xs arbitrary: ys) (auto simp: ebind_Inr_iff)

lemma map_sort_key: "map f (sort_key f xs) = sort (map f xs)"
proof -
  have "map f (insort_key f x xs) = insort (f x) (map f xs)" for x xs by (induction xs) auto
  then show ?thesis by (induction xs) (simp_all add: sort_key_def)
qed

definition entries_of_vtable :: "vtable_sel \<Rightarrow> impl_entry list" where
  "entries_of_vtable vt = map (\<lambda>(cls, impl).
     \<lparr>ie_cls_name = cls, ie_c_sel = vt_c_sel vt, ie_impl_name = impl\<rparr>) (vt_entries vt)"



subsection \<open>Counts\<close>

text \<open>
  The count of allocations of a class is the number of nodes, in all bodies of the module,
  that allocate an object of the class.
\<close>

theorem count_alloc_calls_exact:
  "dget_or (count_alloc_calls m) cls 0
   = length (filter (\<lambda>node. allocates node = Some cls) (concat (map nodes (module_bodies m))))"
proof -
  have "dget_or (fold tally ns d) cls 0
      = dget_or d cls 0 + length (filter (\<lambda>node. allocates node = Some cls) ns)" for ns d
    by (induction ns arbitrary: d) (auto simp: tally_def split: option.splits)
  from this [of _ "[]"] show ?thesis by (simp add: count_alloc_calls_def)
qed

end
