(* ===== verification/Emitter_Facts.thy ===== *)
theory Emitter_Facts
  imports Emitter Emit_Dispatch_Facts
begin

text \<open>
  The generated files: which there are and in which order, that emitting them ends, and that
  no error or diagnostic is lost on the way.
\<close>

subsection \<open>Emission of methods and functions\<close>

text \<open>
  What is needed of a property of emission to carry it from bodies to methods, functions and
  deallocation: it survives the resets between bodies. \<open>body_ok\<close> holds of the bodies that have
  the property in an environment.
\<close>

definition keeps_logs :: "(emit_state \<Rightarrow> emit_state) \<Rightarrow> bool" where
  "keeps_logs f \<longleftrightarrow> (\<forall>s. es_errors (f s) = es_errors s \<and> es_diags (f s) = es_diags s)"

lemma resets_keep_logs: "keeps_logs reset_method" "keeps_logs reset_function" "keeps_logs reset_dealloc"
  by (simp_all add: keeps_logs_def reset_method_def reset_function_def reset_dealloc_def)

locale class_emission = emitter_rel E strict
  for E :: "emitter \<Rightarrow> emitter \<Rightarrow> bool" and strict :: bool +
  fixes env_ok :: "emit_env \<Rightarrow> bool" and body_ok :: "emit_env \<Rightarrow> json \<Rightarrow> bool"
  assumes resets: "keeps_logs f \<Longrightarrow> E (upd f) (upd f)"
    and bodies: "env_ok e \<Longrightarrow> body_ok e b \<Longrightarrow>
      E (emit_body (body_fuel b) e ps b) (emit_body (body_fuel b) e ps b)"
    and stmts: "env_ok e \<Longrightarrow> body_ok e b \<Longrightarrow> c \<in> set (jinner b) \<Longrightarrow>
      E (emit_stmt (body_fuel b) e c i) (emit_stmt (body_fuel b) e c i)"
    and env_method: "env_ok e \<Longrightarrow> env_ok (e\<lparr>ee_method := me\<rparr>)"
    and body_method: "body_ok e b \<Longrightarrow> body_ok (e\<lparr>ee_method := me\<rparr>) b"
    and locks: "env_ok e \<Longrightarrow> strict \<Longrightarrow> self_lock_chain cls (ee_module e) \<noteq> Inl Diverges"
begin

lemma optional_bodies:
  "env_ok e \<Longrightarrow> (\<And>b'. b = Some b' \<Longrightarrow> body_ok e b') \<Longrightarrow> E (body_or_empty e ps b) (body_or_empty e ps b)"
  unfolding body_or_empty_def by (intro rules bodies) (auto simp: body_truthy_def split: option.splits)

lemma method_texts:
  "env_ok e \<Longrightarrow> (\<And>b. me_body_ast me = Some b \<Longrightarrow> body_ok e b) \<Longrightarrow> E (method_text e me) (method_text e me)"
  unfolding method_text_def
  by (intro rules lifts resets resets_keep_logs optional_bodies env_method body_method)
     (use locks in \<open>auto simp: synthesized_accessor_def ebind_Inl_iff\<close>)

lemma function_texts:
  "env_ok e \<Longrightarrow> (\<And>b. fn_body_ast fn = Some b \<Longrightarrow> body_ok e b) \<Longrightarrow> E (function_text e fn) (function_text e fn)"
  unfolding function_text_def
  by (intro rules resets resets_keep_logs optional_bodies env_method body_method) auto

lemma dealloc_texts:
  "env_ok e \<Longrightarrow> (\<And>b. me_body_ast me = Some b \<Longrightarrow> body_ok e b) \<Longrightarrow>
   E (emit_user_dealloc e me) (emit_user_dealloc e me)"
  unfolding emit_user_dealloc_def user_dealloc_stmts_def
  by (intro rules resets resets_keep_logs stmts env_method body_method)
     (auto simp: body_truthy_def split: option.splits)

end

subsection \<open>The logs grow\<close>

definition logs_grow :: "emit_state \<Rightarrow> emit_state \<Rightarrow> bool" where
  "logs_grow s s' \<longleftrightarrow>
     (\<exists>errs. es_errors s' = es_errors s @ errs) \<and> (\<exists>diags. es_diags s' = es_diags s @ diags)"

interpretation logs: state_preorder logs_grow
  by unfold_locales (auto simp: logs_grow_def)

lemma grows_logs: "grows s s' \<Longrightarrow> logs_grow s s'"
  by (auto simp: grows_def logs_grow_def)

interpretation logging: class_emission "\<lambda>a _. relates logs_grow a" False "\<lambda>e. True" "\<lambda>e b. True"
proof
  show "relates logs_grow (upd f)" if "keeps_logs f" for f
    using that by (simp add: relates_def emit_defs keeps_logs_def logs_grow_def)
  have "relates same_scopes (emit_body n e ps b)" for n e ps b
    by (rule kept.body_related) (use emission_keeps in blast)
  then show "relates logs_grow (emit_body (body_fuel b) e ps b)" for e ps b
    by (auto simp: relates_def same_scopes_def intro: grows_logs)
  have "relates adds_to_scope (emit_stmt n e c i)" for n e c i using emission_keeps by blast
  then show "relates logs_grow (emit_stmt (body_fuel b) e c i)" for e b c i
    by (auto simp: relates_def adds_to_scope_def intro: grows_logs)
qed auto

lemma texts_log:
  "relates logs_grow (method_text e me)" "relates logs_grow (function_text e fn)"
  "relates logs_grow (emit_user_dealloc e me)"
  by (rule logging.method_texts logging.function_texts logging.dealloc_texts; simp)+

subsection \<open>Emission of methods ends\<close>

definition acyclic_env :: "emit_env \<Rightarrow> bool" where
  "acyclic_env e \<longleftrightarrow> acyclic_module (ee_module e)"

lemma macro_safe_cong: "ee_source e = ee_source e' \<Longrightarrow> macro_safe e b \<longleftrightarrow> macro_safe e' b"
  by (simp add: macro_safe_def looping_def expr_macro_def)

interpretation class_ends: class_emission "\<lambda>a _. ends a" True acyclic_env macro_safe
proof
  show "ends (emit_body (body_fuel b) e ps b)" if "acyclic_env e" "macro_safe e b" for e ps b
    using that by (intro body_ends) (simp_all add: acyclic_env_def body_fuel_def)
  show "ends (emit_stmt (body_fuel b) e c i)"
    if "acyclic_env e" "macro_safe e b" "c \<in> set (jinner b)" for e b c i
    using that emission_ends [of e c "body_fuel b"] size_jinner [of c b]
      macro_safe_beneath [OF that(2) child_beneath [OF that(3)]]
    by (simp add: acyclic_env_def body_fuel_def)
  show "macro_safe (e\<lparr>ee_method := me\<rparr>) b" if "macro_safe e b" for e me b
    using that macro_safe_cong [of "e\<lparr>ee_method := me\<rparr>" e b] by simp
qed (use lookups_end in \<open>auto simp: acyclic_env_def intro: ends_upd\<close>)

text \<open>An environment in which every body is safe.\<close>

definition plain_env :: "emit_env \<Rightarrow> bool" where
  "plain_env e \<longleftrightarrow> acyclic_module (ee_module e) \<and> ee_source e = None"

lemma plain_ends:
  assumes "plain_env e"
  shows "ends (method_text e me)" "ends (function_text e fn)" "ends (emit_user_dealloc e me)"
  using assms no_source_safe
  by (auto simp: plain_env_def acyclic_env_def
      intro!: class_ends.method_texts class_ends.function_texts class_ends.dealloc_texts)

subsection \<open>Contexts of class and orphan sources\<close>

lemma class_bodies_log: "class_bodies e mes acc s = Inr (r, s') \<Longrightarrow> logs_grow s s'"
proof (induction mes arbitrary: acc s)
  case (Cons me mes)
  have "logs_grow s u" if "emit_user_dealloc e me s = Inr (t, u) \<or> method_text e me s = Inr (t, u)" for t u
    using that texts_log [THEN relatesD] by blast
  with Cons show ?case
    by (auto simp: ebind_Inr_iff split: if_splits) (blast intro: logs.R_trans)+
qed (auto intro: logs.R_refl)

lemma class_bodies_end: "plain_env e \<Longrightarrow> class_bodies e mes acc s \<noteq> Inl Diverges"
  using plain_ends
  by (induction mes arbitrary: acc s) (auto simp: ebind_Inl_iff ends_def)

lemma function_bodies_log: "function_bodies e fs s = Inr (r, s') \<Longrightarrow> logs_grow s s'"
proof (induction fs arbitrary: r s)
  case (Cons fn fs)
  have "logs_grow s u" if "function_text e fn s = Inr (t, u)" for t u
    using that texts_log [THEN relatesD] by blast
  with Cons show ?case by (auto simp: ebind_Inr_iff) (blast intro: logs.R_trans)
qed (auto intro: logs.R_refl)

lemma function_bodies_end: "plain_env e \<Longrightarrow> function_bodies e fs s \<noteq> Inl Diverges"
  using plain_ends by (induction fs arbitrary: s) (auto simp: ebind_Inl_iff ends_def)

lemma class_source_log: "class_source_ctx e stem pc s = Inr (r, s') \<Longrightarrow> logs_grow s s'"
  unfolding class_source_ctx_def Let_def
  by (auto simp: ebind_Inr_iff intro: logs.R_trans dest!: class_bodies_log function_bodies_log)

lemma class_source_ends: "plain_env e \<Longrightarrow> class_source_ctx e stem pc s \<noteq> Inl Diverges"
  unfolding class_source_ctx_def Let_def
  by (auto simp: ebind_Inl_iff class_bodies_end function_bodies_end)

lemma logs_only_grow: "logs_grow (logs_only s) u \<longleftrightarrow> logs_grow s u" "logs_grow u (logs_only s) \<longleftrightarrow> logs_grow u s"
  by (simp_all add: logs_grow_def logs_only_def)

lemma orphan_functions_log: "orphan_functions e fs s = Inr (r, s') \<Longrightarrow> logs_grow s s'"
proof (induction fs arbitrary: r s)
  case (Cons fn fs)
  have "logs_grow s u" if "function_text e fn (logs_only s) = Inr (t, u)" for t u
    using relatesD [OF texts_log(2) that] by (simp add: logs_only_grow)
  with Cons show ?case
    by (auto simp: ebind_Inr_iff) (meson logs.R_trans logs_only_grow)
qed (auto intro: logs.R_refl)

lemma orphan_functions_end: "plain_env e \<Longrightarrow> orphan_functions e fs s \<noteq> Inl Diverges"
  using plain_ends by (induction fs arbitrary: s) (auto simp: ebind_Inl_iff ends_def)

subsection \<open>Contexts of templates\<close>

definition file_logs_grow :: "file_state \<Rightarrow> file_state \<Rightarrow> bool" where
  "file_logs_grow fs fs' \<longleftrightarrow>
     (\<exists>errs. fs_errors fs' = fs_errors fs @ errs) \<and> (\<exists>diags. fs_diags fs' = fs_diags fs @ diags)"

lemma file_logs_refl: "file_logs_grow fs fs"
  by (simp add: file_logs_grow_def)

lemma file_logs_trans: "file_logs_grow fs u \<Longrightarrow> file_logs_grow u fs' \<Longrightarrow> file_logs_grow fs fs'"
  by (auto simp: file_logs_grow_def)

lemma impl_methods_log: "impl_methods f cls mds ctx s = Inr (r, s') \<Longrightarrow> logs_grow s s'"
proof (induction mds arbitrary: ctx s)
  case (Cons md mds)
  have "relates logs_grow (impl_method f cls md)"
    unfolding impl_method_def method_emitter_def Let_def
    by (intro logs.rel.rules texts_log)
  with Cons show ?case by (auto simp: ebind_Inr_iff dest!: relatesD intro: logs.R_trans)
qed (auto intro: logs.R_refl)

lemma missing_log:
  "eseq (concat (map (\<lambda>me. [method_text e me, out [nl]]) mes)) s = Inr (t, s') \<Longrightarrow> logs_grow s s'"
proof -
  have "relates logs_grow (eseq (concat (map (\<lambda>me. [method_text e me, out [nl]]) mes)))"
    by (induction mes)
       (simp_all del: eseq.simps add: logs.rel.seq_Nil logs.rel.seq_Cons logs.rel.emits texts_log)
  then show "eseq (concat (map (\<lambda>me. [method_text e me, out [nl]]) mes)) s = Inr (t, s') \<Longrightarrow> logs_grow s s'"
    by (rule relatesD)
qed

lemma emit_done_log:
  "logs_grow (emit_start strs fs) s \<Longrightarrow> file_logs_grow fs (emit_done s fs)"
  by (simp add: logs_grow_def file_logs_grow_def emit_start_def emit_done_def fresh_state_def)

lemma file_steps_log:
  "file_logs_grow fs (put_key k t fs')  \<longleftrightarrow> file_logs_grow fs fs'"
  "file_logs_grow fs (drop_static n fs') \<longleftrightarrow> file_logs_grow fs fs'"
  "file_logs_grow fs (fs'\<lparr>fs_context := c\<rparr>) \<longleftrightarrow> file_logs_grow fs fs'"
  "file_logs_grow fs (fs'\<lparr>fs_shared := strs\<rparr>) \<longleftrightarrow> file_logs_grow fs fs'"
  "file_logs_grow fs fs' \<Longrightarrow> file_logs_grow fs (file_diag msg fs')"
  by (auto simp: file_logs_grow_def put_key_def drop_static_def file_diag_def)

lemma class_context_log: "build_class_context f cls n fs = Inr fs' \<Longrightarrow> file_logs_grow fs fs'"
  by (auto simp: build_class_context_def Let_def ebind_Inr_iff file_steps_log
      dest!: impl_methods_log missing_log intro!: emit_done_log intro: logs.R_trans)

lemma transpiled_log: "transpiled_function f fn fs = Inr (t, fs') \<Longrightarrow> file_logs_grow fs fs'"
  using relatesD [OF texts_log(2)] emit_done_log [of "fs_shared fs" fs]
  by (auto simp: transpiled_function_def ebind_Inr_iff file_steps_log)

lemma function_context_log: "function_context f n fs = Inr fs' \<Longrightarrow> file_logs_grow fs fs'"
  by (auto simp: function_context_def Let_def ebind_Inr_iff file_steps_log
      file_logs_refl transpiled_log intro!: file_steps_log(5) split: option.splits if_splits)

lemma node_context_log: "node_context f n fs = Inr fs' \<Longrightarrow> file_logs_grow fs fs'"
  by (auto simp: node_context_def build_impl_context_def declaration_context_def Let_def
      file_steps_log file_logs_refl function_context_log class_context_log intro!: file_steps_log(5)
      split: option.splits if_splits)

lemma source_context_log:
  assumes "build_source_context f extra errs diags = Inr fs"
  shows "(\<exists>errs'. fs_errors fs = errs @ errs') \<and> (\<exists>diags'. fs_diags fs = diags @ diags')"
proof -
  have "file_logs_grow (file_start f extra errs diags) fs"
    by (rule efold_invariant [OF assms [unfolded build_source_context_def],
          where P = "file_logs_grow (file_start f extra errs diags)"])
       (use file_logs_refl file_logs_trans node_context_log in blast)+
  then show ?thesis by (simp add: file_logs_grow_def file_start_def)
qed

subsection \<open>Contexts of templates end\<close>

text \<open>
  The bodies a patched file can emit, and that none of them has a macro of its source that
  is an Objective-C expression itself.
\<close>

lemma set_map_filter: "y \<in> set (List.map_filter g xs) \<longleftrightarrow> (\<exists>x \<in> set xs. g x = Some y)"
  by (force simp: List.map_filter_def)

definition class_asts :: "oz_class \<Rightarrow> json list" where
  "class_asts c = List.map_filter me_body_ast (cl_methods c) @ List.map_filter fn_body_ast (cl_functions c)"

definition file_asts :: "file_env \<Rightarrow> json list" where
  "file_asts f =
     concat (map class_asts (fe_classes f)) @ List.map_filter fn_body_ast (mo_functions (fe_module f))"

definition file_safe :: "file_env \<Rightarrow> bool" where
  "file_safe f \<longleftrightarrow> list_all (macro_safe (patched_env f)) (file_asts f)"

lemma file_safe_ends:
  assumes "file_safe f" and "acyclic_module (fe_module f)"
  shows "cls \<in> set (fe_classes f) \<Longrightarrow> me \<in> set (cl_methods cls) \<Longrightarrow> ends (method_text (class_env f cls) me)"
    and "cls \<in> set (fe_classes f) \<Longrightarrow> me \<in> set (cl_methods cls) \<Longrightarrow> ends (emit_user_dealloc (class_env f cls) me)"
    and "find_function f name = Some fn \<Longrightarrow> ends (function_text (patched_env f) fn)"
proof -
  have env: "acyclic_env (class_env f cls)" "acyclic_env (patched_env f)" for cls
    using assms(2) by (simp_all add: acyclic_env_def class_env_def patched_env_def)
  have safe: "macro_safe (class_env f cls) b" if "b \<in> set (file_asts f)" for cls b
    using assms(1) that macro_safe_cong [of "class_env f cls" "patched_env f" b]
    by (simp add: file_safe_def list_all_iff class_env_def patched_env_def)
  have safe_method: "macro_safe (class_env f cls) b"
    if "cls \<in> set (fe_classes f)" "me \<in> set (cl_methods cls)" "me_body_ast me = Some b" for cls me b
    by (rule safe) (use that in \<open>auto simp: file_asts_def class_asts_def set_map_filter\<close>)
  show "cls \<in> set (fe_classes f) \<Longrightarrow> me \<in> set (cl_methods cls) \<Longrightarrow> ends (method_text (class_env f cls) me)"
    "cls \<in> set (fe_classes f) \<Longrightarrow> me \<in> set (cl_methods cls) \<Longrightarrow> ends (emit_user_dealloc (class_env f cls) me)"
    by (rule class_ends.method_texts class_ends.dealloc_texts, rule env, erule (2) safe_method)+
  assume "find_function f name = Some fn"
  then have "fn \<in> set (concat (map cl_functions (fe_classes f)) @ mo_functions (fe_module f))"
    by (auto simp: find_function_def dest!: find_in_set)
  then have "macro_safe (patched_env f) b" if "fn_body_ast fn = Some b" for b
    unfolding patched_env_def
    by (intro safe) (use that in \<open>auto simp: file_asts_def class_asts_def set_map_filter\<close>)
  then show "ends (function_text (patched_env f) fn)"
    using env by (intro class_ends.function_texts) auto
qed

lemma impl_methods_end:
  assumes "\<And>md. ends (impl_method f cls md)"
  shows "impl_methods f cls mds ctx s \<noteq> Inl Diverges"
  using assms by (induction mds arbitrary: ctx s) (auto simp: ebind_Inl_iff ends_def)

lemma class_context_ends:
  assumes "file_safe f" and "acyclic_module (fe_module f)" and "cls \<in> set (fe_classes f)"
  shows "build_class_context f cls n fs \<noteq> Inl Diverges"
proof -
  note text_ends = file_safe_ends(1,2) [OF assms]
  have "ends (impl_method f cls md)" for md
    unfolding impl_method_def method_emitter_def node_method_def find_method_def Let_def
    by (intro ends_rel.rules text_ends) (auto dest: find_in_set)
  moreover have "ends (eseq (concat (map (\<lambda>me. [method_text (class_env f cls) me, out [nl]])
      (missing_methods f cls (method_nodes n)))))"
    by (rule ends_eseq) (auto simp: missing_methods_def intro: text_ends ends_rel.emits)
  ultimately show ?thesis
    using impl_methods_end [of f cls]
    by (auto simp: build_class_context_def Let_def ebind_Inl_iff ends_def)
qed

lemma source_context_ends:
  assumes "file_safe f" and "acyclic_module (fe_module f)"
  shows "build_source_context f extra errs diags \<noteq> Inl Diverges"
proof -
  have impl: "build_impl_context f n fs \<noteq> Inl Diverges" for n fs
    using class_context_ends [OF assms]
    by (auto simp: build_impl_context_def impl_class_def find_class_def Let_def
        split: option.splits if_splits dest!: find_in_set)
  have "function_context f n fs \<noteq> Inl Diverges" for n fs
    using file_safe_ends(3) [OF assms]
    by (fastforce simp: function_context_def transpiled_function_def Let_def ebind_Inl_iff ends_def
        split: option.splits if_splits)
  with impl have "node_context f n fs \<noteq> Inl Diverges" for n fs
    by (auto simp: node_context_def Let_def)
  then show ?thesis unfolding build_source_context_def by (auto dest: efold_Inl)
qed

subsection \<open>The logs of emit\<close>

definition extends :: "logs \<Rightarrow> logs \<Rightarrow> bool" where
  "extends l l' \<longleftrightarrow> (\<exists>errs. fst l' = fst l @ errs) \<and> (\<exists>diags. snd l' = snd l @ diags)"

lemma extends_refl: "extends l l"
  by (simp add: extends_def)

lemma extends_trans: "extends l u \<Longrightarrow> extends u l' \<Longrightarrow> extends l l'"
  by (auto simp: extends_def)

lemma logs_grow_extends:
  "logs_grow s s' \<Longrightarrow> es_errors s = fst l \<Longrightarrow> es_diags s = snd l \<Longrightarrow> extends l (es_errors s', es_diags s')"
  by (auto simp: logs_grow_def extends_def)

lemma class_parts_log: "class_parts j stem cs dedup l = Inr (ts, l') \<Longrightarrow> extends l l'"
proof (induction cs arbitrary: dedup l ts)
  case (Cons c cs)
  have step: "extends l (es_errors u, es_diags u)"
    if "class_source_ctx e stem pc (fresh_state\<lparr>es_dedup := dedup, es_errors := fst l, es_diags := snd l\<rparr>)
        = Inr (ctx, u)" for e pc ctx u
    by (rule logs_grow_extends [OF class_source_log [OF that]]) simp_all
  from Cons.prems obtain ctx u ts' where
    "class_source_ctx (template_env j c) stem (pool_count_for j (cl_name c))
       (fresh_state\<lparr>es_dedup := dedup, es_errors := fst l, es_diags := snd l\<rparr>) = Inr (ctx, u)"
    and "class_parts j stem cs (es_dedup u) (es_errors u, es_diags u) = Inr (ts', l')"
    by (auto simp: ebind_Inr_iff)
  from extends_trans [OF step [OF this(1)] Cons.IH [OF this(2)]] show ?case .
qed (auto intro: extends_refl)

lemma source_text_log: "source_text j stem classes l = Inr (t, l') \<Longrightarrow> extends l l'"
  by (auto simp: source_text_def patched_source_def Let_def ebind_Inr_iff extends_def class_parts_log
      dest!: source_context_log class_parts_log split: option.splits)

lemma orphan_template_log: "orphan_template_text j osrc l = Inr (t, l') \<Longrightarrow> extends l l'"
  using logs_grow_extends [of "fresh_state\<lparr>es_errors := fst l, es_diags := snd l\<rparr>" _ l]
  by (auto simp: orphan_template_text_def orphan_source_ctx_def Let_def ebind_Inr_iff
      dest!: orphan_functions_log)

lemma orphan_text_log: "orphan_text j osrc l = Inr (t, l') \<Longrightarrow> extends l l'"
  by (auto simp: orphan_text_def patched_orphan_source_def Let_def ebind_Inr_iff orphan_template_log
      dest!: source_context_log split: option.splits if_splits) (simp_all add: extends_def)

lemma files_log:
  "stem_files j entry acc = Inr acc' \<Longrightarrow> extends (snd acc) (snd acc')"
  "orphan_files j osrc acc = Inr acc' \<Longrightarrow> extends (snd acc) (snd acc')"
  by (auto simp: stem_files_def orphan_files_def Let_def ebind_Inr_iff dest!: source_text_log orphan_text_log)

lemma emit_files_log:
  assumes "emit_files j = Inr (fs, l)"
  shows "extends (mo_errors (ej_module j), mo_diagnostics (ej_module j)) l"
proof -
  from assms obtain ds acc where
    stems: "efold (stem_files j) (stem_groups (ej_module j))
              (ds, (mo_errors (ej_module j), mo_diagnostics (ej_module j))) = Inr acc"
    and orphans: "efold (orphan_files j) (mo_orphan_sources (ej_module j)) acc = Inr (fs, l)"
    by (auto simp: emit_files_def Let_def ebind_Inr_iff)
  let ?P = "\<lambda>acc. extends (mo_errors (ej_module j), mo_diagnostics (ej_module j)) (snd acc)"
  have "?P acc"
    by (rule efold_invariant [OF stems, where P = ?P])
       (use extends_refl in \<open>auto intro: extends_trans files_log\<close>)
  then have "?P (fs, l)"
    by (rule efold_invariant [OF orphans, where P = ?P]) (auto intro: extends_trans files_log)
  then show ?thesis by simp
qed

subsection \<open>Emission of all files ends\<close>

lemma emap_ends: "(\<And>x. x \<in> set xs \<Longrightarrow> f x \<noteq> Inl Diverges) \<Longrightarrow> emap f xs \<noteq> Inl Diverges"
  by (induction xs) (auto simp: ebind_Inl_iff)

lemma applied_ends: "applied t ctx \<noteq> Inl Diverges"
  by (simp add: applied_def split: option.splits)

lemma implementers_end: "acyclic_module m \<Longrightarrow> implementers_of m sel \<noteq> Inl Diverges"
proof -
  assume acyclic: "acyclic_module m"
  have "find_implementing_class c sel m \<noteq> Inl Diverges" for c
  proof -
    obtain line where line: "climb (hier_fuel m) m c = Some line"
      using class_line_ends [OF acyclic] unfolding class_line_def by blast
    then show ?thesis
      using climb_until_line [OF line, of "\<lambda>cur. if declares sel cur then Some cur else None"]
      by (simp add: find_implementing_class_def)
  qed
  then show ?thesis by (auto simp: implementers_of_def ebind_Inl_iff intro!: emap_ends)
qed

lemma dispatch_files_end:
  assumes "acyclic_module (ej_module j)"
  shows "dispatch_files j \<noteq> Inl Diverges"
proof -
  have "emap (impl_entries (ej_module j)) sels \<noteq> Inl Diverges"
    "emap (vtable_of (ej_module j)) sels \<noteq> Inl Diverges" for sels
    using implementers_end [OF assms]
    by (auto simp: impl_entries_def vtable_of_def ebind_Inl_iff intro!: emap_ends)
  then show ?thesis
    by (auto simp: dispatch_files_def dispatch_header_ctx_def dispatch_source_ctx_def Let_def
        ebind_Inl_iff applied_ends)
qed

lemma template_env_plain: "acyclic_module (ej_module j) \<Longrightarrow> plain_env (template_env j c)"
  by (simp add: plain_env_def template_env_def)

lemma class_parts_end: "acyclic_module (ej_module j) \<Longrightarrow> class_parts j stem cs dedup l \<noteq> Inl Diverges"
  by (induction cs arbitrary: dedup l)
     (auto simp: ebind_Inl_iff applied_ends class_source_ends template_env_plain)

lemma rendered_ends: "rendered render t ctx \<noteq> Inl Diverges"
  by (simp add: rendered_def split: option.splits)

text \<open>The files rewritten from their sources are safe.\<close>

definition stem_safe :: "emit_job \<Rightarrow> string \<times> oz_class list \<Rightarrow> bool" where
  "stem_safe j = (\<lambda>(stem, classes).
     case patched_path j stem classes of Some p \<Rightarrow> file_safe (class_file j classes p) | None \<Rightarrow> True)"

definition orphan_safe :: "emit_job \<Rightarrow> orphan_source \<Rightarrow> bool" where
  "orphan_safe j osrc \<longleftrightarrow>
     (case os_source_path osrc of
        Some p \<Rightarrow> w_is_file (ej_world j) p \<longrightarrow>
          file_safe (orphan_file (ej_world j) (ej_module j) osrc p (ej_root j) (ej_owning j))
      | None \<Rightarrow> True)"

definition job_safe :: "emit_job \<Rightarrow> bool" where
  "job_safe j \<longleftrightarrow>
     list_all (stem_safe j) (stem_groups (ej_module j)) \<and> list_all (orphan_safe j) (mo_orphan_sources (ej_module j))"

lemma stem_files_end:
  assumes "acyclic_module (ej_module j)" and "stem_safe j entry"
  shows "stem_files j entry acc \<noteq> Inl Diverges"
proof -
  have "source_text j (fst entry) (snd entry) l \<noteq> Inl Diverges" for l
  proof (cases "patched_path j (fst entry) (snd entry)")
    case None
    then show ?thesis using class_parts_end [OF assms(1)] by (auto simp: source_text_def ebind_Inl_iff)
  next
    case (Some p)
    with assms have "file_safe (class_file j (snd entry) p)"
      "acyclic_module (fe_module (class_file j (snd entry) p))"
      by (auto simp: stem_safe_def class_file_def split: prod.splits)
    from source_context_ends [OF this] Some show ?thesis
      by (auto simp: source_text_def patched_source_def Let_def ebind_Inl_iff rendered_ends)
  qed
  moreover have "emap (header_text j (fst entry)) cs \<noteq> Inl Diverges" for cs
    by (intro emap_ends)
       (auto simp: header_text_def class_header_ctx_def ebind_Inl_iff applied_ends lookups_end [OF assms(1)])
  ultimately show ?thesis by (auto simp: stem_files_def Let_def ebind_Inl_iff)
qed

lemma orphan_files_end:
  assumes "acyclic_module (ej_module j)" and "orphan_safe j osrc"
  shows "orphan_files j osrc acc \<noteq> Inl Diverges"
proof -
  let ?f = "\<lambda>p. orphan_file (ej_world j) (ej_module j) osrc p (ej_root j) (ej_owning j)"
  have "acyclic_module (fe_module (?f p))" for p
    using assms(1) by (simp add: orphan_file_def acyclic_module_def super_rel_def up_of_def)
  then have "patched_orphan_source eng (?f p) osrc errs diags \<noteq> Inl Diverges"
    if "file_safe (?f p)" for eng p errs diags
    using source_context_ends [OF that]
    by (auto simp: patched_orphan_source_def Let_def ebind_Inl_iff rendered_ends)
  moreover have "orphan_template_text j osrc l \<noteq> Inl Diverges" for l
    using assms(1) by (auto simp: orphan_template_text_def orphan_source_ctx_def Let_def ebind_Inl_iff
        applied_ends orphan_functions_end plain_env_def orphan_env_def)
  ultimately show ?thesis
    using assms(2)
    by (auto simp: orphan_files_def orphan_text_def orphan_safe_def ebind_Inl_iff split: option.splits)
qed

text \<open>
  C15. Emission of a whole module ends: with an acyclic hierarchy, and no body in a file that
  is rewritten from its source with a macro that is itself an Objective-C expression, there
  is a result or an exception of another kind, whatever the templates do. (With such a macro
  emission does not end.)
\<close>

theorem emit_files_ends:
  assumes "acyclic_module (ej_module j)" and "job_safe j"
  shows "emit_files j \<noteq> Inl Diverges"
proof -
  have "efold (stem_files j) (stem_groups (ej_module j)) acc \<noteq> Inl Diverges"
    "efold (orphan_files j) (mo_orphan_sources (ej_module j)) acc \<noteq> Inl Diverges" for acc
    using stem_files_end [OF assms(1)] orphan_files_end [OF assms(1)] assms(2)
    by (auto simp: job_safe_def list_all_iff dest!: efold_Inl)
  then show ?thesis
    using dispatch_files_end [OF assms(1)] by (auto simp: emit_files_def Let_def ebind_Inl_iff)
qed

definition demo_templates :: templates where
  "demo_templates =
     \<lparr>tp_dispatch_header = (\<lambda>c. Some ''h''), tp_dispatch_source = (\<lambda>c. Some ''c''),
      tp_class_header = (\<lambda>c. Some (ch_name c)), tp_class_source = (\<lambda>c. Some (cs_name c)),
      tp_orphan_source = (\<lambda>c. Some (oc_stem c)), tp_engine = (\<lambda>t ctx. Some t)\<rparr>"

definition kennel_job :: emit_job where
  "kennel_job =
     \<lparr>ej_world = \<lparr>w_cwd = ''/'', w_is_file = (\<lambda>p. p = ''/dog.m''), w_read = (\<lambda>p. []),
        w_ts_parse = (\<lambda>s. TsNode [] 0 0 (0, 0) [] [] []), w_captures = (\<lambda>q n. [])\<rparr>,
      ej_templates = demo_templates, ej_module = kennel\<lparr>mo_source_paths := [(''Dog'', ''/dog.m'')]\<rparr>, ej_outdir = ''out'', ej_root = ''OZObject'',
      ej_pool_sizes = [], ej_heap_support = False, ej_owning = [], ej_auto_counts = [],
      ej_item_pool_count = 0\<rparr>"

theorem emit_files_ends_witness: "emit_files kennel_job \<noteq> Inl Diverges"
proof (rule emit_files_ends)
  show "acyclic_module (ej_module kennel_job)" using kennel_acyclic by (simp add: kennel_job_def acyclic_module_def super_rel_def up_of_def)
qed code_simp

subsection \<open>The generated files\<close>

definition group_step :: "oz_class \<Rightarrow> (string, oz_class list) dict \<Rightarrow> (string, oz_class list) dict" where
  "group_step c d = dput (header_stem c) (dget_or d (header_stem c) [] @ [c]) d"

lemma group_steps:
  "dkeys (fold group_step cs d) = add_all_new (map header_stem cs) (dkeys d)"
  "dget_or (fold group_step cs d) k [] = dget_or d k [] @ filter (\<lambda>c. header_stem c = k) cs"
  by (induction cs arbitrary: d) (auto simp: group_step_def add_all_new_Cons)

lemma dict_by_keys:
  assumes "distinct (dkeys d)"
  shows "d = map (\<lambda>k. (k, dget_or d k e)) (dkeys d)"
proof -
  have "map (\<lambda>x. (fst x, dget_or d (fst x) e)) d = map (\<lambda>x. x) d"
    using map_of_is_SomeI [OF assms] by (intro map_cong) (auto simp: dget_or_def)
  then show ?thesis by (simp add: comp_def)
qed

lemma stem_groups_eq:
  "stem_groups m =
     map (\<lambda>stem. (stem, filter (\<lambda>c. header_stem c = stem) (dvals (mo_classes m))))
       (uniq (map header_stem (dvals (mo_classes m))))"
proof -
  have groups: "stem_groups m = fold group_step (dvals (mo_classes m)) []"
    by (simp add: stem_groups_def group_step_def [abs_def])
  have "distinct (dkeys (stem_groups m))" by (simp add: groups group_steps)
  from dict_by_keys [OF this, of "[]"] show ?thesis by (simp add: groups group_steps uniq_def)
qed

definition stem_paths :: "emit_job \<Rightarrow> string \<times> oz_class list \<Rightarrow> string list" where
  "stem_paths j = (\<lambda>(stem, classes).
     let d = (if list_all cl_is_foundation classes then foundation_dir j else ej_outdir j)
     in [path_join d (stem @ ''_ozh.h''), path_join d (stem @ ''_ozm.c'')])"

lemma stem_files_paths:
  "stem_files j entry acc = Inr acc' \<Longrightarrow> map fst (fst acc') = map fst (fst acc) @ stem_paths j entry"
  by (auto simp: stem_files_def stem_paths_def is_foundation_group_def Let_def ebind_Inr_iff
      split: prod.splits)

lemma orphan_files_paths:
  "orphan_files j osrc acc = Inr acc' \<Longrightarrow>
   map fst (fst acc') = map fst (fst acc) @ [path_join (ej_outdir j) (os_stem osrc @ ''_ozm.c'')]"
  by (auto simp: orphan_files_def ebind_Inr_iff)

lemma efold_paths:
  assumes "efold g xs acc = Inr acc'"
    and "\<And>x acc acc'. g x acc = Inr acc' \<Longrightarrow> map fst (fst acc') = map fst (fst acc) @ P x"
  shows "map fst (fst acc') = map fst (fst acc) @ concat (map P xs)"
  using assms(1)
proof (induction xs arbitrary: acc)
  case (Cons x xs)
  then obtain u where u: "g x acc = Inr u" and rest: "efold g xs u = Inr acc'"
    by (auto simp: ebind_Inr_iff)
  from Cons.IH [OF rest] assms(2) [OF u] show ?case by simp
qed simp

text \<open>
  C14. The files \<open>emit\<close> writes, in order: the two dispatch files; for every file stem of the
  classes, in order of first appearance, a header and a source, in the \<open>Foundation\<close>
  directory exactly when all classes of that stem are Foundation classes; one source per
  orphan file.
\<close>

theorem emit_files_paths:
  assumes "emit_files j = Inr (files, l)"
  shows "map fst files =
    [path_join (foundation_dir j) ''oz_dispatch.h'', path_join (foundation_dir j) ''oz_dispatch.c'']
    @ concat (map (\<lambda>stem. stem_paths j (stem, filter (\<lambda>c. header_stem c = stem) (dvals (mo_classes (ej_module j)))))
        (uniq (map header_stem (dvals (mo_classes (ej_module j))))))
    @ map (\<lambda>osrc. path_join (ej_outdir j) (os_stem osrc @ ''_ozm.c'')) (mo_orphan_sources (ej_module j))"
proof -
  from assms obtain ds acc where dispatch: "dispatch_files j = Inr ds"
    and stems: "efold (stem_files j) (stem_groups (ej_module j))
              (ds, (mo_errors (ej_module j), mo_diagnostics (ej_module j))) = Inr acc"
    and orphans: "efold (orphan_files j) (mo_orphan_sources (ej_module j)) acc = Inr (files, l)"
    by (auto simp: emit_files_def Let_def ebind_Inr_iff)
  from dispatch have "map fst ds =
      [path_join (foundation_dir j) ''oz_dispatch.h'', path_join (foundation_dir j) ''oz_dispatch.c'']"
    by (auto simp: dispatch_files_def Let_def ebind_Inr_iff)
  with efold_paths [OF stems stem_files_paths] efold_paths [OF orphans orphan_files_paths]
  show ?thesis by (simp add: stem_groups_eq comp_def)
qed

lemma kennel_files:
  "(case emit_files kennel_job of Inl x \<Rightarrow> False | Inr r \<Rightarrow> True)"
  by code_simp

theorem emit_files_paths_witness:
  "\<exists>files l. emit_files kennel_job = Inr (files, l) \<and>
     map fst files = map (path_join ''out'') [''Foundation/oz_dispatch.h'', ''Foundation/oz_dispatch.c'',
       ''OZObject_ozh.h'', ''OZObject_ozm.c'', ''Animal_ozh.h'', ''Animal_ozm.c'', ''Dog_ozh.h'', ''Dog_ozm.c'']"
proof -
  obtain files l where run: "emit_files kennel_job = Inr (files, l)"
    using kennel_files by (auto split: sum.splits)
  from emit_files_paths [OF run] run show ?thesis by simp code_simp
qed

end
