(* ===== verification/Driver_Facts.thy ===== *)
theory Driver_Facts
  imports Driver Emitter_Facts
begin

text \<open>
  The exit code of the transpiler: what the whole program promises when it returns 0.
\<close>

lemma prepared_logs:
  "mo_errors (prepare_module root m) = mo_errors m" "mo_diagnostics (prepare_module root m) = mo_diagnostics m"
  by (simp_all add: prepare_module_def ensure_foundation_tags_def inject_oz_spinlock_def
      associate_module_items_def clear_items_def Let_def split: option.splits)

definition job_for :: "world \<Rightarrow> templates \<Rightarrow> main_args \<Rightarrow> oz_module \<Rightarrow> (string, int) dict \<Rightarrow> emit_job" where
  "job_for w tps a m pool_sizes =
     emit_job_of w tps m (ma_outdir a) pool_sizes (ma_root_class a) (ma_item_pool_size a) (ma_heap_support a)"

lemma job_module: "ej_module (job_for w tps a m ps) = prepare_module (ma_root_class a) m"
  by (simp add: job_for_def emit_job_of_def Let_def)

text \<open>
  C1. The transpiler exits with 0 exactly when the front end accepts the module and the
  emitter, run on it, leaves no error (and under \<open>--strict\<close> no diagnostic of any phase). The
  files it writes are then those of the emitter, no diagnostic of the front end is lost, and
  a manifest, when asked for, lists the paths of exactly these files, one per line.
\<close>

theorem main_exit_zero_iff:
  assumes "main w tps a is_tty asts = Inr r"
  shows "mr_code r = 0 \<longleftrightarrow>
    (\<exists>m warned ps files diags.
       front_end w (cli_args.truncate a) asts = Inr (Ready m warned)
       \<and> parse_pool_sizes (ma_pool_sizes a) = Inr ps
       \<and> emit_files (job_for w tps a m ps) = Inr (files, ([], mo_diagnostics m @ diags))
       \<and> (ca_strict a \<longrightarrow> mo_diagnostics m @ diags = [])
       \<and> mr_files r = files
       \<and> mr_manifest r = (if ma_manifest a \<noteq> [] then Some (text_lines (map fst files)) else None))"
proof (cases "\<exists>m warned. front_end w (cli_args.truncate a) asts = Inr (Ready m warned)")
  case False
  from assms obtain x where x: "front_end w (cli_args.truncate a) asts = Inr x"
    and r: "(case x of Failed lines' \<Rightarrow> Inr (stopped lines' [])
             | Ready m warned \<Rightarrow> run_emit w tps a is_tty m warned) = Inr r"
    by (auto simp: main_def ebind_Inr_iff)
  from x r False obtain lines' where "r = stopped lines' []" by (cases x) auto
  then have "mr_code r = 1" by (simp add: stopped_def)
  with False show ?thesis by auto
next
  case True
  then obtain m warned where front: "front_end w (cli_args.truncate a) asts = Inr (Ready m warned)" by blast
  with assms obtain ps files errs diags where ps: "parse_pool_sizes (ma_pool_sizes a) = Inr ps"
    and run: "emit_files (job_for w tps a m ps) = Inr (files, (errs, diags))"
    and r: "r = back_verdict a is_tty warned (length (mo_diagnostics m)) (files, (errs, diags))"
    by (auto simp: main_def run_emit_def job_for_def ebind_Inr_iff)
  from emit_files_log [OF run] obtain new where diags: "diags = mo_diagnostics m @ new"
    by (auto simp: extends_def job_module prepared_logs)
  have strict: "ca_strict a \<longrightarrow> mo_diagnostics m = []"
    using front_end_resolved [OF front] by (metis cli_args.select_convs(3) cli_args.defs(4))
  show ?thesis
    using front ps run r strict
    by (auto simp: back_verdict_def stopped_def Let_def diags)
qed

definition demo_main_args :: main_args where
  "demo_main_args = cli_args.extend unit_args
     \<lparr>ma_outdir = ''out'', ma_manifest = ''out/files.txt'', ma_root_class = ''OZObject'',
      ma_pool_sizes = ''Led=4'', ma_item_pool_size = None, ma_heap_support = False\<rparr>"

theorem main_exit_zero_iff_witness:
  "\<exists>r m warned ps files. main empty_world demo_templates demo_main_args False [unit_ast] = Inr r
     \<and> front_end empty_world unit_args [unit_ast] = Inr (Ready m warned)
     \<and> emit_files (job_for empty_world demo_templates demo_main_args m ps) = Inr (files, ([], []))
     \<and> mr_manifest r = Some (text_lines (map fst files))"
proof -
  have "case main empty_world demo_templates demo_main_args False [unit_ast] of
          Inl x \<Rightarrow> False | Inr r \<Rightarrow> mr_code r = 0" by code_simp
  then obtain r where run: "main empty_world demo_templates demo_main_args False [unit_ast] = Inr r"
    and zero: "mr_code r = 0" by (auto split: sum.splits)
  have args: "cli_args.truncate demo_main_args = unit_args" "ca_strict demo_main_args"
    "ma_manifest demo_main_args \<noteq> []"
    by (simp_all add: demo_main_args_def cli_args.defs unit_args_def)
  from main_exit_zero_iff [OF run] zero args obtain m warned ps files where
    "front_end empty_world unit_args [unit_ast] = Inr (Ready m warned)"
    "emit_files (job_for empty_world demo_templates demo_main_args m ps) = Inr (files, ([], []))"
    "mr_manifest r = Some (text_lines (map fst files))" by auto
  with run show ?thesis by blast
qed

end
