(* ===== verification/Context_Facts.thy ===== *)
theory Context_Facts
  imports Patched Emit_Lookup_Facts
begin

text \<open>
  A template and its context fit together: every placeholder the extraction writes gets a
  text, unless an implementation of a class of another file has methods; and a file without
  Objective-C is reproduced line for line.
\<close>

subsection \<open>Keys\<close>

lemma dkeys_append_key [simp]: "dkeys (append_key k t d) = dkeys d"
  by (auto simp: append_key_def add_new_def in_dkeys_iff simp del: set_map split: option.splits)

lemma dkeys_attach_dealloc [simp]: "dkeys (attach_dealloc mds t d) = dkeys d"
  by (simp add: attach_dealloc_def)

lemma put_key_context [simp]: "fs_context (put_key k t fs) = dput k t (fs_context fs)"
  by (simp add: put_key_def)

lemma file_diag_context [simp]: "fs_context (file_diag msg fs) = fs_context fs"
  by (simp add: file_diag_def)

lemma drop_static_context [simp]: "fs_context (drop_static n fs) = fs_context fs"
  by (simp add: drop_static_def)

lemma impl_methods_keys:
  "impl_methods f cls mds ctx s = Inr (ctx', s') \<Longrightarrow>
   set (dkeys ctx') = set (dkeys ctx) \<union> loc_key ` set mds"
proof (induction mds arbitrary: ctx s)
  case (Cons md mds)
  then obtain t u where "impl_methods f cls mds (dput (loc_key md) t ctx) u = Inr (ctx', s')"
    by (auto simp: ebind_Inr_iff)
  from Cons.IH [OF this] show ?case by (simp del: set_map)
qed simp

lemma class_context_keys:
  assumes "build_class_context f cls n fs = Inr fs'"
  shows "set (dkeys (fs_context fs'))
    = set (dkeys (fs_context fs)) \<union> insert (impl_loc_key n) (loc_key ` set (method_nodes n))"
  using assms impl_methods_keys
  by (fastforce simp: build_class_context_def Let_def ebind_Inr_iff simp del: set_map)

text \<open>The placeholders of a top-level node.\<close>

definition node_keys :: "ts_node \<Rightarrow> string list" where
  "node_keys n =
     (if ts_type n \<in> set impl_types
      then (if str_truthy (class_name_of n) then impl_loc_key n # map loc_key (method_nodes n) else [])
      else if ts_type n \<in> {''preproc_include'', ''function_definition'', ''declaration''} then [loc_key n]
      else [])"

lemma hole_keys_impl_child: "hole_keys (impl_child source cls c) = map loc_key (case method_def c of Some md \<Rightarrow> [md] | None \<Rightarrow> [])"
  by (auto simp: impl_child_def method_def_def source_line_def impl_skip_children_def Let_def split: list.splits)

lemma method_nodes_concat: "method_nodes n = concat (map (\<lambda>c. case method_def c of Some md \<Rightarrow> [md] | None \<Rightarrow> []) (ts_children n))"
proof -
  have "List.map_filter method_def cs = concat (map (\<lambda>c. case method_def c of Some md \<Rightarrow> [md] | None \<Rightarrow> []) cs)" for cs
    by (induction cs) (auto simp: List.map_filter_simps split: option.splits)
  then show ?thesis by (simp add: method_nodes_def)
qed

lemma hole_keys_top: "hole_keys (top_pieces source n) = node_keys n"
proof -
  have "hole_keys (impl_block source n)
      = (if str_truthy (class_name_of n) then impl_loc_key n # map loc_key (method_nodes n) else [])"
    by (auto simp: impl_block_def str_truthy_def hole_keys_concat hole_keys_impl_child comp_def
        method_nodes_concat map_concat split: option.splits)
  then show ?thesis
    by (auto simp: top_pieces_def node_keys_def see_comment_def source_line_def Let_def
        interface_types_def impl_types_def)
qed

lemma hole_keys_extract: "hole_keys (extract_pieces source tree) = concat (map node_keys (ts_children tree))"
  by (simp add: extract_pieces_def hole_keys_concat hole_keys_top comp_def)

lemma function_context_keys:
  "function_context f n fs = Inr fs' \<Longrightarrow>
   set (dkeys (fs_context fs')) = insert (loc_key n) (set (dkeys (fs_context fs)))"
  by (auto simp: function_context_def transpiled_function_def emit_done_def Let_def ebind_Inr_iff
      simp del: set_map split: option.splits if_splits)

lemma declaration_context_keys:
  "set (dkeys (fs_context (declaration_context f n fs))) = insert (loc_key n) (set (dkeys (fs_context fs)))"
  by (auto simp: declaration_context_def Let_def simp del: set_map split: option.splits)

text \<open>An implementation whose methods can be looked up.\<close>

definition impl_resolved :: "file_env \<Rightarrow> ts_node \<Rightarrow> bool" where
  "impl_resolved f n \<longleftrightarrow>
     (ts_type n \<in> set impl_types \<longrightarrow> impl_class f n \<noteq> None \<or> method_nodes n = [])"

lemma node_keys_set:
  "set (node_keys n) =
     (if ts_type n \<in> set impl_types
      then (if str_truthy (class_name_of n)
            then insert (impl_loc_key n) (loc_key ` set (method_nodes n)) else {})
      else if ts_type n \<in> {''preproc_include'', ''function_definition'', ''declaration''}
      then {loc_key n} else {})"
  by (auto simp: node_keys_def)

lemma impl_context_keys:
  assumes "build_impl_context f n fs = Inr fs'"
  shows "set (dkeys (fs_context fs)) \<subseteq> set (dkeys (fs_context fs'))"
    and "impl_class f n \<noteq> None \<or> method_nodes n = [] \<Longrightarrow>
         insert (impl_loc_key n) (loc_key ` set (method_nodes n)) \<subseteq> set (dkeys (fs_context fs'))"
  using assms class_context_keys [of f _ n fs fs']
  unfolding build_impl_context_def
  by (auto simp: Let_def simp del: set_map split: if_splits option.splits)

lemma node_context_keys:
  assumes "node_context f n fs = Inr fs'"
  shows "set (dkeys (fs_context fs)) \<subseteq> set (dkeys (fs_context fs'))"
    and "impl_resolved f n \<Longrightarrow> set (node_keys n) \<subseteq> set (dkeys (fs_context fs'))"
  using assms impl_context_keys [of f n fs fs'] function_context_keys [of f n fs fs']
    declaration_context_keys [of f n fs]
  unfolding node_context_def impl_resolved_def node_keys_set
  by (auto simp: Let_def simp del: set_map split: if_splits)

lemma efold_collects:
  assumes "efold g xs s = Inr t" and "x \<in> set xs" and "P x"
    and mono: "\<And>x u v. g x u = Inr v \<Longrightarrow> K u \<subseteq> K v"
    and step: "\<And>x u v. P x \<Longrightarrow> g x u = Inr v \<Longrightarrow> A x \<subseteq> K v"
  shows "A x \<subseteq> K t"
  using assms(1,2)
proof (induction xs arbitrary: s)
  case (Cons y ys)
  then obtain u where u: "g y s = Inr u" and t: "efold g ys u = Inr t"
    by (auto simp: ebind_Inr_iff)
  have "K u \<subseteq> K t"
    by (rule efold_invariant [OF t, where P = "\<lambda>v. K u \<subseteq> K v"]) (use mono in blast)+
  moreover have "x = y \<Longrightarrow> A x \<subseteq> K u" using step [OF \<open>P x\<close>] u by blast
  ultimately show ?case using Cons.IH [OF t] Cons.prems(2) by auto
qed simp

subsection \<open>Rendering\<close>

text \<open>What a rendered template is: literal text, and the text of the context for a placeholder.\<close>

fun piece_value :: "(string, string) dict \<Rightarrow> piece \<Rightarrow> string" where
  "piece_value ctx (Lit t) = t"
| "piece_value ctx (Hole k) = dget_or ctx k []"

definition fill :: "(string, string) dict \<Rightarrow> piece list \<Rightarrow> string" where
  "fill ctx ps = concat (map (piece_value ctx) ps)"

lemma fill_concat: "fill ctx (concat pss) = concat (map (fill ctx) pss)"
  by (induction pss) (auto simp: fill_def)

text \<open>A top-level node of C, with nothing the transpiler rewrites.\<close>

definition held :: "ts_node \<Rightarrow> bool" where
  "held n \<longleftrightarrow> ts_type n \<in> {''function_definition'', ''declaration''}"

definition plain_function :: "file_env \<Rightarrow> ts_node \<Rightarrow> bool" where
  "plain_function f n \<longleftrightarrow>
     (case extract_func_name n of
        Some x \<Rightarrow> (case find_function f x of Some fn \<Rightarrow> \<not> fn_has_objc fn | None \<Rightarrow> True)
      | None \<Rightarrow> True)"

definition plain_declaration :: "file_env \<Rightarrow> ts_node \<Rightarrow> bool" where
  "plain_declaration f n \<longleftrightarrow>
     \<not> is_func_prototype n \<and>
     (case extract_decl_name n of
        Some x \<Rightarrow> (case find_static_var x (fe_classes f) of
                     Some sv \<Rightarrow> \<not> is_object (sv_type sv) | None \<Rightarrow> True)
      | None \<Rightarrow> True)"

definition plain_c :: "file_env \<Rightarrow> ts_node \<Rightarrow> bool" where
  "plain_c f n \<longleftrightarrow>
     ts_type n \<notin> set (interface_types @ impl_types @ [''protocol_declaration'', ''preproc_include''])
     \<and> (ts_type n = ''function_definition'' \<longrightarrow> plain_function f n)
     \<and> (ts_type n = ''declaration'' \<longrightarrow> plain_declaration f n)"

lemma plain_node_context:
  assumes "plain_c f n"
  shows "\<exists>fs'. node_context f n fs = Inr fs' \<and>
    fs_context fs' = (if held n then dput (loc_key n) (node_src (fe_source f) n) (fs_context fs)
                      else fs_context fs)"
  using assms
  by (auto simp: plain_c_def held_def node_context_def function_context_def declaration_context_def
      plain_function_def plain_declaration_def impl_types_def Let_def
      split: option.splits if_splits)

lemma plain_fold:
  "(\<And>n. n \<in> set ns \<Longrightarrow> plain_c f n) \<Longrightarrow>
   \<exists>fs'. efold (node_context f) ns fs = Inr fs' \<and>
     fs_context fs' = fold (\<lambda>(k, v). dput k v)
       (map (\<lambda>n. (loc_key n, node_src (fe_source f) n)) (filter held ns)) (fs_context fs)"
proof (induction ns arbitrary: fs)
  case (Cons n ns)
  then obtain u where u: "node_context f n fs = Inr u"
    and ctx: "fs_context u = (if held n then dput (loc_key n) (node_src (fe_source f) n) (fs_context fs)
                              else fs_context fs)"
    using plain_node_context [of f n fs] by auto
  have "\<exists>fs'. efold (node_context f) ns u = Inr fs' \<and>
     fs_context fs' = fold (\<lambda>(k, v). dput k v)
       (map (\<lambda>n. (loc_key n, node_src (fe_source f) n)) (filter held ns)) (fs_context u)"
    by (rule Cons.IH) (simp add: Cons.prems)
  with u ctx show ?case by auto
qed simp

lemma str_of_nat_no_underscore [simp]: "CHR ''_'' \<notin> set (str_of_nat n)"
proof (induction n rule: str_of_nat.induct)
  case (1 n)
  have digit: "10 \<le> d" if "CHR ''_'' = char_of (d + 48)" for d :: nat
  proof (rule ccontr)
    assume "\<not> 10 \<le> d"
    moreover have "(of_char (char_of (d + 48)) :: nat) = of_char CHR ''_''" using that by simp
    ultimately show False by simp
  qed
  from 1 show ?case
    by (auto simp: str_of_nat.simps [of n] dest!: digit simp flip: not_less)
qed

lemma loc_key_eq_iff: "loc_key n = loc_key n' \<longleftrightarrow> ts_start_point n = ts_start_point n'"
  by (auto simp: loc_key_def loc_name_def append_Cons_eq_iff prod_eq_iff)

lemma dget_puts:
  assumes "distinct (map g ns)" and "n \<in> set ns"
  shows "dget (fold (\<lambda>(k, v). dput k v) (map (\<lambda>n. (g n, h n)) ns) d) (g n) = Some (h n)"
proof -
  have "distinct (map fst (rev (map (\<lambda>n. (g n, h n)) ns)))"
    using assms(1) by (simp add: rev_map [symmetric] comp_def)
  then have "map_of (rev (map (\<lambda>n. (g n, h n)) ns)) (g n) = Some (h n)"
    using assms(2) by (subst map_of_eq_Some_iff) auto
  then show ?thesis by (simp add: alist.get_put_all map_add_def)
qed

subsection \<open>Placeholders are defined\<close>

text \<open>
  C20. When the context of a source file is built and every implementation block of the file
  is of a class of the file (or has no methods), then every placeholder of the template
  extracted from the file has a text in the context: no placeholder is undefined.
\<close>

theorem template_keys_defined:
  assumes "build_source_context f extra errs diags = Inr fs"
    and "list_all (impl_resolved f) (ts_children (fe_tree f))"
  shows "list_all (\<lambda>k. k \<in> set (dkeys (fs_context fs)))
           (hole_keys (extract_pieces (fe_source f) (fe_tree f)))"
proof -
  have "set (node_keys n) \<subseteq> set (dkeys (fs_context fs))" if "n \<in> set (ts_children (fe_tree f))" for n
  proof (rule efold_collects [OF assms(1) [unfolded build_source_context_def] that])
    show "impl_resolved f n" using assms(2) that by (auto simp: list_all_iff)
  qed (use node_context_keys in blast)+
  moreover have "set (hole_keys (extract_pieces (fe_source f) (fe_tree f)))
      = (\<Union>n \<in> set (ts_children (fe_tree f)). set (node_keys n))"
    by (simp add: hole_keys_extract)
  ultimately show ?thesis unfolding list_all_iff by blast
qed

text \<open>A file with a static variable, a function of C and an implementation of one method.\<close>

definition ts_leaf :: "string \<Rightarrow> nat \<Rightarrow> string \<Rightarrow> ts_node" where
  "ts_leaf ty i t = TsNode ty i (i + length t) (0, i) [] t []"

definition method_node :: "nat \<Rightarrow> string \<Rightarrow> ts_node" where
  "method_node i sel =
     TsNode ''implementation_definition'' i (i + 2 + length sel) (0, i) [] []
       [TsNode ''method_definition'' i (i + 2 + length sel) (0, i) [] []
          [ts_leaf ''-'' i ''-'', ts_leaf ''identifier'' (i + 2) sel]]"

definition impl_node :: "nat \<Rightarrow> nat \<Rightarrow> string \<Rightarrow> ts_node list \<Rightarrow> ts_node" where
  "impl_node i j cls methods =
     TsNode ''class_implementation'' i j (0, i) [] [] (ts_leaf ''identifier'' (i + 16) cls # methods)"

definition dog_source :: string where
  "dog_source = ''int n; @implementation Dog - wag @end int f() {}''"

definition dog_nodes :: "ts_node list" where
  "dog_nodes =
     [TsNode ''declaration'' 0 6 (0, 0) [] [] [ts_leaf ''identifier'' 4 ''n''],
      TsNode ''function_definition'' 38 48 (0, 38) [] []
        [TsNode ''function_declarator'' 42 45 (0, 42) [] [] [ts_leaf ''identifier'' 42 ''f'']]]"

definition dog_impl :: ts_node where
  "dog_impl = impl_node 7 37 ''Dog'' [method_node 27 ''wag'']"

definition file_of :: "ts_node list \<Rightarrow> string list \<Rightarrow> file_env" where
  "file_of ns names =
     \<lparr>fe_world = \<lparr>w_cwd = ''/'', w_is_file = (\<lambda>p. p = ''/dog.m''), w_read = (\<lambda>p. dog_source),
        w_ts_parse = (\<lambda>s. TsNode ''translation_unit'' 0 (length s) (0, 0) [] s ns),
        w_captures = (\<lambda>q n. [])\<rparr>,
      fe_path = ''/dog.m'', fe_module = kennel, fe_classes = List.map_filter (cls_of kennel) names,
      fe_root = ''OZObject'', fe_has_item_pool = False, fe_owning = []\<rparr>"

lemma dog_file_keys:
  "map_option (\<lambda>fs. dkeys (fs_context fs))
     (case build_source_context (file_of (dog_impl # dog_nodes) [''Dog'']) [] [] [] of
        Inl e \<Rightarrow> None | Inr fs \<Rightarrow> Some fs)
   = Some [''_n_1_28'', ''_impl_1_8'', ''_n_1_1'', ''_n_1_39'']"
  by code_simp

theorem template_keys_defined_witness:
  "\<exists>fs. build_source_context (file_of (dog_impl # dog_nodes) [''Dog'']) [] [] [] = Inr fs \<and>
     list_all (\<lambda>k. k \<in> set (dkeys (fs_context fs))) [''_impl_1_8'', ''_n_1_28'', ''_n_1_1'', ''_n_1_39'']"
proof -
  let ?f = "file_of (dog_impl # dog_nodes) [''Dog'']"
  obtain fs where fs: "build_source_context ?f [] [] [] = Inr fs"
    using dog_file_keys by (auto split: sum.splits)
  have "list_all (impl_resolved ?f) (ts_children (fe_tree ?f))" by code_simp
  moreover have "hole_keys (extract_pieces (fe_source ?f) (fe_tree ?f))
      = [''_impl_1_8'', ''_n_1_28'', ''_n_1_1'', ''_n_1_39'']" by code_simp
  ultimately show ?thesis using template_keys_defined [OF fs] fs by metis
qed

text \<open>
  The condition is needed. An implementation (of a category) of a class that another file
  declares has a placeholder per method in the template, and the context has none of them;
  under \<open>StrictUndefined\<close> rendering raises.
\<close>

lemma foreign_implementation_undefined:
  "(case build_source_context (file_of [impl_node 7 37 ''Dog'' [method_node 27 ''wag'']] [''Animal'']) [] [] [] of
      Inl e \<Rightarrow> None | Inr fs \<Rightarrow> Some (fs_context fs)) = Some [(''_impl_1_8'', [])]"
  "hole_keys (extract_pieces dog_source
     (fe_tree (file_of [impl_node 7 37 ''Dog'' [method_node 27 ''wag'']] [''Animal''])))
   = [''_impl_1_8'', ''_n_1_28'']"
  by code_simp+

subsection \<open>C is kept\<close>



subsection \<open>A category in the file of its class\<close>

text \<open>
  Each block of a file also emits the methods of the merged class that have no node in that
  block. With an implementation and a category implementation of one class in one file,
  every method is therefore emitted twice: by its own block and by the other one.
\<close>

definition trick_class :: oz_class where
  "trick_class = (OZClass ''Dog'' (Some ''Animal''))
     \<lparr>cl_methods := map (\<lambda>sel. (OZMethod sel (OZType ''void''))
        \<lparr>me_body_ast := Some (JObj [(''kind'', JStr ''CompoundStmt'')])\<rparr>) [''wag'', ''sit'']\<rparr>"

definition trick_source :: string where
  "trick_source = ''@implementation Dog - wag @end @implementation Dog - sit @end''"

definition trick_file :: file_env where
  "trick_file = (file_of [] [])\<lparr>fe_classes := [trick_class],
     fe_world := \<lparr>w_cwd = ''/'', w_is_file = (\<lambda>p. True), w_read = (\<lambda>p. trick_source),
       w_ts_parse = (\<lambda>s. TsNode ''translation_unit'' 0 61 (0, 0) [] s
         [impl_node 0 30 ''Dog'' [method_node 20 ''wag''], impl_node 31 61 ''Dog'' [method_node 51 ''sit'']]),
       w_captures = (\<lambda>q n. [])\<rparr>\<rparr>"

lemma category_emits_twice:
  "(case build_source_context trick_file [] [] [] of
      Inl e \<Rightarrow> None
    | Inr fs \<Rightarrow> Some (map (\<lambda>sel. dkeys (filter (\<lambda>(k, v). contains (''void Dog_'' @ sel @ ''('') v) (fs_context fs)))
        [''wag'', ''sit'', ''dealloc'']))
   = Some [[''_n_1_21'', ''_impl_1_32''], [''_impl_1_1'', ''_n_1_52''], [''_n_1_21'', ''_n_1_52'']]"
  by code_simp

end
