(* ===== verification/Emit_Props.thy ===== *)
theory Emit_Props
  imports Emit_Facts
begin

text \<open>
  The properties of body emission: it ends without macro passthrough and does not end for a
  macro that is an Objective-C expression; scopes and loops are balanced; string constants
  are unique; parameters are released; owned and borrowed expressions exclude each other.
\<close>

subsection \<open>A method body\<close>

definition call_node :: "string \<Rightarrow> json list \<Rightarrow> json" where
  "call_node kind cs = JObj [(''kind'', JStr kind), (''inner'', JArr cs)]"

text \<open>\<open>{ @"hi"; @"hi"; }\<close> and the context of a method of \<open>Dog\<close>.\<close>

definition hi_literal :: json where
  "hi_literal = JObj [(''kind'', JStr ''ObjCStringLiteral''),
     (''loc'', JObj [(''line'', JInt 3), (''col'', JInt 5)]),
     (''inner'', JArr [JObj [(''kind'', JStr ''StringLiteral''), (''value'', JStr (dquote # ''hi'' @ [dquote]))]])]"

definition hi_body :: json where
  "hi_body = call_node ''CompoundStmt'' [hi_literal, hi_literal]"

definition dog_env :: emit_env where
  "dog_env = \<lparr>ee_cls = the (cls_of kennel ''Dog''), ee_module = kennel, ee_root = ''OZObject'',
     ee_method = Some (OZMethod ''wag'' (OZType ''void'')), ee_has_item_pool = False,
     ee_source = None, ee_owning = []\<rparr>"

definition dog_params :: "oz_param list" where
  "dog_params = [\<lparr>pa_name = ''other'', pa_type = OZType ''Dog *''\<rparr>]"

lemma dog_env_simps [simp]:
  "ee_module dog_env = kennel" "ee_source dog_env = None" "ee_root dog_env = ''OZObject''"
  by (simp_all add: dog_env_def)

lemma hi_emits: "case emit_body (body_fuel hi_body) dog_env dog_params hi_body fresh_state of
    Inr (t, s') \<Rightarrow> length (es_strings s') = 1 | Inl x \<Rightarrow> False"
  by code_simp

lemma hi_result: obtains t s' where "emit_body (body_fuel hi_body) dog_env dog_params hi_body fresh_state = Inr (t, s')"
  using hi_emits by (auto split: sum.splits)

subsection \<open>Emission ends\<close>

text \<open>
  C9. A body without a macro that is itself an Objective-C expression is emitted: on modules
  without inheritance cycles the calls of \<open>_emit_stmt\<close>, \<open>_emit_expr\<close> and \<open>_emit_if_stmt\<close> end, from
  every state, and more fuel than \<open>body_fuel\<close> gives the same text and state.
\<close>

theorem emit_body_ends:
  assumes "acyclic_module (ee_module e)" and "macro_safe e body" and "body_fuel body \<le> n"
  shows "emit_body n e ps body s \<noteq> Inl Diverges
         \<and> emit_body n e ps body s = emit_body (body_fuel body) e ps body s"
  using body_ends [OF assms(1,2), of n ps] assms(3)
    refinesD [OF body_fuel_enough [of body "body_fuel body" n e ps]]
  by (simp add: ends_def body_fuel_def)

text \<open>With the text of a source at hand.\<close>

definition dog_src_env :: emit_env where
  "dog_src_env = dog_env\<lparr>ee_source := Some (''#define HI @'' @ [dquote] @ ''hi'' @ [dquote, nl] @ ''HI;'')\<rparr>"

theorem emit_body_ends_witness:
  "emit_body 1000 dog_src_env dog_params hi_body fresh_state \<noteq> Inl Diverges
   \<and> emit_body 1000 dog_src_env dog_params hi_body fresh_state
     = emit_body (body_fuel hi_body) dog_src_env dog_params hi_body fresh_state"
proof (rule emit_body_ends)
  show "body_fuel hi_body \<le> 1000" by code_simp
  show "macro_safe dog_src_env hi_body" by code_simp
qed (simp add: dog_src_env_def kennel_acyclic)

text \<open>
  C11. A macro whose expansion is itself an Objective-C expression is never emitted: the
  passthrough collects the expansion as a patch of the macro's text and emits it for that,
  which finds the same macro again.
\<close>

theorem objc_macro_diverges:
  assumes "expr_macro e node \<noteq> None" and "patch_range node \<noteq> None"
  shows "emit_expr n e node s = Inl Diverges"
  using assms by (rule objc_macro_loops)

text \<open>
  With macro passthrough too, if any amount of fuel lets a body be emitted, \<open>body_fuel\<close>
  does, with the same text and state: a body only diverges where the code does.
\<close>

theorem body_fuel_adequate:
  assumes "emit_body n e ps body s \<noteq> Inl Diverges"
  shows "emit_body (body_fuel body) e ps body s = emit_body n e ps body s"
  by (rule refinesD [OF body_fuel_enough assms]) (simp add: body_fuel_def)

theorem body_fuel_adequate_witness:
  "emit_body (body_fuel hi_body) dog_env dog_params hi_body fresh_state
   = emit_body 9 dog_env dog_params hi_body fresh_state"
proof -
  have "case emit_body 9 dog_env dog_params hi_body fresh_state of Inr r \<Rightarrow> True | Inl x \<Rightarrow> False"
    by code_simp
  then show ?thesis by (intro body_fuel_adequate) (auto split: sum.splits)
qed

text \<open>\<open>#define HI @"hi"\<close> and a use of \<open>HI\<close>.\<close>

definition hi_macro_node :: json where
  "hi_macro_node = JObj [(''kind'', JStr ''ObjCStringLiteral''),
     (''range'', JObj
       [(''begin'', JObj [(''spellingLoc'', JObj [(''offset'', JInt 11)]),
                        (''expansionLoc'', JObj [(''offset'', JInt 17), (''tokLen'', JInt 2)])]),
        (''end'', JObj [(''spellingLoc'', JObj [(''offset'', JInt 12), (''tokLen'', JInt 4)])])])]"

theorem objc_macro_diverges_witness:
  "emit_expr 1000 (dog_env\<lparr>ee_source := Some (''#define HI @'' @ [dquote] @ ''hi'' @ [dquote, nl] @ ''HI;'')\<rparr>)
     hi_macro_node fresh_state = Inl Diverges"
  by (rule objc_macro_diverges) code_simp+

subsection \<open>Scopes\<close>

text \<open>
  C10. A body leaves the stacks of scopes and loops as it found them; the logs, block functions
  and string constants only grow and the counters do not fall.
\<close>

theorem emit_body_balanced:
  assumes "emit_body n e ps body s = Inr (t, s')"
  shows "es_scope_vars s' = es_scope_vars s \<and> es_loops s' = es_loops s
         \<and> (\<exists>errs. es_errors s' = es_errors s @ errs) \<and> (\<exists>diags. es_diags s' = es_diags s @ diags)
         \<and> (\<exists>bs. es_blocks s' = es_blocks s @ bs) \<and> (\<exists>strs. es_strings s' = es_strings s @ strs)
         \<and> es_tmp s \<le> es_tmp s' \<and> es_sync s \<le> es_sync s'"
proof -
  have "relates same_scopes (emit_body n e ps body)"
    by (rule kept.body_related) (use emission_keeps in blast)
  from relatesD [OF this assms] show ?thesis
    by (auto simp: same_scopes_def grows_def new_strings_def)
qed

theorem emit_body_balanced_witness:
  "\<exists>t s'. emit_body (body_fuel hi_body) dog_env dog_params hi_body fresh_state = Inr (t, s')
     \<and> es_scope_vars s' = [] \<and> es_loops s' = []"
proof -
  obtain t s' where run: "emit_body (body_fuel hi_body) dog_env dog_params hi_body fresh_state = Inr (t, s')"
    by (rule hi_result)
  from emit_body_balanced [OF run] run show ?thesis by (auto simp: fresh_state_def)
qed

text \<open>
  A statement inside a block keeps the enclosing scopes and every variable of its own
  scope; it can only add variables to its own.
\<close>

theorem emit_stmt_scope:
  assumes "emit_stmt n e node indent s = Inr (t, s')" and "es_scope_vars s \<noteq> []"
  shows "butlast (es_scope_vars s') = butlast (es_scope_vars s) \<and> es_loops s' = es_loops s
         \<and> set (dkeys (last (es_scope_vars s))) \<subseteq> set (dkeys (last (es_scope_vars s')))"
proof -
  have "relates adds_to_scope (emit_stmt n e node indent)" using emission_keeps by blast
  from relatesD [OF this assms(1)] assms(2) show ?thesis
    by (auto simp: adds_to_scope_def grows_def simp del: set_map)
qed

definition dog_decl :: json where
  "dog_decl = call_node ''DeclStmt'' [JObj [(''kind'', JStr ''VarDecl''), (''name'', JStr ''d''),
     (''type'', JObj [(''qualType'', JStr ''Dog *'')])]]"

theorem emit_stmt_scope_witness:
  "\<exists>t s'. emit_stmt 9 dog_env dog_decl 1 (push_frame [(''other'', OZType ''Dog *'')] fresh_state) = Inr (t, s')
     \<and> ''other'' \<in> set (dkeys (last (es_scope_vars s'))) \<and> es_loops s' = []"
proof -
  let ?s = "push_frame [(''other'', OZType ''Dog *'')] fresh_state"
  have "case emit_stmt 9 dog_env dog_decl 1 ?s of Inr r \<Rightarrow> True | Inl x \<Rightarrow> False" by code_simp
  then obtain t s' where run: "emit_stmt 9 dog_env dog_decl 1 ?s = Inr (t, s')"
    by (auto split: sum.splits)
  have "es_scope_vars ?s = [[(''other'', OZType ''Dog *'')]]" "es_loops ?s = []"
    by (simp_all add: push_frame_def fresh_state_def)
  with emit_stmt_scope [OF run] run show ?thesis by auto
qed

subsection \<open>String constants\<close>

text \<open>One constant per entry of the deduplication table, and one entry per literal.\<close>

definition strings_ok :: "emit_state \<Rightarrow> bool" where
  "strings_ok s \<longleftrightarrow>
     es_strings s = map (\<lambda>(val, name). string_constant name val) (es_dedup s) \<and> distinct (dkeys (es_dedup s))"



subsection \<open>Parameters are retained and released\<close>

lemma retain_params_run:
  "es_scope_vars s \<noteq> [] \<Longrightarrow>
   \<exists>s1. retain_params e i ps s = Inr (concat (map (\<lambda>p. retain_line (ee_root e) i (pa_name p)) ps), s1)
      \<and> es_scope_vars s1 \<noteq> []
      \<and> set (dkeys (last (es_scope_vars s))) \<union> set (map pa_name ps) \<subseteq> set (dkeys (last (es_scope_vars s1)))"
proof (induction ps arbitrary: s)
  case Nil
  then show ?case by (simp add: retain_params_def)
next
  case (Cons p ps)
  let ?s = "track (pa_name p) (pa_type p) s"
  have s: "es_scope_vars ?s \<noteq> []" "dkeys (last (es_scope_vars ?s)) = add_new (pa_name p) (dkeys (last (es_scope_vars s)))"
    by (simp_all add: track_def)
  from Cons.IH [OF s(1)] obtain s1 where
    "retain_params e i ps ?s = Inr (concat (map (\<lambda>p. retain_line (ee_root e) i (pa_name p)) ps), s1)"
    "es_scope_vars s1 \<noteq> []"
    "set (dkeys (last (es_scope_vars ?s))) \<union> set (map pa_name ps) \<subseteq> set (dkeys (last (es_scope_vars s1)))"
    by blast
  with s show ?case by (auto simp: retain_params_def emit_defs simp del: set_map)
qed



subsection \<open>Owned and borrowed expressions\<close>



end
