(* ===== verification/Retain_Cycles.thy ===== *)
theory Retain_Cycles
  imports Hierarchy World
begin

text \<open>
  \<open>scripts/objz_check_cycles.py\<close>: the strong references between the classes of a set of
  sources, propagated down the inheritance chain, form a graph; a depth-first search
  reports its cycles and the exit code says whether there are any.

  Tree-sitter queries return a list of nodes per capture name; a query is known by its
  text. The iteration order of Python sets is not specified: \<open>set_order\<close> is the order this
  run of the program sees, and the theorems hold for every order. Loops over file names
  carry no fuel but may be undefined (\<open>partial_function\<close>); the search carries fuel.
\<close>

definition FOUNDATION_CLASSES :: "string list" where
  "FOUNDATION_CLASSES =
     [''Object'', ''Protocol'', ''OZString'', ''OZMutableString'', ''OZAutoreleasePool'',
      ''OZQ31'', ''OZArray'', ''OZDictionary'', ''OZLog'']"

definition NON_OBJECT_TYPES :: "string list" where
  "NON_OBJECT_TYPES = [''id'', ''Class'', ''SEL'', ''IMP'', ''void'']"

subsection \<open>Files\<close>

text \<open>\<open>re.match(r'#(?:import|include)\s+"([^"]+)"', line)\<close>, group 1.\<close>

definition import_target :: "string \<Rightarrow> string option" where
  "import_target line =
     (let rest = (if startswith line ''#import'' then drop 7 line
                  else if startswith line ''#include'' then drop 8 line else []);
          body = dropWhile is_space rest
      in if rest = [] \<or> \<not> is_space (hd rest) \<or> body = [] \<or> hd body \<noteq> dquote then None
         else let rel = takeWhile (\<lambda>c. c \<noteq> dquote) (tl body) in
              if rel \<noteq> [] \<and> length rel < length (tl body) then Some rel else None)"

definition resolve_imports :: "world \<Rightarrow> string \<Rightarrow> string list \<Rightarrow> string list" where
  "resolve_imports w source_path include_dirs =
     (let src_dir = dir_name (abs_path w source_path) in
      concat (map (\<lambda>line.
        case import_target line of
          None \<Rightarrow> []
        | Some rel \<Rightarrow>
            (case find (\<lambda>base. w_is_file w (path_join base rel)) (src_dir # include_dirs) of
               None \<Rightarrow> []
             | Some base \<Rightarrow> [abs_path w (path_join base rel)]))
        (str_split nl (w_read w source_path))))"

text \<open>The worklist: \<open>queue.pop()\<close> takes the last element.\<close>

partial_function (option) collect_loop ::
    "world \<Rightarrow> string list \<Rightarrow> string list \<Rightarrow> string list \<Rightarrow> string list option" where
  "collect_loop w include_dirs queue all_files =
     (if queue = [] then Some all_files
      else let path = last queue; queue = butlast queue; p = abs_path w path in
           if p \<in> set all_files \<or> \<not> w_is_file w p then collect_loop w include_dirs queue all_files
           else let all_files = all_files @ [p] in
                collect_loop w include_dirs
                  (queue @ filter (\<lambda>i. i \<notin> set all_files) (resolve_imports w p include_dirs))
                  all_files)"

definition collect_all_files :: "world \<Rightarrow> string list \<Rightarrow> string list \<Rightarrow> string list option" where
  "collect_all_files w source_paths include_dirs = collect_loop w include_dirs source_paths []"

subsection \<open>Reading the syntax trees\<close>

abbreviation children_of :: "string \<Rightarrow> ts_node \<Rightarrow> ts_node list" where
  "children_of ty n \<equiv> filter (\<lambda>c. ts_type c = ty) (ts_children n)"

definition cycles_class_name :: "ts_node \<Rightarrow> string option" where
  "cycles_class_name iface = child_text ''identifier'' iface"

text \<open>A \<open>superclass_reference\<close> without an identifier does not end the outer loop.\<close>

definition cycles_superclass_name :: "ts_node \<Rightarrow> string option" where
  "cycles_superclass_name iface =
     first_return (\<lambda>child. if ts_type child = ''superclass_reference''
                           then child_text ''identifier'' child else None) (ts_children iface)"

definition has_unsafe_unretained :: "ts_node \<Rightarrow> bool" where
  "has_unsafe_unretained n = contains ''__unsafe_unretained'' (ts_text n)"

record ref_scan =
  rs_type :: "string option"
  rs_name :: "string option"
  rs_pointer :: bool

definition last_child_text :: "string \<Rightarrow> ts_node \<Rightarrow> string option \<Rightarrow> string option" where
  "last_child_text ty n name = fold (\<lambda>c _. Some (ts_text c)) (children_of ty n) name"

definition field_scan :: "ts_node \<Rightarrow> ref_scan \<Rightarrow> ref_scan" where
  "field_scan child s =
     (if ts_type child = ''type_identifier'' then s\<lparr>rs_type := Some (ts_text child)\<rparr>
      else if ts_type child = ''pointer_declarator''
      then s\<lparr>rs_pointer := True, rs_name := last_child_text ''field_identifier'' child (rs_name s)\<rparr>
      else if ts_type child = ''field_identifier'' then s\<lparr>rs_name := Some (ts_text child)\<rparr>
      else s)"

definition strong_ref :: "string list \<Rightarrow> ref_scan \<Rightarrow> (string \<times> string) option" where
  "strong_ref known_classes s =
     (case (rs_type s, rs_name s) of
        (Some ty, Some n) \<Rightarrow>
          if ty \<noteq> [] \<and> n \<noteq> [] \<and> rs_pointer s \<and> ty \<in> set known_classes \<and> ty \<notin> set NON_OBJECT_TYPES
          then Some (n, ty) else None
      | _ \<Rightarrow> None)"

abbreviation empty_scan :: ref_scan where
  "empty_scan \<equiv> \<lparr>rs_type = None, rs_name = None, rs_pointer = False\<rparr>"

definition unretained_qualifier :: "ts_node \<Rightarrow> bool" where
  "unretained_qualifier n \<longleftrightarrow>
     list_ex (\<lambda>c. ts_text c = ''__unsafe_unretained'') (children_of ''type_qualifier'' n)"

definition parse_field_declaration :: "ts_node \<Rightarrow> string list \<Rightarrow> (string \<times> string) option" where
  "parse_field_declaration field_node known_classes =
     (if has_unsafe_unretained field_node \<or> unretained_qualifier field_node then None
      else strong_ref known_classes (fold field_scan (ts_children field_node) empty_scan))"

definition extract_ivar_refs :: "ts_node \<Rightarrow> string list \<Rightarrow> (string \<times> string) list" where
  "extract_ivar_refs iface known_classes =
     concat (map (\<lambda>ivars. List.map_filter (\<lambda>f. parse_field_declaration f known_classes)
                            (children_of ''field_declaration'' ivars))
               (children_of ''instance_variables'' iface))"

definition property_scan_child :: "ts_node \<Rightarrow> ref_scan \<Rightarrow> ref_scan" where
  "property_scan_child sc s =
     (if ts_type sc = ''type_identifier'' then s\<lparr>rs_type := Some (ts_text sc)\<rparr>
      else if ts_type sc = ''struct_declarator''
      then fold (\<lambda>ssc s.
             if ts_type ssc = ''identifier'' then s\<lparr>rs_name := Some (ts_text ssc)\<rparr>
             else if ts_type ssc = ''pointer_declarator''
             then s\<lparr>rs_pointer := True, rs_name := last_child_text ''identifier'' ssc (rs_name s)\<rparr>
             else s) (ts_children sc) s
      else if ts_type sc = ''identifier'' then s\<lparr>rs_name := Some (ts_text sc)\<rparr>
      else if ts_type sc = ''pointer_declarator''
      then s\<lparr>rs_pointer := True, rs_name := last_child_text ''identifier'' sc (rs_name s)\<rparr>
      else s)"

definition extract_property_ref :: "ts_node \<Rightarrow> string list \<Rightarrow> (string \<times> string) option" where
  "extract_property_ref prop_node known_classes =
     (if list_ex (\<lambda>c. let attrs = str_lower (ts_text c) in
                        contains ''assign'' attrs \<or> contains ''unsafe_unretained'' attrs)
           (children_of ''property_attributes_declaration'' prop_node) then None
      else if has_unsafe_unretained prop_node then None
      else if list_ex unretained_qualifier (children_of ''struct_declaration'' prop_node) then None
      else let s = fold (\<lambda>child. fold property_scan_child (ts_children child))
                     (children_of ''struct_declaration'' prop_node) empty_scan;
               s = (if \<not> rs_pointer s \<and> contains ''*'' (ts_text prop_node)
                    then s\<lparr>rs_pointer := True\<rparr> else s)
           in strong_ref known_classes s)"

subsection \<open>collect_class_info\<close>

type_synonym refs = "(string, (string \<times> string) list) dict"

definition file_root :: "world \<Rightarrow> string \<Rightarrow> ts_node" where
  "file_root w path = w_ts_parse w (w_read w path)"

definition known_class_names :: "world \<Rightarrow> string list \<Rightarrow> string list" where
  "known_class_names w file_paths =
     fold (\<lambda>path known.
        let root = file_root w path;
            known = fold (\<lambda>n known. case cycles_class_name n of
                             Some name \<Rightarrow> if name \<noteq> [] then add_new name known else known
                           | None \<Rightarrow> known) (w_captures w ''(class_interface) @iface'' root) known
        in fold (\<lambda>n known. case child_text ''identifier'' n of
                             Some name \<Rightarrow> add_new name known
                           | None \<Rightarrow> known) (w_captures w ''(class_implementation) @impl'' root) known)
       file_paths []"

definition add_ref :: "string \<Rightarrow> string \<times> string \<Rightarrow> refs \<Rightarrow> refs" where
  "add_ref cls ref strong_refs =
     (if snd ref \<in> set FOUNDATION_CLASSES then strong_refs
      else dput cls (add_new ref (dget_or strong_refs cls [])) strong_refs)"

definition scan_interface ::
    "world \<Rightarrow> string list \<Rightarrow> ts_node \<Rightarrow> (string, string option) dict \<times> refs
     \<Rightarrow> (string, string option) dict \<times> refs" where
  "scan_interface w known_classes iface = (\<lambda>(class_hierarchy, strong_refs).
     case cycles_class_name iface of
       None \<Rightarrow> (class_hierarchy, strong_refs)
     | Some class_name \<Rightarrow>
         if class_name = [] \<or> class_name \<in> set FOUNDATION_CLASSES then (class_hierarchy, strong_refs)
         else
           (if dget class_hierarchy class_name = None
            then dput class_name (cycles_superclass_name iface) class_hierarchy else class_hierarchy,
            fold (add_ref class_name)
              (extract_ivar_refs iface known_classes
               @ List.map_filter (\<lambda>p. extract_property_ref p known_classes)
                   (w_captures w ''(property_declaration) @prop'' iface)) strong_refs))"

definition collect_class_info ::
    "world \<Rightarrow> string list \<Rightarrow> (string, string option) dict \<times> refs \<times> string list" where
  "collect_class_info w file_paths =
     (let known_classes = known_class_names w file_paths;
          (class_hierarchy, strong_refs) =
            fold (\<lambda>path. fold (scan_interface w known_classes)
                     (w_captures w ''(class_interface) @iface'' (file_root w path)))
              file_paths ([], [])
      in (class_hierarchy, strong_refs, known_classes))"

subsection \<open>resolve_inheritance\<close>

definition parent_of :: "(string, string option) dict \<Rightarrow> string \<Rightarrow> string option" where
  "parent_of class_hierarchy cls =
     (case dget class_hierarchy cls of
        Some (Some s) \<Rightarrow> if s \<noteq> [] then Some s else None
      | _ \<Rightarrow> None)"

function ancestors_loop ::
    "(string, string option) dict \<Rightarrow> string list \<Rightarrow> string option \<Rightarrow> string list" where
  "ancestors_loop h visited None = []"
| "ancestors_loop h visited (Some current) =
     (if current \<in> set visited then []
      else current # ancestors_loop h (current # visited) (parent_of h current))"
  by pat_completeness auto
termination
proof (relation "measure (\<lambda>(h, V, cur). 2 * card (set (dkeys h) - set V) + (if cur = None then 0 else 1))",
    goal_cases)
  case 1
  show ?case by simp
next
  case (2 h V n)
  show ?case
  proof (cases "parent_of h n")
    case None
    have "card (set (dkeys h) - set (n # V)) \<le> card (set (dkeys h) - set V)"
      by (intro card_mono) auto
    with None show ?thesis by simp
  next
    case (Some s)
    then have "n \<in> set (dkeys h)" unfolding in_dkeys_iff by (auto simp: parent_of_def split: option.splits)
    then have "card (set (dkeys h) - set (n # V)) < card (set (dkeys h) - set V)"
      using 2 card_unvisited_less_list by fastforce
    with Some show ?thesis by simp
  qed
qed

definition get_ancestors :: "(string, string option) dict \<Rightarrow> string \<Rightarrow> string list" where
  "get_ancestors h cls = ancestors_loop h [] (parent_of h cls)"

definition inherit_refs :: "refs \<Rightarrow> string \<Rightarrow> string list \<Rightarrow> refs \<Rightarrow> refs" where
  "inherit_refs strong_refs cls ancestors expanded =
     fold (\<lambda>ref expanded. dput cls (add_new ref (dget_or expanded cls [])) expanded)
       (concat (map (\<lambda>a. dget_or strong_refs a []) ancestors)) expanded"

definition resolve_inheritance :: "(string, string option) dict \<Rightarrow> refs \<Rightarrow> refs" where
  "resolve_inheritance class_hierarchy strong_refs =
     fold (\<lambda>cls. inherit_refs strong_refs cls (get_ancestors class_hierarchy cls))
       (dkeys class_hierarchy) strong_refs"

subsection \<open>build_graph and detect_cycles\<close>

type_synonym graph = "(string, string list) dict"

definition build_graph :: "(string list \<Rightarrow> string list) \<Rightarrow> refs \<Rightarrow> graph" where
  "build_graph set_order strong_refs =
     map_vals set_order
       (fold (\<lambda>(cls, rs). fold (\<lambda>(field, target) g. dput cls (add_new target (dget_or g cls [])) g) rs)
          strong_refs [])"

datatype colour = WHITE | GRAY | BLACK

record dfs_state =
  ds_color :: "(string, colour) dict"
  ds_path :: "string list"
  ds_cycles :: "string list list"

definition colour_of :: "dfs_state \<Rightarrow> string \<Rightarrow> colour" where
  "colour_of st n = dget_or (ds_color st) n WHITE"

text \<open>\<open>path.index(x)\<close> raises when \<open>x\<close> is not there.\<close>

fun index_of :: "'a \<Rightarrow> 'a list \<Rightarrow> nat outcome" where
  "index_of x [] = Inl (ValueErr ''is not in list'')"
| "index_of x (y # ys) = (if x = y then Inr 0 else ebind (index_of x ys) (\<lambda>i. Inr (Suc i)))"

fun dfs :: "nat \<Rightarrow> graph \<Rightarrow> string \<Rightarrow> dfs_state \<Rightarrow> dfs_state outcome" where
  "dfs 0 graph node st = Inl Diverges"
| "dfs (Suc fuel) graph node st =
     ebind (efold (\<lambda>neighbor st.
          if colour_of st neighbor = GRAY
          then ebind (index_of neighbor (ds_path st))
                 (\<lambda>start. Inr (st\<lparr>ds_cycles := ds_cycles st
                                     @ [drop start (ds_path st) @ [neighbor]]\<rparr>))
          else if colour_of st neighbor = WHITE then dfs fuel graph neighbor st
          else Inr st)
        (dget_or graph node [])
        (st\<lparr>ds_color := dput node GRAY (ds_color st), ds_path := ds_path st @ [node]\<rparr>))
      (\<lambda>st. Inr (st\<lparr>ds_path := butlast (ds_path st), ds_color := dput node BLACK (ds_color st)\<rparr>))"

text \<open>The names in the graph, keys and neighbours.\<close>

definition graph_names :: "graph \<Rightarrow> string list" where
  "graph_names g = dkeys g @ concat (dvals g)"

definition detect_cycles :: "graph \<Rightarrow> string list list outcome" where
  "detect_cycles graph =
     ebind (efold (\<lambda>node st.
              if colour_of st node = WHITE then dfs (Suc (length (graph_names graph))) graph node st
              else Inr st)
            (dkeys graph) \<lparr>ds_color = [], ds_path = [], ds_cycles = []\<rparr>)
       (\<lambda>st. Inr (ds_cycles st))"

subsection \<open>report_cycles and main\<close>

text \<open>Rotation to the smallest class name; \<open>min\<close> raises on an empty list.\<close>

definition rotate_min :: "string list \<Rightarrow> string list outcome" where
  "rotate_min loop =
     (if loop = [] then Inl (ValueErr ''min() iterable argument is empty'')
      else ebind (index_of (fold min (tl loop) (hd loop)) loop)
             (\<lambda>i. Inr (drop i loop @ take i loop)))"

definition dedup_cycles :: "string list list \<Rightarrow> string list list outcome" where
  "dedup_cycles cycles =
     ebind (efold (\<lambda>cycle (seen, unique).
              ebind (rotate_min (butlast cycle)) (\<lambda>normalized.
                if normalized \<in> set seen then Inr (seen, unique)
                else Inr (normalized # seen, unique @ [cycle])))
            cycles ([], []))
       (\<lambda>(seen, unique). Inr unique)"

definition edge_line :: "refs \<Rightarrow> string \<times> string \<Rightarrow> string list" where
  "edge_line strong_refs = (\<lambda>(src, dst).
     case find (\<lambda>(field, target). target = dst) (dget_or strong_refs src []) of
       None \<Rightarrow> []
     | Some (field, target) \<Rightarrow>
         [''    '' @ src @ ''.'' @ field @ '' ('' @ target @ '' *) '' @ em_dash @ '' strong''])"

definition cycle_lines :: "refs \<Rightarrow> string list \<Rightarrow> string list" where
  "cycle_lines strong_refs cycle =
     [''  cycle: '' @ str_join '' -> '' cycle]
     @ concat (map (edge_line strong_refs) (zip cycle (tl cycle))) @ [[]]"

definition report_cycles :: "string list list \<Rightarrow> refs \<Rightarrow> (string list \<times> nat) outcome" where
  "report_cycles cycles strong_refs =
     (if cycles = [] then Inr ([], 0)
      else ebind (dedup_cycles cycles) (\<lambda>unique.
        Inr ([[], ''error: '' @ str_of_nat (length unique) @ '' retain cycle(s) detected'', []]
             @ concat (map (cycle_lines strong_refs) unique)
             @ [''hint: add __unsafe_unretained to one reference in each cycle'',
                ''      (__weak is not supported and panics at runtime)'', []], 1)))"

definition check_cycles_main ::
    "(string list \<Rightarrow> string list) \<Rightarrow> world \<Rightarrow> string list \<Rightarrow> (string list \<times> nat) outcome" where
  "check_cycles_main set_order w all_files =
     (let (class_hierarchy, strong_refs, known_classes) = collect_class_info w (set_order all_files) in
      if strong_refs = [] then Inr ([], 0)
      else
        let expanded_refs = resolve_inheritance class_hierarchy strong_refs in
        ebind (detect_cycles (build_graph set_order expanded_refs)) (\<lambda>cycles.
        ebind (report_cycles cycles expanded_refs) (\<lambda>(out, exit_code).
          Inr (if exit_code = 0
               then out @ [''objz_check_cycles: ''
                   @ str_of_nat (length (filter (\<lambda>c. c \<notin> set FOUNDATION_CLASSES) known_classes))
                   @ '' classes, '' @ str_of_nat (sum_list (map length (dvals expanded_refs)))
                   @ '' strong refs, no cycles'']
               else out, exit_code))))"

definition check_cycles ::
    "(string list \<Rightarrow> string list) \<Rightarrow> world \<Rightarrow> string list \<Rightarrow> string list
     \<Rightarrow> (string list \<times> nat) outcome option" where
  "check_cycles set_order w sources include_dirs =
     map_option (check_cycles_main set_order w) (collect_all_files w sources include_dirs)"

end
