(* ===== verification/Retain_Cycles_Facts.thy ===== *)
theory Retain_Cycles_Facts
  imports Retain_Cycles
begin

text \<open>
  The cycle checker is correct: the search always ends without raising, what it reports are
  cycles of the graph, and it reports none exactly when the graph has none; so the exit
  code is 1 exactly when some class strongly refers back to itself.
\<close>

subsection \<open>The search\<close>

definition edges :: "graph \<Rightarrow> (string \<times> string) set" where
  "edges g = {(a, b). b \<in> set (dget_or g a [])}"

text \<open>\<open>c = [x, ..., x]\<close> follows edges, with no other repetition.\<close>

definition is_cycle :: "graph \<Rightarrow> string list \<Rightarrow> bool" where
  "is_cycle g c \<longleftrightarrow> 2 \<le> length c \<and> hd c = last c \<and> distinct (butlast c) \<and>
     successively (\<lambda>a b. (a, b) \<in> edges g) c"

definition names_of :: "graph \<Rightarrow> string set" where
  "names_of g = set (graph_names g)"

lemma edge_names: "(a, b) \<in> edges g \<Longrightarrow> a \<in> names_of g \<and> b \<in> names_of g"
proof -
  assume "(a, b) \<in> edges g"
  then obtain bs where bs: "dget g a = Some bs" "b \<in> set bs"
    by (cases "dget g a") (auto simp: edges_def dget_or_def)
  from map_of_SomeD [OF bs(1)] bs(2) show ?thesis
    by (force simp: names_of_def graph_names_def)
qed

lemma index_of_member:
  "x \<in> set xs \<Longrightarrow> \<exists>i < length xs. index_of x xs = Inr i \<and> xs ! i = x"
  by (induction xs) auto

abbreviation blacks :: "dfs_state \<Rightarrow> string set" where
  "blacks st \<equiv> {n. colour_of st n = BLACK}"

abbreviation whites :: "graph \<Rightarrow> dfs_state \<Rightarrow> string set" where
  "whites g st \<equiv> {n \<in> names_of g. colour_of st n = WHITE}"

text \<open>The invariant of the search.\<close>

definition dfs_ok :: "graph \<Rightarrow> dfs_state \<Rightarrow> bool" where
  "dfs_ok g st \<longleftrightarrow>
     distinct (ds_path st) \<and> set (ds_path st) = {n. colour_of st n = GRAY} \<and>
     successively (\<lambda>a b. (a, b) \<in> edges g) (ds_path st) \<and>
     (\<forall>c \<in> set (ds_cycles st). is_cycle g c) \<and>
     (ds_cycles st = [] \<longrightarrow>
        edges g `` blacks st \<subseteq> blacks st \<and> acyclic (edges g \<inter> blacks st \<times> blacks st))"

text \<open>What a finished call keeps of the state it started in.\<close>

definition dfs_kept :: "dfs_state \<Rightarrow> dfs_state \<Rightarrow> bool" where
  "dfs_kept st st' \<longleftrightarrow>
     ds_path st' = ds_path st \<and> (\<exists>cs. ds_cycles st' = ds_cycles st @ cs) \<and>
     (\<forall>n. colour_of st n \<noteq> WHITE \<longrightarrow> colour_of st' n = colour_of st n)"

lemma dfs_kept_refl [simp]: "dfs_kept st st"
  by (simp add: dfs_kept_def)

lemma dfs_kept_trans: "dfs_kept a b \<Longrightarrow> dfs_kept b c \<Longrightarrow> dfs_kept a c"
  by (fastforce simp: dfs_kept_def)

lemma dfs_kept_whites: "dfs_kept st st' \<Longrightarrow> whites g st' \<subseteq> whites g st"
  by (fastforce simp: dfs_kept_def)

lemma finite_whites [simp]: "finite (whites g st)"
  by (simp add: names_of_def)

lemma new_cycle:
  assumes ok: "dfs_ok g st" and gray: "colour_of st nb = GRAY"
    and edge: "(last (ds_path st), nb) \<in> edges g"
  shows "\<exists>i. index_of nb (ds_path st) = Inr i \<and> is_cycle g (drop i (ds_path st) @ [nb])"
proof -
  have "nb \<in> set (ds_path st)" using ok gray by (simp add: dfs_ok_def)
  then obtain i where i: "i < length (ds_path st)" "index_of nb (ds_path st) = Inr i"
    "ds_path st ! i = nb" using index_of_member by metis
  let ?c = "drop i (ds_path st) @ [nb]"
  have "hd (drop i (ds_path st)) = nb" using i by (simp add: hd_drop_conv_nth)
  moreover have nonempty: "drop i (ds_path st) \<noteq> []" using i by simp
  moreover have "successively (\<lambda>a b. (a, b) \<in> edges g) (drop i (ds_path st))"
    using ok by (metis append_take_drop_id dfs_ok_def successively_append_iff)
  moreover have "last (drop i (ds_path st)) = last (ds_path st)" using i by simp
  moreover have "distinct (drop i (ds_path st))" using ok by (simp add: dfs_ok_def)
  ultimately have "is_cycle g ?c"
    using edge i(1) by (auto simp: is_cycle_def successively_append_iff hd_append)
  with i(2) show ?thesis by blast
qed

text \<open>The state after the loop over some of the neighbours of the node on top.\<close>

definition visited_all :: "string list \<Rightarrow> dfs_state \<Rightarrow> bool" where
  "visited_all nbs st \<longleftrightarrow>
     (ds_cycles st = [] \<longrightarrow> (\<forall>nb \<in> set nbs. colour_of st nb = BLACK))"

lemma visited_all_kept: "visited_all nbs st \<Longrightarrow> dfs_kept st st' \<Longrightarrow> visited_all nbs st'"
  by (fastforce simp: visited_all_def dfs_kept_def)

definition dfs_spec :: "nat \<Rightarrow> graph \<Rightarrow> bool" where
  "dfs_spec fuel g \<longleftrightarrow>
     (\<forall>node st. dfs_ok g st \<and> colour_of st node = WHITE \<and> node \<in> names_of g \<and>
        (ds_path st \<noteq> [] \<longrightarrow> (last (ds_path st), node) \<in> edges g) \<and>
        card (whites g st) \<le> fuel \<longrightarrow>
        (\<exists>st'. dfs fuel g node st = Inr st' \<and> dfs_ok g st' \<and> dfs_kept st st' \<and>
               colour_of st' node = BLACK))"

lemma dfs_loop:
  assumes spec: "dfs_spec fuel g"
    and "dfs_ok g st" and "ds_path st \<noteq> []"
    and "\<forall>nb \<in> set nbs. (last (ds_path st), nb) \<in> edges g"
    and "card (whites g st) \<le> fuel"
  shows "\<exists>st'. efold (\<lambda>neighbor st.
          if colour_of st neighbor = GRAY
          then ebind (index_of neighbor (ds_path st))
                 (\<lambda>start. Inr (st\<lparr>ds_cycles := ds_cycles st
                                     @ [drop start (ds_path st) @ [neighbor]]\<rparr>))
          else if colour_of st neighbor = WHITE then dfs fuel g neighbor st
          else Inr st) nbs st = Inr st'
     \<and> dfs_ok g st' \<and> dfs_kept st st' \<and> visited_all nbs st'"
  using assms(2-)
proof (induction nbs arbitrary: st)
  case Nil
  then show ?case by (auto simp: visited_all_def)
next
  case (Cons nb nbs)
  let ?body = "\<lambda>neighbor st.
          if colour_of st neighbor = GRAY
          then ebind (index_of neighbor (ds_path st))
                 (\<lambda>start. Inr (st\<lparr>ds_cycles := ds_cycles st
                                     @ [drop start (ds_path st) @ [neighbor]]\<rparr>))
          else if colour_of st neighbor = WHITE then dfs fuel g neighbor st
          else Inr st"
  have edge: "(last (ds_path st), nb) \<in> edges g" using Cons.prems(3) by simp
  have "\<exists>st1. ?body nb st = Inr st1 \<and> dfs_ok g st1 \<and> dfs_kept st st1 \<and> visited_all [nb] st1"
  proof (cases "colour_of st nb")
    case GRAY
    from new_cycle [OF Cons.prems(1) GRAY edge] obtain i where
      i: "index_of nb (ds_path st) = Inr i" "is_cycle g (drop i (ds_path st) @ [nb])" by blast
    let ?st = "st\<lparr>ds_cycles := ds_cycles st @ [drop i (ds_path st) @ [nb]]\<rparr>"
    have "colour_of ?st = colour_of st" by (simp add: colour_of_def fun_eq_iff)
    with i Cons.prems(1) GRAY show ?thesis
      by (intro exI [of _ ?st]) (auto simp: dfs_ok_def dfs_kept_def visited_all_def)
  next
    case WHITE
    obtain st1 where "dfs fuel g nb st = Inr st1" "dfs_ok g st1" "dfs_kept st st1"
      "colour_of st1 nb = BLACK"
      using spec Cons.prems(1,4) WHITE edge edge_names [OF edge] unfolding dfs_spec_def by blast
    with WHITE show ?thesis by (auto simp: visited_all_def)
  next
    case BLACK
    with Cons.prems(1) show ?thesis by (auto simp: visited_all_def)
  qed
  then obtain st1 where st1: "?body nb st = Inr st1" "dfs_ok g st1" "dfs_kept st st1"
    "visited_all [nb] st1" by blast
  have path: "ds_path st1 = ds_path st" using st1(3) by (simp add: dfs_kept_def)
  have "card (whites g st1) \<le> card (whites g st)"
    using dfs_kept_whites [OF st1(3)] by (intro card_mono) simp_all
  with Cons.prems path Cons.IH [OF st1(2)] obtain st2 where
    st2: "efold ?body nbs st1 = Inr st2" "dfs_ok g st2" "dfs_kept st1 st2" "visited_all nbs st2"
    by auto
  have "visited_all (nb # nbs) st2"
    using visited_all_kept [OF st1(4) st2(3)] st2(4) by (auto simp: visited_all_def)
  with st1 st2 dfs_kept_trans show ?case by (intro exI [of _ st2]) auto
qed

lemma colour_put: "colour_of (st\<lparr>ds_color := dput n c (ds_color st)\<rparr>) m = (if m = n then c else colour_of st m)"
  by (simp add: colour_of_def dget_or_def)

lemma acyclic_insert_closed:
  assumes "acyclic (E \<inter> B \<times> B)" and "E `` B \<subseteq> B" and "n \<notin> B" and "(n, n) \<notin> E"
  shows "acyclic (E \<inter> insert n B \<times> insert n B)"
proof -
  let ?E = "E \<inter> insert n B \<times> insert n B"
  have stay: "y \<in> B \<and> (x, y) \<in> (E \<inter> B \<times> B)\<^sup>+" if "(x, y) \<in> ?E\<^sup>+" "x \<in> B" for x y
    using that
  proof (induction rule: trancl_induct)
    case (base y)
    with assms(2) show ?case by (auto intro!: r_into_trancl)
  next
    case (step y z)
    with assms(2) have "z \<in> B" "(y, z) \<in> E \<inter> B \<times> B" by auto
    with step show ?case by (auto intro: trancl_into_trancl)
  qed
  have "(x, x) \<notin> ?E\<^sup>+" for x
  proof
    assume cyc: "(x, x) \<in> ?E\<^sup>+"
    show False
    proof (cases "x \<in> B")
      case True
      with stay [OF cyc] assms(1) show False by (simp add: acyclic_def)
    next
      case False
      from cyc obtain y where y: "(x, y) \<in> ?E" "(y, x) \<in> ?E\<^sup>*" by (meson tranclD)
      with False assms(4) have "x = n" "y \<in> B" by auto
      with y(2) False have "(y, x) \<in> ?E\<^sup>+" by (metis rtranclD)
      with stay \<open>y \<in> B\<close> False show False by blast
    qed
  qed
  then show ?thesis by (simp add: acyclic_def)
qed

lemma dfs_spec: "dfs_spec fuel g"
proof (induction fuel)
  case 0
  have "whites g st \<noteq> {}" if "colour_of st n = WHITE" "n \<in> names_of g" for st n
    using that by auto
  then show ?case unfolding dfs_spec_def by (metis (no_types, lifting) card_0_eq finite_whites le_zero_eq)
next
  case (Suc fuel)
  show ?case unfolding dfs_spec_def
  proof (intro allI impI, elim conjE)
    fix node st
    assume ok: "dfs_ok g st" and white: "colour_of st node = WHITE" and name: "node \<in> names_of g"
      and top: "ds_path st \<noteq> [] \<longrightarrow> (last (ds_path st), node) \<in> edges g"
      and fuel: "card (whites g st) \<le> Suc fuel"
    let ?s0 = "st\<lparr>ds_color := dput node GRAY (ds_color st), ds_path := ds_path st @ [node]\<rparr>"
    have col0: "colour_of ?s0 n = (if n = node then GRAY else colour_of st n)" for n
      by (simp add: colour_of_def dget_or_def)
    have fresh: "node \<notin> set (ds_path st)" using ok white by (simp add: dfs_ok_def)
    have blacks0: "blacks ?s0 = blacks st" using white by (auto simp: col0)
    have ok0: "dfs_ok g ?s0"
      using ok fresh top unfolding dfs_ok_def blacks0
      by (auto simp: col0 successively_append_iff)
    have "whites g ?s0 = whites g st - {node}" by (auto simp: col0)
    then have "card (whites g ?s0) = card (whites g st) - 1"
      using white name by (simp add: card_Diff_singleton)
    then have fuel0: "card (whites g ?s0) \<le> fuel" using fuel by simp
    have nbs: "\<forall>nb \<in> set (dget_or g node []). (last (ds_path ?s0), nb) \<in> edges g"
      by (simp add: edges_def)
    obtain s1 where loop: "efold (\<lambda>neighbor st.
          if colour_of st neighbor = GRAY
          then ebind (index_of neighbor (ds_path st))
                 (\<lambda>start. Inr (st\<lparr>ds_cycles := ds_cycles st
                                     @ [drop start (ds_path st) @ [neighbor]]\<rparr>))
          else if colour_of st neighbor = WHITE then dfs fuel g neighbor st
          else Inr st) (dget_or g node []) ?s0 = Inr s1"
      and ok1: "dfs_ok g s1" and kept1: "dfs_kept ?s0 s1"
      and all1: "visited_all (dget_or g node []) s1"
      using dfs_loop [OF Suc ok0 _ nbs fuel0] by auto
    define s2 where
      "s2 = s1\<lparr>ds_path := butlast (ds_path s1), ds_color := dput node BLACK (ds_color s1)\<rparr>"
    have run: "dfs (Suc fuel) g node st = Inr s2" using loop by (simp add: s2_def)
    have path1: "ds_path s1 = ds_path st @ [node]" using kept1 by (simp add: dfs_kept_def)
    have path2: "ds_path s2 = ds_path st" and cycles2: "ds_cycles s2 = ds_cycles s1"
      by (simp_all add: s2_def path1)
    have gray1: "colour_of s1 node = GRAY" using kept1 col0 by (simp add: dfs_kept_def)
    have col2: "colour_of s2 n = (if n = node then BLACK else colour_of s1 n)" for n
      by (simp add: colour_of_def dget_or_def s2_def)
    have blacks2: "blacks s2 = insert node (blacks s1)" by (auto simp: col2)
    have closed: "edges g `` blacks s2 \<subseteq> blacks s2 \<and>
        acyclic (edges g \<inter> blacks s2 \<times> blacks s2)" if none: "ds_cycles s1 = []"
    proof -
      have bs: "edges g `` blacks s1 \<subseteq> blacks s1" "acyclic (edges g \<inter> blacks s1 \<times> blacks s1)"
        using ok1 none by (auto simp: dfs_ok_def)
      have out: "nb \<in> blacks s1" if "(node, nb) \<in> edges g" for nb
        using that none all1 by (auto simp: visited_all_def edges_def)
      have "node \<notin> blacks s1" using gray1 by simp
      moreover from this out have "(node, node) \<notin> edges g" by blast
      ultimately show ?thesis
        using acyclic_insert_closed [OF bs(2,1)] bs(1) out unfolding blacks2 by blast
    qed
    have ok2: "dfs_ok g s2"
    proof -
      have "set (ds_path st) = {n. colour_of s2 n = GRAY}"
        using ok1 path1 fresh gray1 by (auto simp: dfs_ok_def col2)
      moreover have "distinct (ds_path st)"
        "successively (\<lambda>a b. (a, b) \<in> edges g) (ds_path st)" using ok by (simp_all add: dfs_ok_def)
      moreover have "\<forall>c \<in> set (ds_cycles s1). is_cycle g c" using ok1 by (simp add: dfs_ok_def)
      ultimately show ?thesis using closed path2 cycles2 unfolding dfs_ok_def by simp
    qed
    have kept2: "dfs_kept st s2"
      using kept1 path2 cycles2 white col0 by (auto simp: dfs_kept_def col2)
    show "\<exists>st'. dfs (Suc fuel) g node st = Inr st' \<and> dfs_ok g st' \<and> dfs_kept st st'
        \<and> colour_of st' node = BLACK"
      using run ok2 kept2 col2 by (intro exI [of _ s2]) simp
  qed
qed

subsection \<open>The whole graph\<close>

lemma successively_rtrancl:
  "successively (\<lambda>a b. (a, b) \<in> E) c \<Longrightarrow> c \<noteq> [] \<Longrightarrow> (hd c, last c) \<in> E\<^sup>*"
proof (induction c rule: induct_list012)
  case (3 x y zs)
  then show ?case by (auto intro: converse_rtrancl_into_rtrancl)
qed auto

lemma is_cycle_trancl: "is_cycle g c \<Longrightarrow> \<exists>x. (x, x) \<in> (edges g)\<^sup>+"
proof -
  assume cyc: "is_cycle g c"
  then obtain x y zs where c: "c = x # y # zs"
    by (cases c; cases "tl c") (auto simp: is_cycle_def)
  with cyc have "(x, y) \<in> edges g" "successively (\<lambda>a b. (a, b) \<in> edges g) (y # zs)"
    "last (y # zs) = x" by (auto simp: is_cycle_def)
  with successively_rtrancl [of "edges g" "y # zs"] have "(x, x) \<in> (edges g)\<^sup>+"
    by (metis list.distinct(1) list.sel(1) rtrancl_into_trancl2)
  then show ?thesis by blast
qed

abbreviation start_state :: dfs_state where
  "start_state \<equiv> \<lparr>ds_color = [], ds_path = [], ds_cycles = []\<rparr>"

lemma detect_loop:
  assumes "set ns \<subseteq> names_of g" and "dfs_ok g st" and "ds_path st = []"
  shows "\<exists>st'. efold (\<lambda>node st.
              if colour_of st node = WHITE then dfs (Suc (length (graph_names g))) g node st
              else Inr st) ns st = Inr st'
     \<and> dfs_ok g st' \<and> ds_path st' = [] \<and> dfs_kept st st' \<and> (\<forall>n \<in> set ns. colour_of st' n = BLACK)"
  using assms
proof (induction ns arbitrary: st)
  case (Cons n ns)
  let ?body = "\<lambda>node st.
              if colour_of st node = WHITE then dfs (Suc (length (graph_names g))) g node st
              else Inr st"
  have "card (whites g st) \<le> card (names_of g)" by (intro card_mono) (auto simp: names_of_def)
  also have "\<dots> \<le> length (graph_names g)" by (simp add: names_of_def card_length)
  finally have fuel: "card (whites g st) \<le> Suc (length (graph_names g))" by simp
  have "\<exists>st1. ?body n st = Inr st1 \<and> dfs_ok g st1 \<and> dfs_kept st st1 \<and> colour_of st1 n = BLACK"
  proof (cases "colour_of st n = WHITE")
    case True
    have "n \<in> names_of g" using Cons.prems(1) by simp
    then obtain st1 where "dfs (Suc (length (graph_names g))) g n st = Inr st1" "dfs_ok g st1"
      "dfs_kept st st1" "colour_of st1 n = BLACK"
      using True fuel Cons.prems(2,3) dfs_spec [of "Suc (length (graph_names g))" g]
      unfolding dfs_spec_def by blast
    with True show ?thesis by (simp del: dfs.simps)
  next
    case False
    moreover from Cons.prems(2,3) have "colour_of st n \<noteq> GRAY" by (auto simp: dfs_ok_def)
    ultimately have "colour_of st n = BLACK" by (cases "colour_of st n") auto
    with Cons.prems(2) show ?thesis by auto
  qed
  then obtain st1 where st1: "?body n st = Inr st1" "dfs_ok g st1" "dfs_kept st st1"
    "colour_of st1 n = BLACK" by blast
  then have "ds_path st1 = []" using Cons.prems(3) by (simp add: dfs_kept_def)
  with Cons.IH [OF _ st1(2)] Cons.prems(1) obtain st2 where
    st2: "efold ?body ns st1 = Inr st2" "dfs_ok g st2" "ds_path st2 = []" "dfs_kept st1 st2"
      "\<forall>n \<in> set ns. colour_of st2 n = BLACK" by auto
  have "colour_of st2 n = BLACK" using st1(4) st2(4) by (simp add: dfs_kept_def)
  with st1 st2 dfs_kept_trans show ?case by (intro exI [of _ st2]) auto
qed simp

lemma detect_cycles_ok:
  "\<exists>cs. detect_cycles g = Inr cs \<and> (\<forall>c \<in> set cs. is_cycle g c) \<and> (cs = [] \<longleftrightarrow> acyclic (edges g))"
proof -
  have start: "dfs_ok g start_state" by (simp add: dfs_ok_def colour_of_def dget_or_def acyclic_def)
  have names: "set (dkeys g) \<subseteq> names_of g" by (simp add: names_of_def graph_names_def)
  obtain st where st: "efold (\<lambda>node st.
              if colour_of st node = WHITE then dfs (Suc (length (graph_names g))) g node st
              else Inr st) (dkeys g) start_state = Inr st"
    and ok: "dfs_ok g st" and black: "\<forall>n \<in> set (dkeys g). colour_of st n = BLACK"
    using detect_loop [OF names start] by auto
  have run: "detect_cycles g = Inr (ds_cycles st)" using st by (simp add: detect_cycles_def)
  have cycles: "\<forall>c \<in> set (ds_cycles st). is_cycle g c" using ok by (simp add: dfs_ok_def)
  have "ds_cycles st = [] \<longleftrightarrow> acyclic (edges g)"
  proof
    assume none: "ds_cycles st = []"
    have src: "a \<in> blacks st" if "(a, b) \<in> edges g" for a b
    proof -
      from that have "dget g a \<noteq> None" by (cases "dget g a") (auto simp: edges_def dget_or_def)
      then have "a \<in> set (dkeys g)" unfolding in_dkeys_iff .
      with black have "colour_of st a = BLACK" by (rule bspec)
      then show ?thesis by simp
    qed
    have closed: "edges g `` blacks st \<subseteq> blacks st" and ac: "acyclic (edges g \<inter> blacks st \<times> blacks st)"
      using ok none by (auto simp: dfs_ok_def)
    have "edges g \<inter> blacks st \<times> blacks st = edges g"
    proof (intro Int_absorb2 subrelI)
      fix a b assume e: "(a, b) \<in> edges g"
      with closed have "a \<in> blacks st \<Longrightarrow> b \<in> blacks st" by blast
      with src [OF e] show "(a, b) \<in> blacks st \<times> blacks st" by simp
    qed
    with ac show "acyclic (edges g)" by simp
  next
    assume "acyclic (edges g)"
    then have "\<not> is_cycle g c" for c using is_cycle_trancl by (auto simp: acyclic_def)
    with cycles show "ds_cycles st = []" by (cases "ds_cycles st") auto
  qed
  with run cycles show ?thesis by blast
qed

subsection \<open>The report\<close>

lemma fold_min_member: "fold min ys (x :: 'a :: linorder) \<in> insert x (set ys)"
proof (induction ys arbitrary: x)
  case (Cons y ys)
  from Cons [of "min y x"] show ?case by (auto simp: min_def)
qed simp

lemma rotate_min_ok: "loop \<noteq> [] \<Longrightarrow> \<exists>r. rotate_min loop = Inr r"
proof -
  assume loop: "loop \<noteq> []"
  then have "fold min (tl loop) (hd loop) \<in> set loop"
    using fold_min_member [of "tl loop" "hd loop"] by (cases loop) auto
  with loop show ?thesis using index_of_member by (fastforce simp: rotate_min_def)
qed

lemma dedup_cycles_ok: "\<forall>c \<in> set cs. is_cycle g c \<Longrightarrow> \<exists>us. dedup_cycles cs = Inr us \<and> set us \<subseteq> set cs"
proof -
  let ?f = "\<lambda>cycle (seen, unique). ebind (rotate_min (butlast cycle)) (\<lambda>normalized.
                if normalized \<in> set seen then Inr (seen, unique)
                else Inr (normalized # seen, unique @ [cycle]))"
  assume cycles: "\<forall>c \<in> set cs. is_cycle g c"
  have "\<exists>seen' us. efold ?f ds (seen, us0) = Inr (seen', us0 @ us) \<and> set us \<subseteq> set ds"
    if "set ds \<subseteq> set cs" for ds seen us0
    using that
  proof (induction ds arbitrary: seen us0)
    case (Cons d ds)
    from Cons.prems cycles have "is_cycle g d" by simp
    then have "butlast d \<noteq> []" by (cases d) (auto simp: is_cycle_def)
    then obtain r where r: "rotate_min (butlast d) = Inr r" using rotate_min_ok by blast
    show ?case
    proof (cases "r \<in> set seen")
      case True
      from Cons.IH [of seen us0] Cons.prems obtain s' us where
        "efold ?f ds (seen, us0) = Inr (s', us0 @ us)" "set us \<subseteq> set ds" by auto
      with r True show ?thesis by auto
    next
      case False
      from Cons.IH [of "r # seen" "us0 @ [d]"] Cons.prems obtain s' us where
        "efold ?f ds (r # seen, us0 @ [d]) = Inr (s', (us0 @ [d]) @ us)" "set us \<subseteq> set ds" by auto
      with r False show ?thesis by (intro exI [of _ s'] exI [of _ "d # us"]) auto
    qed
  qed simp
  from this [of cs "[]" "[]"] show ?thesis by (auto simp: dedup_cycles_def)
qed

lemma report_cycles_ok:
  assumes "\<forall>c \<in> set cs. is_cycle g c"
  shows "\<exists>out. report_cycles cs refs = Inr (out, if cs = [] then 0 else 1)"
  using dedup_cycles_ok [OF assms] by (auto simp: report_cycles_def)

subsection \<open>Inherited references\<close>

interpretation ancestors: visited_loop "parent_of h" "ancestors_loop h" for h
proof
  show "finite {x. parent_of h x \<noteq> None}"
  proof (rule finite_subset)
    show "{x. parent_of h x \<noteq> None} \<subseteq> set (dkeys h)"
      unfolding subset_iff in_dkeys_iff by (auto simp: parent_of_def split: option.splits)
  qed simp
qed auto

definition parent_rel :: "(string, string option) dict \<Rightarrow> (string \<times> string) set" where
  "parent_rel h = {(x, y). parent_of h x = Some y}"

lemma set_get_ancestors: "set (get_ancestors h c) = {y. (c, y) \<in> (parent_rel h)\<^sup>+}"
proof (cases "parent_of h c")
  case None
  then have "(c, y) \<notin> (parent_rel h)\<^sup>+" for y
    by (auto simp: parent_rel_def dest: tranclD)
  with None show ?thesis by (simp add: get_ancestors_def)
next
  case (Some s)
  have "(c, y) \<in> (parent_rel h)\<^sup>+ \<longleftrightarrow> (s, y) \<in> (parent_rel h)\<^sup>*" for y
  proof
    assume "(c, y) \<in> (parent_rel h)\<^sup>+"
    then obtain z where "(c, z) \<in> parent_rel h" "(z, y) \<in> (parent_rel h)\<^sup>*" by (meson tranclD)
    with Some show "(s, y) \<in> (parent_rel h)\<^sup>*" by (simp add: parent_rel_def)
  next
    assume "(s, y) \<in> (parent_rel h)\<^sup>*"
    moreover have "(c, s) \<in> parent_rel h" using Some by (simp add: parent_rel_def)
    ultimately show "(c, y) \<in> (parent_rel h)\<^sup>+" by (rule rtrancl_into_trancl2 [rotated])
  qed
  then show ?thesis
    using Some ancestors.set_loop [of h s] by (simp add: get_ancestors_def parent_rel_def)
qed

definition refs_of :: "refs \<Rightarrow> string \<Rightarrow> (string \<times> string) set" where
  "refs_of refs c = set (dget_or refs c [])"

lemma refs_of_put: "refs_of (dput k v d) c = (if c = k then set v else refs_of d c)"
  by (simp add: refs_of_def dget_or_def)

lemma inherit_refs_set:
  "refs_of (inherit_refs sr cls ancs ex) c
     = (if c = cls then refs_of ex c \<union> (\<Union>a \<in> set ancs. refs_of sr a) else refs_of ex c)"
proof -
  have "refs_of (fold (\<lambda>ref ex. dput cls (add_new ref (dget_or ex cls [])) ex) rs ex) c
      = (if c = cls then refs_of ex c \<union> set rs else refs_of ex c)" for rs
    by (induction rs arbitrary: ex) (auto simp: refs_of_put, auto simp: refs_of_def)
  then show ?thesis by (simp add: inherit_refs_def refs_of_def)
qed

lemma resolve_inheritance_set:
  "refs_of (resolve_inheritance h sr) c =
     refs_of sr c \<union> (if c \<in> set (dkeys h) then \<Union>a \<in> {a. (c, a) \<in> (parent_rel h)\<^sup>+}. refs_of sr a else {})"
proof -
  have "refs_of (fold (\<lambda>cls. inherit_refs sr cls (get_ancestors h cls)) cs ex) c
     = refs_of ex c \<union> (if c \<in> set cs then \<Union>a \<in> {a. (c, a) \<in> (parent_rel h)\<^sup>+}. refs_of sr a else {})"
    for cs ex
    by (induction cs arbitrary: ex) (auto simp: inherit_refs_set set_get_ancestors)
  then show ?thesis by (simp add: resolve_inheritance_def)
qed

lemma distinct_fold_put:
  "distinct (dkeys d) \<Longrightarrow> distinct (dkeys (fold (\<lambda>x d. dput (k x) (v x d) d) xs d))"
  by (induction xs arbitrary: d) auto

lemma distinct_resolve_inheritance:
  "distinct (dkeys sr) \<Longrightarrow> distinct (dkeys (resolve_inheritance h sr))"
proof -
  have "distinct (dkeys ex) \<Longrightarrow> distinct (dkeys (inherit_refs sr cls ancs ex))" for cls ancs ex
    unfolding inherit_refs_def
    by (rule distinct_fold_put [where k = "\<lambda>_. cls" and v = "\<lambda>ref ex. add_new ref (dget_or ex cls [])"])
  then have "distinct (dkeys ex) \<Longrightarrow>
      distinct (dkeys (fold (\<lambda>cls. inherit_refs sr cls (get_ancestors h cls)) cs ex))" for cs ex
    by (induction cs arbitrary: ex) auto
  then show "distinct (dkeys sr) \<Longrightarrow> distinct (dkeys (resolve_inheritance h sr))"
    by (simp add: resolve_inheritance_def)
qed

lemma build_graph_edges:
  assumes "distinct (dkeys refs)" and "\<And>xs. set (set_order xs) = set xs"
  shows "edges (build_graph set_order refs) = {(a, b). \<exists>f. (f, b) \<in> refs_of refs a}"
proof -
  let ?f = "\<lambda>(cls, rs). fold (\<lambda>(field, target) g. dput cls (add_new target (dget_or g cls [])) g) rs"
  have inner: "set (dget_or (fold (\<lambda>(field, target) g. dput cls (add_new target (dget_or g cls [])) g) rs g) a [])
      = set (dget_or g a []) \<union> {b. a = cls \<and> (\<exists>f. (f, b) \<in> set rs)}" for cls rs g a
    by (induction rs arbitrary: g) (auto split: if_splits)
  have loop: "set (dget_or (fold ?f crs g) a []) = set (dget_or g a [])
      \<union> {b. \<exists>rs f. (a, rs) \<in> set crs \<and> (f, b) \<in> set rs}" for crs g a
  proof (induction crs arbitrary: g)
    case (Cons cr crs)
    obtain c rs where cr: "cr = (c, rs)" by fastforce
    show ?case unfolding cr fold_Cons comp_def Cons.IH
      by (auto simp: inner)
  qed simp
  have "(a, rs) \<in> set refs \<longleftrightarrow> dget refs a = Some rs" for a rs
    using assms(1) by simp
  then have target: "(\<exists>rs f. (a, rs) \<in> set refs \<and> (f, b) \<in> set rs) \<longleftrightarrow> (\<exists>f. (f, b) \<in> refs_of refs a)" for a b
    by (cases "dget refs a") (auto simp: refs_of_def dget_or_def)
  have "set (dget_or (build_graph set_order refs) a []) = set (dget_or (fold ?f refs []) a [])" for a
    using assms(2) unfolding build_graph_def dget_or_map_vals
    by (cases "dget (fold ?f refs []) a") (simp_all add: dget_or_def)
  then show ?thesis using loop [of refs "[]"] target by (auto simp: edges_def)
qed

subsection \<open>The files\<close>

definition import_closed :: "world \<Rightarrow> string list \<Rightarrow> string list \<Rightarrow> string list \<Rightarrow> bool" where
  "import_closed w dirs queue fs \<longleftrightarrow>
     (\<forall>a \<in> set fs. \<forall>i \<in> set (resolve_imports w a dirs).
        i \<in> set fs \<or> abs_path w i \<in> set fs \<or> \<not> w_is_file w (abs_path w i) \<or> i \<in> set queue)"

lemma collect_loop_ok:
  assumes "finite {p. w_is_file w p}" and "distinct fs" and "\<forall>p \<in> set fs. w_is_file w p"
    and "import_closed w dirs queue fs"
  shows "\<exists>rs. collect_loop w dirs queue fs = Some rs \<and> distinct rs \<and> (\<forall>p \<in> set rs. w_is_file w p)
     \<and> set fs \<subseteq> set rs \<and> import_closed w dirs [] rs
     \<and> (\<forall>q \<in> set queue. w_is_file w (abs_path w q) \<longrightarrow> abs_path w q \<in> set rs)"
  using assms(2-)
proof (induction "(card ({p. w_is_file w p} - set fs), length queue)" arbitrary: queue fs
    rule: wf_induct_rule [OF wf_lex_prod [OF wf_less_than wf_less_than]])
  case (1 queue fs)
  note IH = "1.hyps" and ok = "1.prems"
  show ?case
  proof (cases "queue = []")
    case True
    with ok show ?thesis by (subst collect_loop.simps) auto
  next
    case False
    define p where "p = abs_path w (last queue)"
    have queue: "set queue = insert (last queue) (set (butlast queue))"
      using False by (metis append_butlast_last_id list.simps(15) rotate1.simps(2) set_rotate1)
    show ?thesis
    proof (cases "p \<in> set fs \<or> \<not> w_is_file w p")
      case True
      have "import_closed w dirs (butlast queue) fs"
        using ok(3) True queue unfolding import_closed_def p_def by auto
      moreover have "((card ({p. w_is_file w p} - set fs), length (butlast queue)),
           (card ({p. w_is_file w p} - set fs), length queue)) \<in> less_than <*lex*> less_than"
        using False by (cases queue) auto
      ultimately obtain rs where "collect_loop w dirs (butlast queue) fs = Some rs" "distinct rs"
        "\<forall>p \<in> set rs. w_is_file w p" "set fs \<subseteq> set rs" "import_closed w dirs [] rs"
        "\<forall>q \<in> set (butlast queue). w_is_file w (abs_path w q) \<longrightarrow> abs_path w q \<in> set rs"
        using IH [of fs "butlast queue"] ok(1,2) by blast
      with True False show ?thesis unfolding p_def
        by (subst collect_loop.simps) (auto simp: Let_def queue)
    next
      case new: False
      define queue' where "queue' = butlast queue
        @ filter (\<lambda>i. i \<notin> set (fs @ [p])) (resolve_imports w p dirs)"
      have "import_closed w dirs queue' (fs @ [p])"
        using ok(3) queue unfolding import_closed_def queue'_def p_def by auto
      moreover have "card ({p. w_is_file w p} - set (fs @ [p])) < card ({p. w_is_file w p} - set fs)"
        using new assms(1) by (intro psubset_card_mono) auto
      then have "((card ({p. w_is_file w p} - set (fs @ [p])), length queue'),
           (card ({p. w_is_file w p} - set fs), length queue)) \<in> less_than <*lex*> less_than"
        by simp
      ultimately obtain rs where "collect_loop w dirs queue' (fs @ [p]) = Some rs" "distinct rs"
        "\<forall>p \<in> set rs. w_is_file w p" "set (fs @ [p]) \<subseteq> set rs" "import_closed w dirs [] rs"
        "\<forall>q \<in> set queue'. w_is_file w (abs_path w q) \<longrightarrow> abs_path w q \<in> set rs"
        using IH [of "fs @ [p]" queue'] ok(1,2) new by auto
      with new False show ?thesis unfolding p_def queue'_def
        by (subst collect_loop.simps) (auto simp: Let_def queue)
    qed
  qed
qed

text \<open>
  C40. When the disk holds finitely many files, the import closure ends, whatever the files
  import (themselves included): it returns each file once, among them every source that is
  a file, and every quoted import of a returned file that resolves to a file.
\<close>

theorem collect_all_files_closed:
  assumes "finite {p. w_is_file w p}"
  shows "\<exists>fs. collect_all_files w sources dirs = Some fs \<and> distinct fs \<and>
     (\<forall>s \<in> set sources. w_is_file w (abs_path w s) \<longrightarrow> abs_path w s \<in> set fs) \<and>
     (\<forall>a \<in> set fs. w_is_file w a \<and> (\<forall>i \<in> set (resolve_imports w a dirs).
        i \<in> set fs \<or> abs_path w i \<in> set fs \<or> \<not> w_is_file w (abs_path w i)))"
  using collect_loop_ok [OF assms, of "[]" dirs sources]
  by (force simp: collect_all_files_def import_closed_def)

definition demo_world :: world where
  "demo_world = \<lparr>w_cwd = ''/w'', w_is_file = (\<lambda>p. p = ''/w/a.m'' \<or> p = ''/w/b.h''),
     w_read = (\<lambda>p. if p = ''/w/a.m'' then ''#import '' @ [dquote] @ ''b.h'' @ [dquote]
                  else ''#import '' @ [dquote] @ ''a.m'' @ [dquote]),
     w_ts_parse = (\<lambda>s. TsNode ''translation_unit'' 0 0 (0, 0) [] s []),
     w_captures = (\<lambda>q n. [])\<rparr>"

theorem collect_all_files_closed_witness:
  "\<exists>fs. collect_all_files demo_world [''a.m''] [] = Some fs \<and> distinct fs \<and> ''/w/a.m'' \<in> set fs"
proof -
  have "finite {p. w_is_file demo_world p}"
    by (rule finite_subset [of _ "{''/w/a.m'', ''/w/b.h''}"]) (auto simp: demo_world_def)
  moreover have "abs_path demo_world ''a.m'' = ''/w/a.m''" by code_simp
  moreover have "w_is_file demo_world ''/w/a.m''" by (simp add: demo_world_def)
  ultimately show ?thesis
    using collect_all_files_closed [of demo_world "[''a.m'']" "[]"] by auto
qed

subsection \<open>The verdict\<close>

text \<open>
  C12. The depth-first search always ends without an exception (its \<open>path.index\<close> included),
  every path it returns is a cycle of the graph, and it returns none exactly when the graph
  has no cycle, for every order in which the sets are iterated.
\<close>

theorem detect_cycles_correct:
  "\<exists>cs. detect_cycles g = Inr cs \<and>
     (\<forall>c \<in> set cs. 2 \<le> length c \<and> hd c = last c \<and> distinct (butlast c) \<and>
        successively (\<lambda>a b. b \<in> set (dget_or g a [])) c) \<and>
     (cs = [] \<longleftrightarrow> acyclic {(a, b). b \<in> set (dget_or g a [])})"
  using detect_cycles_ok [of g] by (simp add: is_cycle_def edges_def)

theorem detect_cycles_correct_witness:
  "\<exists>cs. detect_cycles [(''A'', [''B'']), (''B'', [''C'', ''A''])] = Inr cs \<and>
     (\<forall>c \<in> set cs. hd c = last c)"
  using detect_cycles_correct [of "[(''A'', [''B'']), (''B'', [''C'', ''A''])]"] by auto

text \<open>
  C39. Inheritance propagates references to all descendants: after \<open>resolve_inheritance\<close> a
  class refers to what it refers to itself and, if it was declared, to everything one of
  its ancestors refers to, also when the declared hierarchy has a cycle.
\<close>

theorem resolve_inheritance_ancestors:
  "set (dget_or (resolve_inheritance h sr) c []) =
     set (dget_or sr c []) \<union>
     (if c \<in> set (dkeys h) then {r. \<exists>a. (c, a) \<in> {(x, y). parent_of h x = Some y}\<^sup>+
                                     \<and> r \<in> set (dget_or sr a [])} else {})"
  using resolve_inheritance_set [of h sr c] by (auto simp: refs_of_def parent_rel_def)

lemma add_ref_distinct: "distinct (dkeys d) \<Longrightarrow> distinct (dkeys (add_ref c r d))"
  by (simp add: add_ref_def)

lemma scan_interface_distinct:
  "distinct (dkeys (snd s)) \<Longrightarrow> distinct (dkeys (snd (scan_interface w known n s)))"
proof -
  have "distinct (dkeys d) \<Longrightarrow> distinct (dkeys (fold (add_ref c) rs d))" for c rs d
    by (rule fold_invariant_set [where P = "\<lambda>d. distinct (dkeys d)"]) (auto simp: add_ref_distinct)
  then show "distinct (dkeys (snd s)) \<Longrightarrow> distinct (dkeys (snd (scan_interface w known n s)))"
    by (cases s) (auto simp: scan_interface_def split: option.splits)
qed

lemma collect_class_info_distinct:
  "collect_class_info w fs = (h, sr, known) \<Longrightarrow> distinct (dkeys sr)"
proof -
  let ?f = "\<lambda>path. fold (scan_interface w (known_class_names w fs))
                     (w_captures w ''(class_interface) @iface'' (file_root w path))"
  have "distinct (dkeys (snd (fold ?f fs ([], []))))"
    by (rule fold_invariant_set [where P = "\<lambda>s. distinct (dkeys (snd s))"])
       (auto intro!: fold_invariant_set [where P = "\<lambda>s. distinct (dkeys (snd s))"]
             simp: scan_interface_distinct)
  then show "collect_class_info w fs = (h, sr, known) \<Longrightarrow> distinct (dkeys sr)"
    by (auto simp: collect_class_info_def Let_def split_beta)
qed

text \<open>
  C13. The exit code of the checker is 1 exactly when some class reaches itself along strong
  references, its own or inherited, and 0 otherwise; the run raises nothing.
\<close>

theorem check_cycles_exit_code:
  assumes "\<And>xs. set (set_order xs) = set xs"
    and "collect_class_info w (set_order files) = (h, sr, known)"
  shows "\<exists>out. check_cycles_main set_order w files =
     Inr (out, if acyclic {(a, b). \<exists>f. (f, b) \<in> set (dget_or (resolve_inheritance h sr) a [])}
               then 0 else 1)"
proof -
  let ?refs = "resolve_inheritance h sr"
  have "distinct (dkeys ?refs)"
    by (intro distinct_resolve_inheritance collect_class_info_distinct [OF assms(2)])
  from build_graph_edges [OF this assms(1)]
  have graph: "edges (build_graph set_order ?refs) = {(a, b). \<exists>f. (f, b) \<in> set (dget_or ?refs a [])}"
    by (simp add: refs_of_def)
  show ?thesis
  proof (cases "sr = []")
    case True
    have "refs_of (resolve_inheritance h []) c = {}" for c
      unfolding resolve_inheritance_set by (simp add: refs_of_def)
    then have "{(a, b). \<exists>f. (f, b) \<in> set (dget_or ?refs a [])} = {}"
      using True by (simp add: refs_of_def)
    then show ?thesis using True assms(2) by (simp add: check_cycles_main_def acyclic_def)
  next
    case False
    from detect_cycles_ok [of "build_graph set_order ?refs"] obtain cs where
      cs: "detect_cycles (build_graph set_order ?refs) = Inr cs"
        "\<forall>c \<in> set cs. is_cycle (build_graph set_order ?refs) c"
        "cs = [] \<longleftrightarrow> acyclic {(a, b). \<exists>f. (f, b) \<in> set (dget_or ?refs a [])}"
      unfolding graph by blast
    from report_cycles_ok [OF cs(2)] obtain out where
      "report_cycles cs ?refs = Inr (out, if cs = [] then 0 else 1)" by blast
    with cs(1,3) False assms(2) show ?thesis by (simp add: check_cycles_main_def)
  qed
qed

text \<open>A source with one class that holds a strong reference to its own kind.\<close>

definition leaf_node :: "string \<Rightarrow> string \<Rightarrow> ts_node" where
  "leaf_node ty txt = TsNode ty 0 0 (0, 0) [] txt []"

definition node_interface :: ts_node where
  "node_interface = TsNode ''class_interface'' 0 0 (0, 0) [] []
     [leaf_node ''identifier'' ''Node'',
      TsNode ''instance_variables'' 0 0 (0, 0) [] []
        [TsNode ''field_declaration'' 0 0 (0, 0) [] ''Node *next;''
           [leaf_node ''type_identifier'' ''Node'',
            TsNode ''pointer_declarator'' 0 0 (0, 0) [] ''*next'' [leaf_node ''field_identifier'' ''next'']]]]"

definition node_world :: world where
  "node_world = demo_world
     \<lparr>w_captures := (\<lambda>q n. if q = ''(class_interface) @iface'' then [node_interface] else [])\<rparr>"

theorem check_cycles_exit_code_witness:
  "\<exists>out. check_cycles_main id node_world [''/w/a.m''] = Inr (out, 1)"
proof -
  let ?h = "[(''Node'', None)]" and ?sr = "[(''Node'', [(''next'', ''Node'')])]"
  have info: "collect_class_info node_world (id [''/w/a.m'']) = (?h, ?sr, [''Node''])" by code_simp
  have "dget_or (resolve_inheritance ?h ?sr) ''Node'' [] = [(''next'', ''Node'')]" by code_simp
  then have "(''Node'', ''Node'') \<in> {(a, b). \<exists>f. (f, b) \<in> set (dget_or (resolve_inheritance ?h ?sr) a [])}"
    by simp
  then have "\<not> acyclic {(a, b). \<exists>f. (f, b) \<in> set (dget_or (resolve_inheritance ?h ?sr) a [])}"
    unfolding acyclic_def by blast
  with check_cycles_exit_code [where set_order = id and w = node_world and files = "[''/w/a.m'']", OF _ info]
  show ?thesis by simp
qed

end
