(* ===== verification/Table_Sizes.thy ===== *)
theory Table_Sizes
  imports World Py_Dict "HOL-Library.List_Lexorder" "HOL-Library.Char_ord"
begin

text \<open>
  \<open>scripts/objz_gen_table_sizes.py\<close>: the metadata of a set of sources is counted on their
  syntax trees, and the sizes of the runtime's tables are computed from the counts. The
  division \<open>nm / 0.6\<close> is modelled in binary floating point (\<open>float_ceil_div\<close>), so that
  the bound on the load factor of the hash table is proved of the value the code computes.
\<close>

subsection \<open>Selectors\<close>

definition is_class_method_node :: "ts_node \<Rightarrow> bool" where
  "is_class_method_node n = startswith (lstrip (ts_text n)) ''+''"

definition selector_part :: "ts_node \<Rightarrow> string list \<Rightarrow> string list" where
  "selector_part child parts =
     (if ts_type child = ''identifier'' then parts @ [ts_text child]
      else if ts_type child = ''method_parameter''
      then (if parts \<noteq> [] then butlast parts @ [last parts @ '':''] else ['':''])
      else parts)"

text \<open>Children after the first \<open>method_type\<close>, up to the body; later \<open>method_type\<close>s are skipped.\<close>

definition extract_selector_name :: "ts_node \<Rightarrow> string option" where
  "extract_selector_name n =
     (let rest = dropWhile (\<lambda>c. ts_type c \<noteq> ''method_type'') (ts_children n);
          sel = takeWhile (\<lambda>c. ts_type c \<noteq> ''compound_statement'') rest;
          parts = fold selector_part (filter (\<lambda>c. ts_type c \<noteq> ''method_type'') sel) []
      in if parts \<noteq> [] then Some (concat parts) else None)"

definition strip_parens :: "string \<Rightarrow> string" where
  "strip_parens s = (let p = (\<lambda>c. c = CHR ''('' \<or> c = CHR '')'') in rstrip_of p (dropWhile p s))"

record prop_attrs =
  at_readonly :: bool
  at_getter :: "string option"
  at_setter :: "string option"

definition attr_part :: "string \<Rightarrow> prop_attrs \<Rightarrow> prop_attrs" where
  "attr_part raw a =
     (let part = strip raw in
      if startswith part ''getter='' then a\<lparr>at_getter := Some (drop 7 part)\<rparr>
      else if startswith part ''setter='' then a\<lparr>at_setter := Some (drop 7 part)\<rparr>
      else a)"

definition read_attrs :: "ts_node \<Rightarrow> prop_attrs" where
  "read_attrs prop_node =
     fold (\<lambda>child a.
        let text = ts_text child;
            a = (if contains ''readonly'' text then a\<lparr>at_readonly := True\<rparr> else a)
        in fold attr_part (str_split CHR '','' (strip_parens text)) a)
       (filter (\<lambda>c. ts_type c = ''property_attributes_declaration'') (ts_children prop_node))
       \<lparr>at_readonly = False, at_getter = None, at_setter = None\<rparr>"

text \<open>
  The name: the last identifier of the first \<open>struct_declaration\<close>; a declarator holding an
  empty identifier leaves the name empty and the search goes on.
\<close>

fun last_declared_name :: "ts_node list \<Rightarrow> string option \<Rightarrow> string option" where
  "last_declared_name [] name = name"
| "last_declared_name (sc # scs) name =
     (if ts_type sc = ''identifier'' then Some (ts_text sc)
      else if ts_type sc = ''struct_declarator''
      then (let name = (case find (\<lambda>c. ts_type c = ''identifier'') (rev (ts_children sc)) of
                          None \<Rightarrow> name | Some c \<Rightarrow> Some (ts_text c))
            in if name \<noteq> None \<and> name \<noteq> Some [] then name else last_declared_name scs name)
      else last_declared_name scs name)"

definition declared_name :: "ts_node \<Rightarrow> string option" where
  "declared_name prop_node =
     (case find (\<lambda>c. ts_type c = ''struct_declaration'') (ts_children prop_node) of
        None \<Rightarrow> None
      | Some d \<Rightarrow> last_declared_name (rev (ts_children d)) None)"

definition nonempty_or :: "string option \<Rightarrow> string \<Rightarrow> string" where
  "nonempty_or x d = (case x of Some (c # cs) \<Rightarrow> c # cs | _ \<Rightarrow> d)"

definition extract_property_selectors :: "ts_node \<Rightarrow> string list" where
  "extract_property_selectors prop_node =
     (let a = read_attrs prop_node in
      case declared_name prop_node of
        Some (c # cs) \<Rightarrow>
          nonempty_or (at_getter a) (c # cs)
          # (if at_readonly a then []
             else [nonempty_or (at_setter a) (''set'' @ upper_char c # cs @ '':'')])
      | _ \<Rightarrow> [])"

subsection \<open>count_metadata\<close>

record counts =
  ct_impl_names :: "string option list"
  ct_categories :: nat
  ct_protocols :: "string list"
  ct_methods :: nat
  ct_methods_per_class :: "(string option, nat) dict"
  ct_instance_methods :: "(string option, nat) dict"
  ct_class_methods :: "(string option, nat) dict"
  ct_selectors :: "string list"

definition no_counts :: counts where
  "no_counts = \<lparr>ct_impl_names = [], ct_categories = 0, ct_protocols = [], ct_methods = 0,
     ct_methods_per_class = [], ct_instance_methods = [], ct_class_methods = [], ct_selectors = []\<rparr>"

definition bump :: "'k \<Rightarrow> nat \<Rightarrow> ('k, nat) dict \<Rightarrow> ('k, nat) dict" where
  "bump k n d = dput k (dget_or d k 0 + n) d"

definition count_method :: "bool \<Rightarrow> string option \<Rightarrow> ts_node \<Rightarrow> counts \<Rightarrow> counts" where
  "count_method is_cat class_name me c =
     (let c1 = (case extract_selector_name me of
                  None \<Rightarrow> c
                | Some sel \<Rightarrow> if sel = [] then c else c\<lparr>ct_selectors := add_new sel (ct_selectors c)\<rparr>)
      in if is_cat then c1
         else if is_class_method_node me
         then c1\<lparr>ct_class_methods := bump class_name 1 (ct_class_methods c1)\<rparr>
         else c1\<lparr>ct_instance_methods := bump class_name 1 (ct_instance_methods c1)\<rparr>)"

definition count_impl :: "world \<Rightarrow> ts_node \<Rightarrow> counts \<Rightarrow> counts" where
  "count_impl w impl_node c =
     (let class_name = child_text ''identifier'' impl_node;
          is_cat = list_ex (\<lambda>ch. ts_field ch = ''category'') (ts_children impl_node);
          c1 = (if is_cat then c\<lparr>ct_categories := ct_categories c + 1\<rparr>
                else c\<lparr>ct_impl_names := add_new class_name (ct_impl_names c)\<rparr>);
          methods = w_captures w ''(method_definition) @m'' impl_node;
          c2 = fold (count_method is_cat class_name) methods
                 (c1\<lparr>ct_methods := ct_methods c1 + length methods\<rparr>)
      in if is_cat then c2
         else c2\<lparr>ct_methods_per_class :=
                   bump class_name (length methods) (ct_methods_per_class c2)\<rparr>)"

definition count_properties :: "world \<Rightarrow> ts_node \<Rightarrow> counts \<Rightarrow> counts" where
  "count_properties w iface c =
     c\<lparr>ct_selectors := add_all_new
         (concat (map extract_property_selectors
            (w_captures w ''(property_declaration) @prop'' iface))) (ct_selectors c)\<rparr>"

definition count_protocol :: "ts_node \<Rightarrow> counts \<Rightarrow> counts" where
  "count_protocol proto_node c =
     (case child_text ''identifier'' proto_node of
        None \<Rightarrow> c
      | Some name \<Rightarrow> c\<lparr>ct_protocols := add_new name (ct_protocols c)\<rparr>)"

definition count_file :: "world \<Rightarrow> string \<Rightarrow> counts \<Rightarrow> counts" where
  "count_file w path c =
     (let root = w_ts_parse w (w_read w path);
          c = fold (count_impl w) (w_captures w ''(class_implementation) @impl'' root) c;
          c = fold (count_properties w) (w_captures w ''(class_interface) @iface'' root) c
      in fold count_protocol (w_captures w ''(protocol_declaration) @proto'' root) c)"

definition count_metadata :: "world \<Rightarrow> string list \<Rightarrow> counts" where
  "count_metadata w source_paths = fold (count_file w) source_paths no_counts"

definition max_methods_per_class :: "counts \<Rightarrow> nat" where
  "max_methods_per_class c =
     (case dvals (ct_methods_per_class c) of [] \<Rightarrow> 4 | v # vs \<Rightarrow> fold max vs v)"

subsection \<open>Sizes\<close>

fun bit_length :: "nat \<Rightarrow> nat" where
  "bit_length n = (if n = 0 then 0 else Suc (bit_length (n div 2)))"

declare bit_length.simps [simp del]

definition next_power_of_2 :: "int \<Rightarrow> int" where
  "next_power_of_2 n = (if n \<le> 0 then 1 else 2 ^ bit_length (nat (n - 1)))"

text \<open>
  \<open>math.ceil(p / q)\<close> for the double nearest to \<open>p / q\<close>: with \<open>L\<close> the binary logarithm of
  the quotient, the significand is \<open>p * 2 ^ (52 - L) / q\<close> rounded half to even.
\<close>

definition round_half_even :: "nat \<Rightarrow> nat \<Rightarrow> nat" where
  "round_half_even a b =
     (let d = a div b; r = a mod b in
      if 2 * r < b \<or> (2 * r = b \<and> even d) then d else d + 1)"

definition ceil_div :: "nat \<Rightarrow> nat \<Rightarrow> nat" where
  "ceil_div a b = (a + b - 1) div b"

definition float_ceil_div :: "nat \<Rightarrow> nat \<Rightarrow> nat" where
  "float_ceil_div p q =
     (let L = bit_length (p div q) - 1 in
      if L \<le> 52 then ceil_div (round_half_even (p * 2 ^ (52 - L)) q) (2 ^ (52 - L))
      else round_half_even p (q * 2 ^ (L - 52)) * 2 ^ (L - 52))"

text \<open>The double \<open>0.6\<close> is \<open>5404319552844595 / 2 ^ 53\<close>.\<close>

definition ceil_div_0_6 :: "nat \<Rightarrow> nat" where
  "ceil_div_0_6 nm = float_ceil_div (nm * 2 ^ 53) 5404319552844595"

type_synonym sizes = "(string, int \<times> string) dict"

definition compute_table_sizes :: "counts \<Rightarrow> int \<Rightarrow> sizes" where
  "compute_table_sizes c n_pools =
     (let nc = length (ct_impl_names c); ncat = ct_categories c;
          nprot = length (ct_protocols c); nm = ct_methods c;
          n_sels = length (ct_selectors c);
          class_ts = (if 0 < nc then 2 * int nc + 4 else 8);
          class_f = (if 0 < nc then ''2*'' @ str_of_nat nc @ '' + 4'' else ''default(8)'');
          raw_hash = (if 0 < nm then int (ceil_div_0_6 nm) else 64);
          hash_f = (if 0 < nm then ''max(ceil('' @ str_of_nat nm @ ''/0.6), 64)'' else ''default(64)'');
          sel_bits = (if 0 < n_sels then max 1 (bit_length (n_sels - 1)) else 1);
          sel_count = 2 ^ sel_bits;
          sel_bits_f = (if 1 < n_sels then ''ceil(log2('' @ str_of_nat n_sels @ ''))'' else ''1'')
      in [(''CLASS_TABLE_SIZE'', (class_ts, class_f)),
          (''CATEGORY_TABLE_SIZE'',
             (max (int ncat + 2) 4, ''max('' @ str_of_nat ncat @ '' + 2, 4)'')),
          (''PROTOCOL_TABLE_SIZE'',
             (max (int nprot + 2) 4, ''max('' @ str_of_nat nprot @ '' + 2, 4)'')),
          (''HASH_TABLE_SIZE'', (max raw_hash 64, hash_f)),
          (''STATIC_POOL_TABLE_SIZE'',
             (max (n_pools + 2) 4, ''max('' @ str_of_int n_pools @ '' + 2, 4)'')),
          (''NUM_SELECTORS'', (int n_sels, str_of_nat n_sels @ '' unique selectors'')),
          (''SEL_BITS'', (int sel_bits, sel_bits_f)),
          (''SEL_COUNT'', (sel_count, ''1 << '' @ str_of_nat sel_bits)),
          (''FLAT_DISPATCH_TABLE_SIZE'',
             (class_ts * sel_count, str_of_int class_ts @ '' * '' @ str_of_int sel_count))])"

subsection \<open>Output\<close>

definition generated_banner :: string where
  "generated_banner =
     ''/* Auto-generated by objz_gen_table_sizes.py '' @ em_dash @ '' do not edit */'' @ [nl]"

definition macro_block :: "string \<Rightarrow> int \<Rightarrow> string" where
  "macro_block name value =
     (let macro = ''CONFIG_OBJZ_'' @ name in
      ''#if !defined('' @ macro @ '') || '' @ macro @ '' == 0'' @ [nl]
      @ ''#undef '' @ macro @ [nl]
      @ ''#define '' @ macro @ '' '' @ str_of_int value @ [nl]
      @ ''#endif'' @ [nl, nl])"

definition generate_header :: "sizes \<Rightarrow> string" where
  "generate_header sizes =
     generated_banner @ ''#ifndef OBJZ_TABLE_SIZES_H'' @ [nl]
     @ ''#define OBJZ_TABLE_SIZES_H'' @ [nl, nl]
     @ concat (map (\<lambda>(name, value, formula). macro_block name value) (sort_key fst sizes))
     @ ''#endif /* OBJZ_TABLE_SIZES_H */'' @ [nl]"

text \<open>\<open>f"{s:<{w}}"\<close> and \<open>f"{s:>{w}}"\<close>.\<close>

definition ljust :: "nat \<Rightarrow> string \<Rightarrow> string" where
  "ljust w s = s @ replicate (w - length s) CHR '' ''"

definition rjust :: "nat \<Rightarrow> string \<Rightarrow> string" where
  "rjust w s = replicate (w - length s) CHR '' '' @ s"

definition sel_entry :: "nat \<times> string \<Rightarrow> string" where
  "sel_entry = (\<lambda>(i, sel). tab # ''{'' @ dquoted sel @ '', '' @ str_of_nat i @ ''},'' @ [nl])"

definition dispatch_init_text :: "string list \<Rightarrow> string" where
  "dispatch_init_text selectors =
     generated_banner @ ''#include <objc/dispatch.h>'' @ [nl, nl]
     @ ''const struct objz_sel_init_entry __objz_sel_init_table[] = {'' @ [nl]
     @ concat (map sel_entry (zip [0..<length selectors] selectors))
     @ ''};'' @ [nl, nl]
     @ ''const uint16_t __objz_sel_init_count = '' @ str_of_nat (length selectors) @ '';'' @ [nl]"

definition dispatch_init_log :: "string list \<Rightarrow> string list" where
  "dispatch_init_log selectors =
     (''objz_gen_table_sizes: flat dispatch ('' @ str_of_nat (length selectors) @ '' selectors)'')
     # (if selectors = [] then []
        else let id_w = length (str_of_nat (length selectors - 1)) in
             map (\<lambda>(i, sel). ''  '' @ rjust id_w (str_of_nat i) @ ''  '' @ sel)
               (zip [0..<length selectors] selectors))"

text \<open>The file and the log of \<open>generate_dispatch_init\<close>.\<close>

definition generate_dispatch_init :: "counts \<Rightarrow> string \<times> string list" where
  "generate_dispatch_init c =
     (let selectors = sort (ct_selectors c) in (dispatch_init_text selectors, dispatch_init_log selectors))"

definition max_length :: "string list \<Rightarrow> nat" where
  "max_length ss = fold max (map length ss) 0"

definition print_table :: "counts \<Rightarrow> sizes \<Rightarrow> string list" where
  "print_table c sizes =
     (let name_w = max_length (dkeys sizes);
          val_w = max_length (map (\<lambda>(v, f). str_of_int v) (dvals sizes))
      in [''objz_gen_table_sizes: '' @ str_of_nat (length (ct_impl_names c)) @ '' classes, ''
            @ str_of_nat (ct_categories c) @ '' categories, ''
            @ str_of_nat (length (ct_protocols c)) @ '' protocols, ''
            @ str_of_nat (ct_methods c) @ '' methods (max ''
            @ str_of_nat (max_methods_per_class c) @ ''/class), ''
            @ str_of_nat (length (ct_selectors c)) @ '' unique selectors'',
          ''  '' @ ljust name_w ''TABLE'' @ ''  '' @ rjust val_w ''SIZE'' @ ''  FORMULA'',
          ''  '' @ replicate (name_w + val_w + 10) CHR ''-'']
         @ map (\<lambda>(name, value, formula).
               ''  '' @ ljust name_w name @ ''  '' @ rjust val_w (str_of_int value) @ ''  '' @ formula)
             (sort_key fst sizes))"

text \<open>The header, the log and, when asked for, the dispatch table.\<close>

definition table_sizes_main :: "world \<Rightarrow> string list \<Rightarrow> int \<Rightarrow> bool \<Rightarrow> string \<times> string list \<times> string option" where
  "table_sizes_main w sources n_pools want_dispatch =
     (let c = count_metadata w sources; sizes = compute_table_sizes c n_pools;
          (init, init_log) = generate_dispatch_init c
      in (generate_header sizes,
          print_table c sizes @ (if want_dispatch then init_log else []),
          if want_dispatch then Some init else None))"

subsection \<open>Powers of two\<close>

lemma bit_length_bounds: "0 < n \<Longrightarrow> 2 ^ (bit_length n - 1) \<le> n \<and> n < 2 ^ bit_length n"
proof (induction n rule: bit_length.induct)
  case (1 n)
  have len: "bit_length n = Suc (bit_length (n div 2))"
    using 1(2) by (subst bit_length.simps) simp
  show ?case
  proof (cases "n div 2 = 0")
    case True
    with 1(2) have "n = 1" by arith
    moreover have "bit_length 0 = 0" by (subst bit_length.simps) simp
    ultimately show ?thesis using len by simp
  next
    case False
    with 1 have IH: "2 ^ (bit_length (n div 2) - 1) \<le> n div 2" "n div 2 < 2 ^ bit_length (n div 2)"
      by simp_all
    have pos: "0 < bit_length (n div 2)" using False by (subst bit_length.simps) simp
    have "(2::nat) ^ (bit_length n - 1) = 2 * 2 ^ (bit_length (n div 2) - 1)"
      using pos len by (metis One_nat_def Suc_pred diff_Suc_1 power_Suc)
    moreover have "(2::nat) ^ bit_length n = 2 * 2 ^ bit_length (n div 2)" by (simp add: len)
    moreover have "2 * a \<le> n \<and> n < 2 * b" if "a \<le> n div 2" "n div 2 < b" for a b :: nat
      using that by arith
    ultimately show ?thesis using IH by (simp only:)
  qed
qed

lemma bit_length_0 [simp]: "bit_length 0 = 0"
  by (subst bit_length.simps) simp

lemma bit_length_least: "n < 2 ^ k \<Longrightarrow> bit_length n \<le> k"
proof (rule ccontr)
  assume "n < 2 ^ k" and "\<not> bit_length n \<le> k"
  then have "0 < n" by (cases n) auto
  then have "2 ^ (bit_length n - 1) \<le> n" using bit_length_bounds by blast
  moreover have "(2::nat) ^ k \<le> 2 ^ (bit_length n - 1)"
    using \<open>\<not> bit_length n \<le> k\<close> by (intro power_increasing) auto
  ultimately show False using \<open>n < 2 ^ k\<close> by linarith
qed

subsection \<open>The rounded division\<close>

lemma round_half_even_bounds:
  assumes "0 < b"
  shows "2 * a \<le> 2 * round_half_even a b * b + b" and "2 * round_half_even a b * b \<le> 2 * a + b"
proof -
  define d r where "d = a div b" and "r = a mod b"
  have a: "a = d * b + r" and r: "r < b" using assms by (simp_all add: d_def r_def)
  have "round_half_even a b = (if 2 * r < b \<or> (2 * r = b \<and> even d) then d else d + 1)"
    by (simp add: round_half_even_def Let_def d_def r_def)
  then consider "round_half_even a b = d" "2 * r \<le> b" | "round_half_even a b = d + 1" "b \<le> 2 * r"
    by (auto split: if_splits)
  then show "2 * a \<le> 2 * round_half_even a b * b + b" "2 * round_half_even a b * b \<le> 2 * a + b"
    using a r by (cases; simp add: algebra_simps)+
qed

lemma ceil_div_eq: "0 < K \<Longrightarrow> (N - 1) * K < x \<Longrightarrow> x \<le> N * K \<Longrightarrow> ceil_div x K = N"
proof -
  assume K: "0 < K" and lo: "(N - 1) * K < x" and hi: "x \<le> N * K"
  then have N: "0 < N" by (cases N) auto
  have "N * K \<le> x + K - 1" using lo K N by (cases N) (auto simp: algebra_simps)
  moreover have "x + K - 1 < (N + 1) * K" using hi K by (simp add: algebra_simps)
  ultimately show ?thesis unfolding ceil_div_def
    by (metis Suc_eq_plus1 div_nat_eqI mult.commute)
qed

text \<open>The exponent of the quotient.\<close>

lemma quotient_exponent:
  assumes "0 < p div q" and "p div q < 2 ^ 46"
  defines "L \<equiv> bit_length (p div q) - 1"
  shows "p div q < 2 ^ Suc L" and "L < 46"
proof -
  have "bit_length (p div q) \<noteq> 0" using bit_length_bounds [OF assms(1)] assms(1) by (intro notI) simp
  then have "bit_length (p div q) = Suc L" by (simp add: L_def)
  with bit_length_bounds [OF assms(1)] have low: "2 ^ L \<le> p div q" and "p div q < 2 ^ Suc L" by simp_all
  then show "p div q < 2 ^ Suc L" by simp
  from low assms(2) have "(2::nat) ^ L < 2 ^ 46" by simp
  then show "L < 46" by (rule power_less_imp_less_exp [rotated]) simp
qed

text \<open>
  The scaled quotient \<open>m\<close> is off by half a unit and less than one part in \<open>5 q\<close>: it stays
  between the multiples of \<open>K\<close> around it.
\<close>

lemma rounded_between:
  fixes m q nm K N :: nat
  defines "A \<equiv> 5 * nm * K"
  assumes "0 < nm" and "0 < q" and "4 \<le> K" and "A < 5 * q"
    and N: "5 * nm \<le> 3 * N" "3 * N \<le> 5 * nm + 2"
    and up: "2 * (A * (5 * q) + A) \<le> 6 * m * (5 * q) + 3 * (5 * q)"
    and down: "6 * m * (5 * q) \<le> 2 * (A * (5 * q) + A) + 3 * (5 * q)"
  shows "(N - 1) * K < m" and "m \<le> N * K"
proof -
  show "m \<le> N * K"
  proof (rule ccontr)
    assume "\<not> m \<le> N * K"
    then have "6 * (N * K + 1) \<le> 6 * m" by simp
    moreover have "A \<le> 3 * (N * K)" using mult_le_mono1 [OF N(1), of K] by (simp add: A_def)
    ultimately have "2 * A + 6 \<le> 6 * m" by simp
    then have "(2 * A + 6) * (5 * q) \<le> 6 * m * (5 * q)" by (rule mult_le_mono1)
    then have "2 * (A * (5 * q)) + 6 * (5 * q) \<le> 6 * m * (5 * q)" by (simp only: add_mult_distrib mult.assoc)
    moreover have "2 * (A * (5 * q) + A) = 2 * (A * (5 * q)) + 2 * A" by simp
    ultimately show False using down assms(3,5) by linarith
  qed
  show "(N - 1) * K < m"
  proof (rule ccontr)
    assume "\<not> (N - 1) * K < m"
    then have "m + K \<le> (N - 1) * K + K" by simp
    also have "\<dots> = N * K" using N(1) assms(2) by (cases N) auto
    finally have "3 * (m + K) \<le> 3 * (N * K)" by simp
    also have "\<dots> \<le> A + 2 * K" using mult_le_mono1 [OF N(2), of K] by (simp add: A_def algebra_simps)
    finally have "6 * m + 3 \<le> 2 * A" using assms(4) by simp
    then have "(6 * m + 3) * (5 * q) \<le> 2 * A * (5 * q)" by (rule mult_le_mono1)
    then have "6 * m * (5 * q) + 3 * (5 * q) \<le> 2 * (A * (5 * q))"
      by (simp only: add_mult_distrib mult.assoc)
    moreover have "2 * (A * (5 * q) + A) = 2 * (A * (5 * q)) + 2 * A" by simp
    moreover have "0 < A" using assms(2,4) by (simp add: A_def)
    ultimately show False using up by linarith
  qed
qed

text \<open>
  For quotients below \<open>2 ^ 46\<close> the rounding error is too small to cross an integer: the
  code's \<open>math.ceil(nm / 0.6)\<close> is the exact \<open>5 nm / 3\<close> rounded up.
\<close>

lemma ceil_div_0_6_exact:
  assumes "0 < nm" and "nm < 2 ^ 45"
  shows "ceil_div_0_6 nm = (5 * nm + 2) div 3"
proof -
  define q :: nat where "q = 5404319552844595"
  define p where "p = nm * 2 ^ 53"
  define L where "L = bit_length (p div q) - 1"
  define K :: nat where "K = 2 ^ (52 - L)"
  define m where "m = round_half_even (p * K) q"
  define A N where "A = 5 * nm * K" and "N = (5 * nm + 2) div 3"
  have q: "0 < q" "5 * q + 1 = 3 * 2 ^ 53" by (simp_all add: q_def)
  have "0 < p div q" using assms(1) by (simp add: p_def q_def div_le_mono Suc_le_eq div_greater_zero_iff)
  moreover have "p div q < 2 ^ 46"
    using assms(2) by (simp add: p_def q_def less_mult_imp_div_less)
  ultimately have L: "p div q < 2 ^ Suc L" "L < 46"
    using quotient_exponent unfolding L_def by blast+
  have K: "4 \<le> K" using L(2) power_increasing [of 2 "52 - L" "2::nat"] by (simp add: K_def)
  have run: "ceil_div_0_6 nm = ceil_div m K"
    using L(2) by (simp add: ceil_div_0_6_def float_ceil_div_def Let_def m_def K_def L_def p_def q_def)
  have scaled: "15 * (p * K) = A * (5 * q) + A"
    using q(2) by (simp add: A_def p_def algebra_simps flip: distrib_left)
  have "p < 2 ^ Suc L * q" using L(1) q(1) by (simp add: div_less_iff_less_mult)
  then have "p * K < 2 ^ Suc L * q * K" using K by simp
  also have "\<dots> = 2 ^ (Suc L + (52 - L)) * q" by (simp only: K_def power_add mult_ac)
  also have "Suc L + (52 - L) = 53" using L(2) by simp
  finally have "15 * (p * K) < 15 * (2 ^ 53 * q)" by linarith
  also have "\<dots> = 5 * q * (5 * q + 1)" unfolding q(2) by simp
  finally have "A * (5 * q + 1) < 5 * q * (5 * q + 1)" by (simp only: scaled add_mult_distrib2 mult_1_right)
  then have A: "A < 5 * q" by (simp only: mult_less_cancel2)
  have "2 * (p * K) \<le> 2 * (m * q) + q" "2 * (m * q) \<le> 2 * (p * K) + q"
    using round_half_even_bounds [OF q(1), of "p * K"] by (simp_all add: m_def mult.assoc)
  moreover have "6 * m * (5 * q) = 30 * (m * q)" by simp
  ultimately have "2 * (A * (5 * q) + A) \<le> 6 * m * (5 * q) + 3 * (5 * q)"
    "6 * m * (5 * q) \<le> 2 * (A * (5 * q) + A) + 3 * (5 * q)"
    unfolding scaled [symmetric] by linarith+
  moreover have "5 * nm \<le> 3 * N" "3 * N \<le> 5 * nm + 2" by (simp_all add: N_def)
  ultimately have "(N - 1) * K < m" "m \<le> N * K"
    using rounded_between [of nm q K N m] assms(1) q(1) K A by (simp_all add: A_def)
  then have "ceil_div m K = N" using ceil_div_eq [of K N m] K by simp
  then show ?thesis by (simp add: run N_def)
qed

subsection \<open>Properties\<close>

lemma next_power_of_2_least:
  "\<exists>k. next_power_of_2 n = 2 ^ k \<and> n \<le> 2 ^ k \<and> (\<forall>j. n \<le> 2 ^ j \<longrightarrow> k \<le> j)"
proof (cases "n \<le> 1")
  case True
  then have "next_power_of_2 n = 2 ^ 0" by (auto simp: next_power_of_2_def)
  with True show ?thesis by (intro exI [of _ 0]) auto
next
  case False
  let ?k = "bit_length (nat (n - 1))"
  have "0 < nat (n - 1)" using False by simp
  then have "nat (n - 1) < 2 ^ ?k" using bit_length_bounds by blast
  then have "int (nat (n - 1)) < int (2 ^ ?k)" by (simp only: of_nat_less_iff)
  then have le: "n \<le> 2 ^ ?k" using False by simp
  have least: "?k \<le> j" if "n \<le> 2 ^ j" for j
  proof (rule bit_length_least)
    from that have "int (nat (n - 1)) < int (2 ^ j)" using False by simp
    then show "nat (n - 1) < 2 ^ j" by (simp only: of_nat_less_iff)
  qed
  from False le least show ?thesis by (intro exI [of _ ?k]) (simp add: next_power_of_2_def)
qed

text \<open>
  C34. The load factor of the method hash table is at most 0.6, as the code intends: the
  computed size is the least one at or above 64 with \<open>5 nm \<le> 3 size\<close>, the rounding of the
  floating-point division included, for every count below \<open>2 ^ 45\<close>.
\<close>

theorem hash_table_load:
  assumes "ct_methods c < 2 ^ 45"
  shows "\<exists>h f. dget (compute_table_sizes c n_pools) ''HASH_TABLE_SIZE'' = Some (h, f) \<and> 64 \<le> h \<and>
     5 * int (ct_methods c) \<le> 3 * h \<and> (h = 64 \<or> 3 * (h - 1) < 5 * int (ct_methods c))"
proof -
  let ?n = "ct_methods c"
  let ?h = "max (if 0 < ?n then int (ceil_div_0_6 ?n) else 64) 64"
  have get: "\<exists>f. dget (compute_table_sizes c n_pools) ''HASH_TABLE_SIZE'' = Some (?h, f)"
    by (simp add: compute_table_sizes_def Let_def)
  have "ceil_div_0_6 ?n = (5 * ?n + 2) div 3" if "0 < ?n" using that assms by (rule ceil_div_0_6_exact)
  moreover have "int ((5 * ?n + 2) div 3) = (5 * int ?n + 2) div 3" by (simp add: zdiv_int)
  ultimately have h: "?h = (if 0 < ?n then max ((5 * int ?n + 2) div 3) 64 else 64)" by auto
  have "64 \<le> ?h \<and> 5 * int ?n \<le> 3 * ?h \<and> (?h = 64 \<or> 3 * (?h - 1) < 5 * int ?n)"
    unfolding h by (simp add: max_def) arith
  with get show ?thesis by blast
qed

theorem hash_table_load_witness:
  "\<exists>h f. dget (compute_table_sizes (no_counts\<lparr>ct_methods := 100\<rparr>) 2) ''HASH_TABLE_SIZE'' = Some (h, f)
     \<and> 64 \<le> h \<and> 500 \<le> 3 * h \<and> (h = 64 \<or> 3 * (h - 1) < 500)"
  using hash_table_load [of "no_counts\<lparr>ct_methods := 100\<rparr>" 2] by simp

lemma compute_table_sizes_get:
  "fst (the (dget (compute_table_sizes c n_pools) ''CLASS_TABLE_SIZE''))
     = (if ct_impl_names c \<noteq> [] then 2 * int (length (ct_impl_names c)) + 4 else 8)"
  "fst (the (dget (compute_table_sizes c n_pools) ''SEL_COUNT''))
     = 2 ^ (if ct_selectors c \<noteq> [] then max 1 (bit_length (length (ct_selectors c) - 1)) else 1)"
  "fst (the (dget (compute_table_sizes c n_pools) ''FLAT_DISPATCH_TABLE_SIZE''))
     = fst (the (dget (compute_table_sizes c n_pools) ''CLASS_TABLE_SIZE''))
       * fst (the (dget (compute_table_sizes c n_pools) ''SEL_COUNT''))"
  by (simp_all add: compute_table_sizes_def Let_def)

text \<open>The range of selector numbers is the least power of two, at least 2, that holds them.\<close>

lemma selector_bits:
  assumes "0 < n"
  defines "k \<equiv> max 1 (bit_length (n - 1))"
  shows "int n \<le> 2 ^ k" and "(2::int) ^ k = 2 \<or> 2 ^ k < 2 * int n"
proof -
  have "n - 1 < 2 ^ k"
  proof (cases "n = 1")
    case False
    with assms(1) have "n - 1 < 2 ^ bit_length (n - 1)" using bit_length_bounds by simp
    also have "(2::nat) ^ bit_length (n - 1) \<le> 2 ^ k" by (intro power_increasing) (auto simp: k_def)
    finally show ?thesis .
  qed simp
  then have "n \<le> 2 ^ k" by arith
  then show "int n \<le> 2 ^ k" by (metis of_nat_le_iff of_nat_numeral of_nat_power)
  show "(2::int) ^ k = 2 \<or> 2 ^ k < 2 * int n"
  proof (cases "bit_length (n - 1) \<le> 1")
    case False
    then have k: "k = bit_length (n - 1)" by (simp add: k_def)
    have pos: "0 < n - 1" using False bit_length_0 by (metis gr0I zero_le_one)
    have "2 ^ (k - 1) \<le> n - 1" using bit_length_bounds [OF pos] k by simp
    then have "2 ^ (k - 1) < n" using pos by linarith
    then have "(2::nat) * 2 ^ (k - 1) < 2 * n" by simp
    also have "(2::nat) * 2 ^ (k - 1) = 2 ^ k"
      using False [folded k] power_Suc [of "2::nat" "k - 1"] by simp
    finally have "int (2 ^ k) < int (2 * n)" by (simp only: of_nat_less_iff)
    then show ?thesis by simp
  qed (simp add: k_def)
qed



text \<open>
  The invariant of the counting pass: sets without duplicates, and for every class the
  instance and class methods add up to its methods.
\<close>

definition counts_ok :: "counts \<Rightarrow> bool" where
  "counts_ok c \<longleftrightarrow> distinct (ct_selectors c) \<and> distinct (ct_impl_names c) \<and> distinct (ct_protocols c)
     \<and> (\<forall>k. dget_or (ct_methods_per_class c) k 0
              = dget_or (ct_instance_methods c) k 0 + dget_or (ct_class_methods c) k 0)"

lemma dget_or_bump: "dget_or (bump k n d) k' 0 = dget_or d k' 0 + (if k' = k then n else 0)"
  by (simp add: bump_def)

lemma count_method_keeps:
  "ct_impl_names (count_method b n me c) = ct_impl_names c"
  "ct_protocols (count_method b n me c) = ct_protocols c"
  "ct_methods_per_class (count_method b n me c) = ct_methods_per_class c"
  "ct_categories (count_method b n me c) = ct_categories c"
  "ct_methods (count_method b n me c) = ct_methods c"
  "distinct (ct_selectors c) \<Longrightarrow> distinct (ct_selectors (count_method b n me c))"
  "dget_or (ct_instance_methods (count_method b n me c)) k 0
     + dget_or (ct_class_methods (count_method b n me c)) k 0
   = dget_or (ct_instance_methods c) k 0 + dget_or (ct_class_methods c) k 0
     + (if \<not> b \<and> k = n then 1 else 0)"
  by (auto simp: count_method_def Let_def dget_or_bump split: option.splits)

lemma count_methods_keep:
  "ct_impl_names (fold (count_method b n) mes c) = ct_impl_names c"
  "ct_protocols (fold (count_method b n) mes c) = ct_protocols c"
  "ct_methods_per_class (fold (count_method b n) mes c) = ct_methods_per_class c"
  "ct_methods (fold (count_method b n) mes c) = ct_methods c"
  "distinct (ct_selectors c) \<Longrightarrow> distinct (ct_selectors (fold (count_method b n) mes c))"
  "dget_or (ct_instance_methods (fold (count_method b n) mes c)) k 0
     + dget_or (ct_class_methods (fold (count_method b n) mes c)) k 0
   = dget_or (ct_instance_methods c) k 0 + dget_or (ct_class_methods c) k 0
     + (if \<not> b \<and> k = n then length mes else 0)"
  by (induction mes arbitrary: c) (auto simp: count_method_keeps)

lemma count_impl_ok: "counts_ok c \<Longrightarrow> counts_ok (count_impl w n c)"
  unfolding counts_ok_def count_impl_def Let_def
  by (auto simp: count_methods_keep dget_or_bump)

lemma count_file_ok: "counts_ok c \<Longrightarrow> counts_ok (count_file w p c)"
proof -
  have props: "counts_ok c \<Longrightarrow> counts_ok (count_properties w n c)" for n c
    by (simp add: counts_ok_def count_properties_def)
  have protos: "counts_ok c \<Longrightarrow> counts_ok (count_protocol n c)" for n c
    by (auto simp: counts_ok_def count_protocol_def split: option.splits)
  show "counts_ok c \<Longrightarrow> counts_ok (count_file w p c)"
    unfolding count_file_def Let_def
    by (intro fold_invariant_set [where P = counts_ok]) (auto intro: count_impl_ok props protos)
qed

lemma count_file_methods:
  "ct_methods (count_file w p c) = ct_methods c + sum_list (map (\<lambda>n. length
     (w_captures w ''(method_definition) @m'' n))
     (w_captures w ''(class_implementation) @impl'' (w_ts_parse w (w_read w p))))"
proof -
  have "ct_methods (count_impl w n c) = ct_methods c + length (w_captures w ''(method_definition) @m'' n)"
    for n c by (simp add: count_impl_def Let_def count_methods_keep)
  then have impls: "ct_methods (fold (count_impl w) ns c) = ct_methods c
      + sum_list (map (\<lambda>n. length (w_captures w ''(method_definition) @m'' n)) ns)" for ns c
    by (induction ns arbitrary: c) auto
  have props: "ct_methods (fold (count_properties w) ns c) = ct_methods c" for ns c
    by (induction ns arbitrary: c) (auto simp: count_properties_def)
  have "ct_methods (count_protocol n c) = ct_methods c" for n c
    by (auto simp: count_protocol_def split: option.splits)
  then have protos: "ct_methods (fold count_protocol ns c) = ct_methods c" for ns c
    by (induction ns arbitrary: c) auto
  show ?thesis by (simp add: count_file_def Let_def impls props protos)
qed

text \<open>
  The counts are consistent: no selector, class or protocol is counted twice; the
  methods of a class are its instance methods and its class methods; and the number of
  methods is the sum over all implementations of all sources, categories included.
\<close>

theorem count_metadata_consistent:
  "distinct (ct_selectors (count_metadata w paths)) \<and>
   distinct (ct_impl_names (count_metadata w paths)) \<and>
   distinct (ct_protocols (count_metadata w paths)) \<and>
   (\<forall>k. dget_or (ct_methods_per_class (count_metadata w paths)) k 0
        = dget_or (ct_instance_methods (count_metadata w paths)) k 0
          + dget_or (ct_class_methods (count_metadata w paths)) k 0) \<and>
   ct_methods (count_metadata w paths) = sum_list (map (\<lambda>p. sum_list (map (\<lambda>n. length
     (w_captures w ''(method_definition) @m'' n))
     (w_captures w ''(class_implementation) @impl'' (w_ts_parse w (w_read w p))))) paths)"
proof -
  have "counts_ok (count_metadata w paths)" unfolding count_metadata_def
    by (rule fold_invariant_set [where P = counts_ok])
       (simp add: counts_ok_def no_counts_def, rule count_file_ok)
  moreover have "ct_methods (fold (count_file w) ps c) = ct_methods c
      + sum_list (map (\<lambda>p. sum_list (map (\<lambda>n. length (w_captures w ''(method_definition) @m'' n))
     (w_captures w ''(class_implementation) @impl'' (w_ts_parse w (w_read w p))))) ps)" for ps c
    by (induction ps arbitrary: c) (auto simp: count_file_methods)
  from this [of paths no_counts] have "ct_methods (count_metadata w paths) = sum_list (map (\<lambda>p.
      sum_list (map (\<lambda>n. length (w_captures w ''(method_definition) @m'' n))
     (w_captures w ''(class_implementation) @impl'' (w_ts_parse w (w_read w p))))) paths)"
    by (simp add: count_metadata_def no_counts_def)
  ultimately show ?thesis by (simp add: counts_ok_def)
qed

end
