(* ===== verification/Pools.thy ===== *)
theory Pools
  imports Hierarchy
begin

unbundle bit_operations_syntax

text \<open>
  \<open>scripts/objz_gen_pools.py\<close>: instance sizes from the ivar layouts of the classes, and
  the number of objects alive at once from the allocations reachable in the call graph.
  The size recursion \<open>get_size\<close> carries fuel (more than the number of classes);
  \<open>effective_allocs\<close> ends because its visited set grows.
\<close>

subsection \<open>Phase A: class sizes\<close>

definition pool_qualifiers :: "string list" where
  "pool_qualifiers = [''__strong'', ''__weak'', ''__unsafe_unretained'', ''__autoreleasing'',
                      ''_Nonnull'', ''_Nullable'']"

definition unqualified :: "string \<Rightarrow> string" where
  "unqualified qt = strip (fold (\<lambda>qual s. str_replace qual [] s) pool_qualifiers qt)"

definition scalar_sizes :: "int \<Rightarrow> (string, int) dict" where
  "scalar_sizes ptr_size =
     [(''int'', 4), (''unsigned int'', 4), (''uint32_t'', 4), (''int32_t'', 4),
      (''short'', 2), (''unsigned short'', 2), (''uint16_t'', 2), (''int16_t'', 2),
      (''char'', 1), (''unsigned char'', 1), (''uint8_t'', 1), (''int8_t'', 1),
      (''BOOL'', 1), (''_Bool'', 1), (''bool'', 1),
      (''float'', 4), (''double'', 8),
      (''atomic_t'', 4),
      (''long'', ptr_size), (''unsigned long'', ptr_size),
      (''long long'', 8), (''unsigned long long'', 8),
      (''uint64_t'', 8), (''int64_t'', 8),
      (''size_t'', ptr_size), (''ptrdiff_t'', ptr_size), (''uintptr_t'', ptr_size)]"

definition type_size :: "string \<Rightarrow> int \<Rightarrow> int" where
  "type_size raw_type ptr_size =
     (let qt = unqualified raw_type in
      if contains ''*'' qt \<or> qt \<in> {''id'', ''Class'', ''SEL'', ''IMP''} then ptr_size
      else dget_or (scalar_sizes ptr_size) qt ptr_size)"

definition align_up :: "int \<Rightarrow> int \<Rightarrow> int" where
  "align_up n align = (n + align - 1) AND (NOT (align - 1))"

record pool_class =
  pk_super :: string
  pk_ivars :: "string list"

type_synonym pool_classes = "(string, pool_class) dict"

definition pool_class_of :: "json \<Rightarrow> pool_class" where
  "pool_class_of node =
     \<lparr>pk_super = jname (jobj node ''super''),
      pk_ivars = map (\<lambda>c. qual_type c []) (filter (\<lambda>c. jkind c = ''ObjCIvarDecl'') (jinner node))\<rparr>"

text \<open>An interface without a name ends the walk of its subtree.\<close>

fun parse_classes_walk :: "json \<Rightarrow> pool_classes \<Rightarrow> pool_classes" where
  "parse_classes_walk node classes =
     (if jkind node = ''ObjCInterfaceDecl''
      then let name = jname node; c = pool_class_of node in
           if name = [] then classes
           else fold parse_classes_walk (jinner node)
                  (if dget classes name = None \<or> pk_ivars c \<noteq> [] then dput name c classes else classes)
      else fold parse_classes_walk (jinner node) classes)"

declare parse_classes_walk.simps [simp del]

definition parse_classes :: "json list \<Rightarrow> pool_classes" where
  "parse_classes ast_roots = fold parse_classes_walk ast_roots []"

definition own_size :: "int \<Rightarrow> pool_class \<Rightarrow> int" where
  "own_size ptr_size c = sum_list (map (\<lambda>qt. type_size qt ptr_size) (pk_ivars c))"

fun get_size :: "nat \<Rightarrow> pool_classes \<Rightarrow> int \<Rightarrow> string \<Rightarrow> (string, int) dict
    \<Rightarrow> (int \<times> (string, int) dict) outcome" where
  "get_size 0 classes ptr_size name cache = Inl Diverges"
| "get_size (Suc fuel) classes ptr_size name cache =
     (case dget cache name of
        Some v \<Rightarrow> Inr (v, cache)
      | None \<Rightarrow>
          (case dget classes name of
             None \<Rightarrow> Inr (ptr_size + 4, dput name (ptr_size + 4) cache)
           | Some cls \<Rightarrow>
               ebind (if pk_super cls \<noteq> [] \<and> dget classes (pk_super cls) \<noteq> None
                      then get_size fuel classes ptr_size (pk_super cls) cache
                      else if pk_super cls \<noteq> [] then Inr (ptr_size + 4, cache)
                      else Inr (0, cache))
                 (\<lambda>(base, cache).
                    let total = align_up (base + own_size ptr_size cls) ptr_size in
                    Inr (total, dput name total cache))))"

definition compute_class_sizes :: "pool_classes \<Rightarrow> int \<Rightarrow> (string, int) dict outcome" where
  "compute_class_sizes classes ptr_size =
     efold (\<lambda>name cache. ebind (get_size (Suc (length classes)) classes ptr_size name cache)
                           (\<lambda>(v, cache). Inr cache))
       (dkeys classes) []"

subsection \<open>Phase B: allocations and the call graph\<close>

definition extract_class_from_type :: "string \<Rightarrow> string option" where
  "extract_class_from_type raw_type =
     (let qt = unqualified raw_type;
          qt = (if endswith qt ''*'' then strip (butlast qt) else qt)
      in if qt \<noteq> [] \<and> is_upper (hd qt) \<and> CHR '' '' \<notin> set qt then Some qt else None)"

fun callee_name :: "json \<Rightarrow> string option" where
  "callee_name call_node =
     (case first_return (\<lambda>child.
          if jkind child = ''DeclRefExpr'' then Some (Some (jname (jobj child ''referencedDecl'')))
          else if jkind child = ''ImplicitCastExpr'' then Some (callee_name child)
          else None) (jinner call_node) of
        None \<Rightarrow> None
      | Some r \<Rightarrow> r)"

declare callee_name.simps [simp del]

type_synonym count_table = "(string, (string, nat) dict) dict"

record alloc_info =
  ai_allocs :: count_table
  ai_calls :: count_table
  ai_entries :: "string list"

definition add_count :: "string \<Rightarrow> nat \<Rightarrow> (string, nat) dict \<Rightarrow> (string, nat) dict" where
  "add_count k n d = dput k (dget_or d k 0 + n) d"

definition count_in :: "string \<Rightarrow> string \<Rightarrow> count_table \<Rightarrow> count_table" where
  "count_in key item t = dput key (add_count item 1 (dget_or t key [])) t"

definition detect_thread_entry :: "json \<Rightarrow> alloc_info \<Rightarrow> alloc_info" where
  "detect_thread_entry func_node a =
     (let name = jname func_node;
          params = filter (\<lambda>c. jkind c = ''ParmVarDecl'') (jinner func_node)
      in if name = [] \<or> name = ''main'' \<or> length params \<noteq> 3 then a
         else if list_all (\<lambda>p. contains ''void *'' (qual_type p [])) params
         then a\<lparr>ai_entries := add_new name (ai_entries a)\<rparr>
         else a)"

definition count_message :: "json \<Rightarrow> string \<Rightarrow> alloc_info \<Rightarrow> alloc_info" where
  "count_message node key a =
     (let sel = jstr node ''selector'' [] in
      if sel = ''alloc'' \<and> jstr node ''receiverKind'' [] = ''class''
      then let cls = jstr (jobj node ''classType'') ''qualType'' [] in
           if cls \<noteq> [] then a\<lparr>ai_allocs := count_in key cls (ai_allocs a)\<rparr> else a
      else if jstr node ''receiverKind'' [] = ''instance'' \<and> sel \<noteq> []
      then (case jinner node of
              [] \<Rightarrow> a
            | recv # _ \<Rightarrow>
                (case extract_class_from_type (qual_type recv []) of
                   None \<Rightarrow> a
                 | Some recv_cls \<Rightarrow>
                     a\<lparr>ai_calls := count_in key (recv_cls @ ''.'' @ sel) (ai_calls a)\<rparr>))
      else a)"

definition count_call :: "json \<Rightarrow> string \<Rightarrow> alloc_info \<Rightarrow> alloc_info" where
  "count_call node key a =
     (case callee_name node of
        Some (c # cs) \<Rightarrow> a\<lparr>ai_calls := count_in key (c # cs) (ai_calls a)\<rparr>
      | _ \<Rightarrow> a)"

text \<open>\<open>func_key\<close> is \<open>[]\<close> for \<open>None\<close>: both are false where the code tests it.\<close>

definition enclosing_impl :: "json \<Rightarrow> string \<Rightarrow> string" where
  "enclosing_impl node impl_name =
     (if jkind node = ''ObjCImplementationDecl'' then jname node else impl_name)"

definition enclosing_key :: "json \<Rightarrow> string \<Rightarrow> string \<Rightarrow> string" where
  "enclosing_key node func_key impl_name =
     (if jkind node = ''FunctionDecl'' \<and> jname node \<noteq> [] then jname node
      else if jkind node = ''ObjCMethodDecl'' \<and> impl_name \<noteq> [] then impl_name @ ''.'' @ jname node
      else func_key)"

definition analyze_node :: "json \<Rightarrow> string \<Rightarrow> alloc_info \<Rightarrow> alloc_info" where
  "analyze_node node key a =
     (let a = (if jkind node = ''FunctionDecl'' \<and> jname node \<noteq> [] then detect_thread_entry node a else a);
          a = (if jkind node = ''ObjCMessageExpr'' \<and> key \<noteq> [] then count_message node key a else a)
      in if jkind node = ''CallExpr'' \<and> key \<noteq> [] then count_call node key a else a)"

fun analyze_walk :: "json \<Rightarrow> string \<Rightarrow> string \<Rightarrow> alloc_info \<Rightarrow> alloc_info" where
  "analyze_walk node func_key impl_name a =
     (let impl = enclosing_impl node impl_name; key = enclosing_key node func_key impl in
      fold (\<lambda>child. analyze_walk child key impl) (jinner node) (analyze_node node key a))"

declare analyze_walk.simps [simp del]

definition analyze_ast :: "json list \<Rightarrow> alloc_info" where
  "analyze_ast ast_roots =
     fold (\<lambda>root. analyze_walk root [] []) ast_roots \<lparr>ai_allocs = [], ai_calls = [], ai_entries = []\<rparr>"

definition add_counts :: "(string, nat) dict \<Rightarrow> nat \<Rightarrow> (string, nat) dict \<Rightarrow> (string, nat) dict" where
  "add_counts sub factor result = fold (\<lambda>(cls, cnt). add_count cls (cnt * factor)) sub result"

lemma dget_or_keys: "x \<in> set (dget_or d k []) \<Longrightarrow> k \<in> set (dkeys d)"
  unfolding in_dkeys_iff by (cases "dget d k") (auto simp: dget_or_def)

function effective_allocs ::
    "string \<Rightarrow> count_table \<Rightarrow> count_table \<Rightarrow> string list \<Rightarrow> (string, nat) dict" where
  "effective_allocs func_key allocs call_graph visited =
     (if func_key \<in> set visited then []
      else fold (\<lambda>(callee, call_cnt) result.
               add_counts (effective_allocs callee allocs call_graph (func_key # visited)) call_cnt result)
             (dget_or call_graph func_key [])
             (add_counts (dget_or allocs func_key []) 1 []))"
  by pat_completeness auto
termination
proof (relation "measure (\<lambda>(f, a, g, V). card (set (dkeys g) - set V))", goal_cases)
  case (2 f a g V x r n)
  then have "f \<in> set (dkeys g)" by (intro dget_or_keys)
  with 2 show ?case using card_unvisited_less_list by fastforce
qed simp

declare effective_allocs.simps [simp del]

definition pool_named :: "string \<Rightarrow> bool" where
  "pool_named cls \<longleftrightarrow> contains ''pool'' (str_lower cls) \<and> \<not> contains ''unpool'' (str_lower cls)"

definition raise_count :: "string \<times> nat \<Rightarrow> (string, nat) dict \<Rightarrow> (string, nat) dict" where
  "raise_count = (\<lambda>(cls, cnt) counts. dput cls (max cnt (dget_or counts cls 0)) counts)"

definition compute_pool_counts :: "alloc_info \<Rightarrow> (string, nat) dict" where
  "compute_pool_counts a =
     (let eff = (\<lambda>key. effective_allocs key (ai_allocs a) (ai_calls a) []);
          counts = fold (\<lambda>key. add_counts (eff key) 1) (''main'' # ai_entries a) []
      in if counts \<noteq> [] then counts
         else filter (\<lambda>(cls, cnt). pool_named cls)
                (fold (\<lambda>key. fold raise_count (eff key)) (dkeys (ai_allocs a)) []))"

subsection \<open>Output\<close>

definition POOL_SKIP_CLASSES :: "string list" where
  "POOL_SKIP_CLASSES =
     [''Object'', ''Protocol'', ''OZString'', ''OZMutableString'',
      ''OZAutoreleasePool'', ''OZQ31'', ''OZArray'', ''OZDictionary'',
      ''OZLog'', ''OZGPIOPin'', ''OZGPIOOutput'', ''OZGPIOInput'']"

type_synonym pool_table = "(string, int \<times> nat \<times> int) dict"

definition pools_text :: "pool_table \<Rightarrow> string" where
  "pools_text pools =
     ''/* Auto-generated by objz_gen_pools.py '' @ em_dash @ '' do not edit */'' @ [nl]
     @ ''#include <objc/pool.h>'' @ [nl, nl]
     @ concat (map (\<lambda>(cls, bsz, cnt, align).
          ''OZ_DEFINE_POOL('' @ cls @ '', '' @ str_of_int bsz @ '', '' @ str_of_nat cnt @ '', ''
          @ str_of_int align @ '');'' @ [nl]) (sort_key fst pools))"

definition pools_log :: "pool_table \<Rightarrow> string list" where
  "pools_log pools =
     (if pools = [] then [''objz_gen_pools: no user classes with alloc calls found'']
      else map (\<lambda>(cls, bsz, cnt, align).
             ''objz_gen_pools: '' @ cls @ '' block_size='' @ str_of_int bsz @ '' count=''
             @ str_of_nat cnt @ '' align='' @ str_of_int align) (sort_key fst pools))"

definition make_pools :: "(string, int) dict \<Rightarrow> (string, nat) dict \<Rightarrow> int \<Rightarrow> pool_table" where
  "make_pools sizes pool_counts ptr =
     fold (\<lambda>(cls, cnt) pools.
        if cls \<in> set POOL_SKIP_CLASSES \<or> cnt = 0 then pools
        else dput cls (align_up (dget_or sizes cls (ptr + 4)) ptr, cnt, ptr) pools)
       pool_counts []"

definition pools_main :: "json list \<Rightarrow> int \<Rightarrow> (string \<times> string list) outcome" where
  "pools_main ast_roots ptr =
     ebind (compute_class_sizes (parse_classes ast_roots) ptr) (\<lambda>sizes.
       let pools = make_pools sizes (compute_pool_counts (analyze_ast ast_roots)) ptr
       in Inr (pools_text pools, pools_log pools))"

end
