(* ===== verification/Pools_Facts.thy ===== *)
theory Pools_Facts
  imports Pools
begin

text \<open>
  The pool generator: alignment is the least multiple, the cached class sizes satisfy the
  layout equation of every class, and without recursion in the call graph the visited set
  of \<open>effective_allocs\<close> changes nothing: the counts are the exact totals over call paths.
\<close>

subsection \<open>Alignment\<close>

lemma align_up_div:
  "align_up n (2 ^ k) = (n + 2 ^ k - 1) div 2 ^ k * 2 ^ k"
proof -
  let ?x = "n + 2 ^ k - 1"
  have "align_up n (2 ^ k) = ?x AND NOT (mask k)" by (simp add: align_up_def mask_eq_exp_minus_1)
  also have "\<dots> = push_bit k (drop_bit k ?x)"
    by (rule bit_eqI) (auto simp: bit_simps)
  also have "\<dots> = ?x div 2 ^ k * 2 ^ k" by (simp add: push_bit_eq_mult drop_bit_eq_div)
  finally show ?thesis .
qed

lemma align_up_least:
  "2 ^ k dvd align_up n (2 ^ k) \<and> n \<le> align_up n (2 ^ k) \<and> align_up n (2 ^ k) < n + 2 ^ k"
proof -
  let ?x = "n + 2 ^ k - 1" and ?a = "(2::int) ^ k"
  have "?x div ?a * ?a = ?x - ?x mod ?a" by (simp add: minus_mod_eq_div_mult)
  moreover have "0 \<le> ?x mod ?a" "?x mod ?a < ?a" by simp_all
  ultimately have "n \<le> ?x div ?a * ?a \<and> ?x div ?a * ?a < n + ?a" by linarith
  then show ?thesis unfolding align_up_div by simp
qed

subsection \<open>Class sizes\<close>

definition known_super :: "pool_classes \<Rightarrow> string \<Rightarrow> string option" where
  "known_super classes n =
     (case dget classes n of
        None \<Rightarrow> None
      | Some c \<Rightarrow> if pk_super c \<noteq> [] \<and> dget classes (pk_super c) \<noteq> None then Some (pk_super c) else None)"

lemma known_super_keys: "known_super classes n = Some s \<Longrightarrow> n \<in> set (dkeys classes) \<and> s \<in> set (dkeys classes)"
  unfolding in_dkeys_iff by (auto simp: known_super_def split: option.splits if_splits)

interpretation layout: partial_step "known_super classes" for classes
proof
  show "finite {n. known_super classes n \<noteq> None}"
    by (rule finite_subset [of _ "set (dkeys classes)"]) (use known_super_keys in blast, simp)
qed

definition layout_rel :: "pool_classes \<Rightarrow> (string \<times> string) set" where
  "layout_rel classes = {(n, s). known_super classes n = Some s}"

definition layout_height :: "pool_classes \<Rightarrow> string \<Rightarrow> nat" where
  "layout_height classes n = card {y. (n, y) \<in> (layout_rel classes)\<^sup>+}"

lemma layout_height_le: "layout_height classes n \<le> length classes"
proof -
  have "{y. (n, y) \<in> (layout_rel classes)\<^sup>+} \<subseteq> set (dkeys classes)"
    by (auto simp: layout_rel_def dest!: tranclD2 known_super_keys)
  then have "layout_height classes n \<le> card (set (dkeys classes))"
    unfolding layout_height_def by (intro card_mono) simp_all
  also have "\<dots> \<le> length classes" using card_length [of "dkeys classes"] by simp
  finally show ?thesis .
qed

definition base_size :: "pool_classes \<Rightarrow> int \<Rightarrow> (string, int) dict \<Rightarrow> pool_class \<Rightarrow> int" where
  "base_size classes ptr_size cache c =
     (if pk_super c \<noteq> [] \<and> dget classes (pk_super c) \<noteq> None then dget_or cache (pk_super c) 0
      else if pk_super c \<noteq> [] then ptr_size + 4 else 0)"

text \<open>Every cached class has its superclass cached, and its size follows from that entry.\<close>

definition sizes_ok :: "pool_classes \<Rightarrow> int \<Rightarrow> (string, int) dict \<Rightarrow> bool" where
  "sizes_ok classes ptr_size cache \<longleftrightarrow>
     (\<forall>n v. dget cache n = Some v \<longrightarrow>
        (\<exists>c. dget classes n = Some c \<and>
             v = align_up (base_size classes ptr_size cache c + own_size ptr_size c) ptr_size) \<and>
        (\<forall>s. known_super classes n = Some s \<longrightarrow> dget cache s \<noteq> None))"

lemma sizes_ok_put:
  assumes "sizes_ok classes ptr_size cache" and "dget cache n = None"
    and "dget classes n = Some c"
    and "\<And>s. known_super classes n = Some s \<Longrightarrow> s \<noteq> n \<and> dget cache s \<noteq> None"
    and "v = align_up (base_size classes ptr_size cache c + own_size ptr_size c) ptr_size"
  shows "sizes_ok classes ptr_size (dput n v cache)"
proof -
  have same: "base_size classes ptr_size (dput n v cache) d = base_size classes ptr_size cache d"
    if "dget classes m = Some d" "\<And>s. known_super classes m = Some s \<Longrightarrow> s \<noteq> n" for m d
    using that by (auto simp: base_size_def known_super_def)
  show ?thesis unfolding sizes_ok_def
  proof (intro allI impI)
    fix m u assume get: "dget (dput n v cache) m = Some u"
    show "(\<exists>c. dget classes m = Some c \<and>
             u = align_up (base_size classes ptr_size (dput n v cache) c + own_size ptr_size c) ptr_size) \<and>
        (\<forall>s. known_super classes m = Some s \<longrightarrow> dget (dput n v cache) s \<noteq> None)"
    proof (cases "m = n")
      case True
      with get assms same [of n c] show ?thesis by auto
    next
      case False
      with get have cached: "dget cache m = Some u" by simp
      with assms(1) obtain d where
        d: "dget classes m = Some d" "u = align_up (base_size classes ptr_size cache d + own_size ptr_size d) ptr_size"
        "\<And>s. known_super classes m = Some s \<Longrightarrow> dget cache s \<noteq> None"
        unfolding sizes_ok_def by blast
      with assms(2) have "\<And>s. known_super classes m = Some s \<Longrightarrow> s \<noteq> n" by auto
      with d same [of m d] show ?thesis by auto
    qed
  qed
qed

lemma get_size_ok:
  assumes "acyclic (layout_rel classes)" and "dget classes n = Some c"
    and "sizes_ok classes ptr_size cache" and "layout_height classes n < fuel"
  shows "\<exists>v cache'. get_size fuel classes ptr_size n cache = Inr (v, cache') \<and>
     sizes_ok classes ptr_size cache' \<and> dget cache' n = Some v \<and>
     (\<forall>m. dget cache m \<noteq> None \<longrightarrow> dget cache' m \<noteq> None) \<and>
     (\<forall>m. dget cache m = None \<and> dget cache' m \<noteq> None \<longrightarrow> (n, m) \<in> (layout_rel classes)\<^sup>*)"
  using assms(2-)
proof (induction fuel arbitrary: n c cache)
  case (Suc fuel)
  show ?case
  proof (cases "dget cache n")
    case (Some v)
    with Suc.prems show ?thesis by auto
  next
    case uncached: None
    show ?thesis
    proof (cases "known_super classes n")
      case None
      define v where "v = align_up (base_size classes ptr_size cache c + own_size ptr_size c) ptr_size"
      have "get_size (Suc fuel) classes ptr_size n cache = Inr (v, dput n v cache)"
        using uncached None Suc.prems(1)
        by (auto simp: known_super_def base_size_def v_def Let_def split: if_splits)
      moreover have "sizes_ok classes ptr_size (dput n v cache)"
        using sizes_ok_put [OF Suc.prems(2) uncached Suc.prems(1)] None v_def by simp
      ultimately show ?thesis by auto
    next
      case (Some s)
      then have s: "pk_super c = s" "s \<noteq> []" "dget classes s \<noteq> None" and rel: "(n, s) \<in> layout_rel classes"
        using Suc.prems(1) by (auto simp: known_super_def layout_rel_def split: if_splits)
      then obtain d where d: "dget classes s = Some d" by auto
      have "layout_height classes s < layout_height classes n"
        unfolding layout_height_def layout_rel_def
        by (rule layout.height_less [OF assms(1) [unfolded layout_rel_def] Some])
      then have "layout_height classes s < fuel" using Suc.prems(3) by simp
      from Suc.IH [OF d Suc.prems(2) this] obtain u c1 where
        run: "get_size fuel classes ptr_size s cache = Inr (u, c1)" and
        ok: "sizes_ok classes ptr_size c1" and got: "dget c1 s = Some u" and
        mono: "\<forall>m. dget cache m \<noteq> None \<longrightarrow> dget c1 m \<noteq> None" and
        new: "\<forall>m. dget cache m = None \<and> dget c1 m \<noteq> None \<longrightarrow> (s, m) \<in> (layout_rel classes)\<^sup>*" by blast
      have nocycle: "(s, n) \<notin> (layout_rel classes)\<^sup>*"
        using assms(1) rel by (meson acyclic_def rtrancl_into_trancl2)
      then have fresh: "dget c1 n = None" using new uncached by auto
      define v where "v = align_up (base_size classes ptr_size c1 c + own_size ptr_size c) ptr_size"
      have "base_size classes ptr_size c1 c = u" using s got by (simp add: base_size_def dget_or_def)
      then have "get_size (Suc fuel) classes ptr_size n cache = Inr (v, dput n v c1)"
        using uncached Suc.prems(1) s run by (simp add: v_def Let_def)
      moreover have "sizes_ok classes ptr_size (dput n v c1)"
        using sizes_ok_put [OF ok fresh Suc.prems(1) _ v_def] Some got nocycle by auto
      moreover have "(n, m) \<in> (layout_rel classes)\<^sup>*" if "(s, m) \<in> (layout_rel classes)\<^sup>*" for m
        using rel that by (rule converse_rtrancl_into_rtrancl)
      ultimately show ?thesis using mono new by (intro exI [of _ v] exI [of _ "dput n v c1"]) auto
    qed
  qed
qed simp


definition demo_layout :: pool_classes where
  "demo_layout = [(''Led'', \<lparr>pk_super = ''OZObject'', pk_ivars = [''int'', ''BOOL'']\<rparr>),
                  (''Lamp'', \<lparr>pk_super = ''Led'', pk_ivars = [''Led *'']\<rparr>)]"


text \<open>
  \<open>align_up\<close> by a power of two is the least multiple at or above its argument.
\<close>

theorem align_up_least_multiple:
  "2 ^ k dvd align_up n (2 ^ k) \<and> n \<le> align_up n (2 ^ k) \<and>
   \<not> (\<exists>m. 2 ^ k dvd m \<and> n \<le> m \<and> m < align_up n (2 ^ k))"
proof -
  note least = align_up_least [of k n]
  have "\<not> (2 ^ k dvd m \<and> n \<le> m \<and> m < align_up n (2 ^ k))" for m
  proof
    assume m: "2 ^ k dvd m \<and> n \<le> m \<and> m < align_up n (2 ^ k)"
    with least have "2 ^ k dvd align_up n (2 ^ k) - m" "0 < align_up n (2 ^ k) - m" by auto
    then have "2 ^ k \<le> align_up n (2 ^ k) - m" by (rule zdvd_imp_le)
    with m least show False by linarith
  qed
  with least show ?thesis by blast
qed

subsection \<open>Reachable allocations\<close>

abbreviation count_of :: "(string, nat) dict \<Rightarrow> string \<Rightarrow> nat" where
  "count_of d c \<equiv> dget_or d c 0"

lemma count_of_add_counts:
  "distinct (dkeys sub) \<Longrightarrow> count_of (add_counts sub n d) c = count_of d c + n * count_of sub c"
proof (induction sub arbitrary: d)
  case Nil
  then show ?case by (simp add: add_counts_def)
next
  case (Cons kv sub)
  obtain k v where kv: "kv = (k, v)" by fastforce
  have step: "count_of (add_counts (kv # sub) n d) c
      = count_of (add_count k (v * n) d) c + n * count_of sub c"
    using Cons unfolding kv by (simp add: add_counts_def)
  have "k \<notin> set (dkeys sub)" using Cons.prems kv by simp
  then have "dget sub k = None" by (metis in_dkeys_iff)
  then show ?case unfolding step by (simp add: kv add_count_def dget_or_def)
qed

lemma distinct_add_counts: "distinct (dkeys d) \<Longrightarrow> distinct (dkeys (add_counts sub n d))"
  unfolding add_counts_def
  by (rule fold_invariant_set [where P = "\<lambda>d. distinct (dkeys d)"]) (auto simp: add_count_def)

lemma distinct_fold_add_counts:
  "distinct (dkeys d) \<Longrightarrow> distinct (dkeys (fold (\<lambda>(callee, n). add_counts (f callee) n) cs d))"
  by (rule fold_invariant_set [where P = "\<lambda>d. distinct (dkeys d)"]) (auto simp: distinct_add_counts)

lemma distinct_effective: "distinct (dkeys (effective_allocs f a g V))"
  by (subst effective_allocs.simps) (auto intro!: distinct_fold_add_counts distinct_add_counts)

lemma effective_allocs_count:
  assumes "distinct (dkeys (dget_or a f []))"
  shows "count_of (effective_allocs f a g V) c =
     (if f \<in> set V then 0
      else count_of (dget_or a f []) c
           + sum_list (map (\<lambda>(callee, n). n * count_of (effective_allocs callee a g (f # V)) c)
                         (dget_or g f [])))"
proof -
  have "count_of (fold (\<lambda>(callee, n). add_counts (effective_allocs callee a g (f # V)) n) cs d) c
      = count_of d c + sum_list (map (\<lambda>(callee, n). n * count_of (effective_allocs callee a g (f # V)) c) cs)"
    for cs d
    by (induction cs arbitrary: d) (auto simp: count_of_add_counts distinct_effective)
  then show ?thesis
    by (subst effective_allocs.simps) (simp add: count_of_add_counts assms)
qed

definition calls :: "count_table \<Rightarrow> (string \<times> string) set" where
  "calls g = {(f, h). h \<in> set (dkeys (dget_or g f []))}"

lemma effective_allocs_visited:
  assumes "acyclic (calls g)" and "\<And>f. distinct (dkeys (dget_or a f []))"
    and "\<And>h. (f, h) \<in> (calls g)\<^sup>* \<Longrightarrow> h \<notin> set V \<and> h \<notin> set W"
  shows "count_of (effective_allocs f a g V) c = count_of (effective_allocs f a g W) c"
  using assms
proof (induction f a g V arbitrary: W rule: effective_allocs.induct)
  case (1 f a g V)
  have fresh: "f \<notin> set V" "f \<notin> set W" using "1.prems"(3) by auto
  have "count_of (effective_allocs callee a g (f # V)) c = count_of (effective_allocs callee a g (f # W)) c"
    if mem: "(callee, n) \<in> set (dget_or g f [])" for callee n
  proof (rule "1.IH" [OF fresh(1) mem refl "1.prems"(1,2)])
    fix h assume reach: "(callee, h) \<in> (calls g)\<^sup>*"
    have call: "(f, callee) \<in> calls g" using mem by (force simp: calls_def)
    from call reach have "(f, h) \<in> (calls g)\<^sup>+" by (rule rtrancl_into_trancl2)
    with "1.prems"(1) have "h \<noteq> f" by (auto simp: acyclic_def)
    with "1.prems"(3) [of h] \<open>(f, h) \<in> (calls g)\<^sup>+\<close> show "h \<notin> set (f # V) \<and> h \<notin> set (f # W)"
      by (auto dest: trancl_into_rtrancl)
  qed
  then have eq: "map (\<lambda>(callee, n). n * count_of (effective_allocs callee a g (f # V)) c) (dget_or g f [])
      = map (\<lambda>(callee, n). n * count_of (effective_allocs callee a g (f # W)) c) (dget_or g f [])"
    by auto
  show ?case
    unfolding effective_allocs_count [OF "1.prems"(2), of f g V c]
      effective_allocs_count [OF "1.prems"(2), of f g W c] eq using fresh by simp
qed

text \<open>
  C32. Without recursion the pool counts are exact: the objects of a class reachable from a
  function are those it allocates itself plus, for every callee, the number of calls times
  the objects reachable from the callee; the visited set only matters for recursion, and
  the walk ends in both cases.
\<close>

theorem effective_allocs_exact:
  assumes "acyclic {(f, h). h \<in> set (dkeys (dget_or g f []))}"
    and "\<And>f. distinct (dkeys (dget_or a f []))"
  shows "dget_or (effective_allocs f a g []) c 0 =
     dget_or (dget_or a f []) c 0 +
     sum_list (map (\<lambda>(callee, n). n * dget_or (effective_allocs callee a g []) c 0) (dget_or g f []))"
proof -
  have ac: "acyclic (calls g)" using assms(1) by (simp add: calls_def)
  have "count_of (effective_allocs callee a g [f]) c = count_of (effective_allocs callee a g []) c"
    if "(callee, n) \<in> set (dget_or g f [])" for callee n
  proof (rule effective_allocs_visited [OF ac assms(2)])
    fix h assume "(callee, h) \<in> (calls g)\<^sup>*"
    moreover have "(f, callee) \<in> calls g" using that by (force simp: calls_def)
    ultimately have "(f, h) \<in> (calls g)\<^sup>+" by (rule rtrancl_into_trancl2 [rotated])
    with ac show "h \<notin> set [f] \<and> h \<notin> set []" by (auto simp: acyclic_def)
  qed
  then have eq: "map (\<lambda>(callee, n). n * count_of (effective_allocs callee a g [f]) c) (dget_or g f [])
      = map (\<lambda>(callee, n). n * count_of (effective_allocs callee a g []) c) (dget_or g f [])"
    by auto
  show ?thesis unfolding effective_allocs_count [OF assms(2), of f g "[]" c] eq by simp
qed

theorem effective_allocs_exact_witness:
  "dget_or (effective_allocs ''main'' [(''setup'', [(''Led'', 2)])] [(''main'', [(''setup'', 3)])] []) ''Led'' 0
   = 3 * dget_or (effective_allocs ''setup'' [(''setup'', [(''Led'', 2)])] [(''main'', [(''setup'', 3)])] []) ''Led'' 0"
proof -
  have "{(f, h). h \<in> set (dkeys (dget_or [(''main'', [(''setup'', 3::nat)])] f []))} = {(''main'', ''setup'')}"
    by (auto simp: dget_or_def split: if_splits)
  then have "acyclic {(f, h). h \<in> set (dkeys (dget_or [(''main'', [(''setup'', 3::nat)])] f []))}"
    by (auto simp: acyclic_def elim: tranclE dest: tranclD tranclD2)
  from effective_allocs_exact [OF this, of "[(''setup'', [(''Led'', 2)])]" "''main''" "''Led''"]
  show ?thesis by (simp add: dget_or_def)
qed

end
