(* ===== verification/Spec2Isabelle.thy ===== *)
theory Spec2Isabelle
  imports Driver_Facts Context_Facts Emit_Dispatch_Facts Emit_Props Retain_Cycles_Facts Table_Sizes Pools_Facts
begin

text \<open>
  Objective-Z: the Objective-C to C transpiler and the build-time generators, modelled from
  their Python sources.

  \<^bold>\<open>The program.\<close> \<open>src/tools/oz_transpile\<close> turns Clang's JSON ASTs of Objective-C files into plain
  C with compile-time or vtable dispatch and reference counting. \<open>__main__.py\<close> collects one
  module per AST (\<open>collect.py\<close> on the data model of \<open>model.py\<close>), joins them, resolves names
  (\<open>resolve.py\<close>) and emits (\<open>emit.py\<close>); a file whose source is at hand is emitted through a
  template of that source (\<open>extract.py\<close>, \<open>context.py\<close>). Three scripts of \<open>src/scripts\<close> work on
  the sources directly: the retain cycle checker, the generator of table sizes and the
  generator of object pools.

  \<^bold>\<open>Components and theories\<close>, in the order of the data flow:

  \<^item> Ground: \<open>Prelude\<close> (exceptions as a sum type, sequencing, loops that may raise, ordered
    sets), \<open>Py_String\<close> and \<open>Py_Dict\<close> (Python strings; dictionaries with insertion order behind
    the locale \<open>py_dict\<close>), \<open>Clang_Json\<close> (AST nodes), \<open>World\<close> (files and tree-sitter as parameters).
  \<^item> \<open>Oz_Type\<close>, \<open>Model\<close>: \<open>model.py\<close>; a dataclass is a record, the dispatch kind a datatype.
  \<^item> \<open>Collect\<close>, \<open>Collect_Walk\<close>, \<open>Source_Scan\<close>: \<open>collect.py\<close>, one definition per handler of the walk;
    \<open>Merge\<close>: \<open>merge_modules\<close> and the association of free items of \<open>__main__.py\<close>.
  \<^item> \<open>Hierarchy\<close>, \<open>Resolve_Methods\<close>, \<open>Resolve_Generics\<close>: the passes of \<open>resolve.py\<close> and \<open>resolve\<close>.
    Types that synthesized accessors share with their property are cells written through the
    property, as the code shares the object.
  \<^item> \<open>Front_End\<close>: \<open>main\<close> up to the emitter; \<open>Driver\<close>: all of \<open>main\<close>, with exit code, messages, files
    and manifest.
  \<^item> \<open>Emit_Lookup\<close> (C names, walks up the hierarchy), \<open>Emit_Ownership\<close> (owned and borrowed
    expressions, allocation counts, preparation of the module), \<open>Emit_Dispatch\<close> (contexts of the
    dispatch files and class headers), \<open>Emit_State\<close> (the fields of \<open>_EmitCtx\<close> that change, as a
    state record, and combinators for functions that write to a buffer), \<open>Emit_Expr\<close>,
    \<open>Emit_Message\<close>, \<open>Emit_Body\<close> (expressions, message sends, statements), \<open>Emit_Class\<close> (accessors,
    deallocation, class and orphan sources), \<open>Emitter\<close> (\<open>emit\<close>: all files): \<open>emit.py\<close>.
  \<^item> \<open>Extract\<close>, \<open>Context\<close>, \<open>Patched\<close>: \<open>extract.py\<close>, \<open>context.py\<close> and the patched sources of \<open>emit.py\<close>.
  \<^item> \<open>Retain_Cycles\<close>, \<open>Table_Sizes\<close>, \<open>Pools\<close>: \<open>objz_check_cycles.py\<close>, \<open>objz_gen_table_sizes.py\<close>,
    \<open>objz_gen_pools.py\<close>.

  \<^bold>\<open>What is shown.\<close>

  \<^item> \<open>Driver_Facts\<close>, \<open>Front_End\<close>: exit code 0 means that nothing is pending, and the written files
    and the manifest agree; the front end always reaches a verdict, and what it hands to the
    emitter is well formed, acyclic and numbered with superclasses first.
  \<^item> \<open>Collect_Props\<close>: collection and merging keep the module well formed and lose no item.
  \<^item> \<open>Hierarchy_Facts\<close>, \<open>Resolve_Facts\<close>, \<open>Resolve_Props\<close>: name resolution ends, accepts exactly the
    acyclic modules, and each pass does what it promises (ids, depths, dispatch kinds,
    accessors, protocol conformance, generic constraints).
  \<^item> \<open>Emit_Lookup_Facts\<close>, \<open>Emit_Dispatch_Facts\<close>: walks end on acyclic modules; vtables implement
    the lookup of the nearest method, agree with compile-time dispatch and with the header.
  \<^item> \<open>Emit_Logic\<close> proves once, for any relation between emitters that the combinators preserve
    (locales \<open>emitter_rel\<close> and \<open>emission\<close>), that all emitters preserve it. \<open>Emit_Facts\<close> uses it three
    times: bodies end, more fuel changes nothing, scopes and logs are kept. \<open>Emit_Props\<close> has the
    properties of bodies; \<open>Emitter_Facts\<close> lifts two of them (locale \<open>class_emission\<close>) to methods,
    classes and files, and determines the list of files.
  \<^item> \<open>Context_Facts\<close>: placeholders of a template are defined, C is reproduced.
  \<^item> \<open>Retain_Cycles_Facts\<close>, \<open>Pools_Facts\<close>, \<open>Table_Sizes\<close>: the cycle search is correct and decides the
    exit code; class sizes, pool counts and table sizes are the intended numbers.

  \<^bold>\<open>Fuel.\<close> Loops up the hierarchy take \<open>hier_fuel\<close>, the number of classes plus one: enough on an
  acyclic module. \<open>emit_expr\<close>, \<open>emit_stmt\<close> and \<open>emit_if\<close> take fuel because macro passthrough calls
  them on the same node again; \<open>body_fuel\<close> is twice the size of the body plus one, and every body
  that any fuel emits is emitted with it (\<open>body_fuel_adequate\<close>). Spent fuel is the exception
  \<open>Diverges\<close>. The cycle search has fuel above the number of names in the graph and the size
  recursion of the pool generator above the number of classes; the import closure is a partial
  function (\<open>None\<close> if it does not end), total on a disk with finitely many files. All other
  recursions end by a measure.

  \<^bold>\<open>Parameters.\<close> Files, the tree-sitter parser and its queries (\<open>world\<close>), and Jinja2 with the
  templates of the repository (\<open>templates\<close>, \<open>engine\<close>: a text or an exception). Strings are lists of
  bytes, so character positions are byte positions.

  \<^bold>\<open>Not modelled.\<close> Reading the command line and JSON files (glue around \<open>argparse\<close> and \<open>json\<close>),
  writing the files (the model returns paths and contents), the template files themselves,
  \<open>objz_merge_compile_db.py\<close> and \<open>regen_zephyr_tests.py\<close> (\<open>json\<close> and subprocess calls), the test
  drivers, and everything that is not Python: the runtime, Foundation, samples, build files.
\<close>

end
